theory Spec2Isabelle
  imports Complex_Main "HOL-Library.Word" "HOL-Library.Monad_Syntax"
    "HOL-Library.Product_Lexorder"
begin

unbundle bit_operations_syntax

section \<open>Python values used by \<open>ultis.py\<close>\<close>

text \<open>
  The snapshot and diff utilities of the WindSurf Memory Tracker live in \<open>ultis.py\<close>.
  Every function below is the translation of the function of the same name there.
  An exception raised by the Python code is the \<open>Inl\<close> branch of a sum.
\<close>

datatype py_error = IndexError | TypeError | UnicodeEncodeError | UnicodeDecodeError | ZlibError

subsection \<open>Lists with Python's indexing\<close>

text \<open>\<open>xs[i]\<close>: a negative index counts from the end; out of range raises.\<close>

definition py_index :: "'a list \<Rightarrow> int \<Rightarrow> py_error + 'a" where
  "py_index xs i =
     (let n = int (length xs); j = (if i < 0 then i + n else i)
      in if 0 \<le> j \<and> j < n then Inr (xs ! nat j) else Inl IndexError)"

text \<open>\<open>xs.insert(i, x)\<close>: the index is clamped to the list, it never raises.\<close>

definition py_insert :: "'a list \<Rightarrow> int \<Rightarrow> 'a \<Rightarrow> 'a list" where
  "py_insert xs i x =
     (let n = int (length xs); j = (if i < 0 then max 0 (i + n) else min i n)
      in take (nat j) xs @ [x] @ drop (nat j) xs)"

text \<open>\<open>xs.pop(i)\<close>: as indexing, and the element is removed.\<close>

definition py_pop :: "'a list \<Rightarrow> int \<Rightarrow> py_error + 'a list" where
  "py_pop xs i =
     (let n = int (length xs); j = (if i < 0 then i + n else i)
      in if 0 \<le> j \<and> j < n then Inr (take (nat j) xs @ drop (Suc (nat j)) xs)
         else Inl IndexError)"

subsection \<open>Strings\<close>

text \<open>
  A text is a \<open>string\<close>: a list of characters, each a code point below 256, so that
  \<open>length\<close> counts what Python's \<open>len\<close> counts. The character classes are the ones
  Python's \<open>str\<close> methods and \<open>re\<close> module use on that range.
\<close>

definition code :: "char \<Rightarrow> nat" where
  "code c = of_char c"

text \<open>\<open>str.isspace\<close> and the class \<open>\s\<close>.\<close>

definition is_space :: "char \<Rightarrow> bool" where
  "is_space c =
     (let n = code c in (9 \<le> n \<and> n \<le> 13) \<or> (28 \<le> n \<and> n \<le> 32) \<or> n = 133 \<or> n = 160)"

text \<open>The line boundaries of \<open>str.splitlines\<close>.\<close>

definition is_linebreak :: "char \<Rightarrow> bool" where
  "is_linebreak c =
     (let n = code c in (10 \<le> n \<and> n \<le> 13) \<or> (28 \<le> n \<and> n \<le> 30) \<or> n = 133)"

text \<open>The class \<open>\d\<close>: decimal digits.\<close>

definition is_digit :: "char \<Rightarrow> bool" where
  "is_digit c = (let n = code c in 48 \<le> n \<and> n \<le> 57)"

text \<open>The class \<open>\w\<close>: alphanumeric characters and the underscore.\<close>

definition is_word :: "char \<Rightarrow> bool" where
  "is_word c =
     (let n = code c in
        (48 \<le> n \<and> n \<le> 57) \<or> (65 \<le> n \<and> n \<le> 90) \<or> n = 95 \<or> (97 \<le> n \<and> n \<le> 122)
        \<or> n = 170 \<or> n = 178 \<or> n = 179 \<or> n = 181 \<or> n = 185 \<or> n = 186
        \<or> (188 \<le> n \<and> n \<le> 190) \<or> (192 \<le> n \<and> n \<le> 214) \<or> (216 \<le> n \<and> n \<le> 246)
        \<or> 248 \<le> n)"

definition startswith :: "string \<Rightarrow> string \<Rightarrow> bool" where
  "startswith s p = (take (length p) s = p)"

definition endswith :: "string \<Rightarrow> string \<Rightarrow> bool" where
  "endswith s p = (length p \<le> length s \<and> drop (length s - length p) s = p)"

definition lstrip :: "string \<Rightarrow> string" where
  "lstrip s = dropWhile is_space s"

definition strip :: "string \<Rightarrow> string" where
  "strip s = rev (dropWhile is_space (rev (dropWhile is_space s)))"

text \<open>\<open>sub in s\<close>.\<close>

fun contains :: "string \<Rightarrow> string \<Rightarrow> bool" where
  "contains [] sub = (sub = [])"
| "contains (c # cs) sub = (startswith (c # cs) sub \<or> contains cs sub)"

text \<open>\<open>sep.join(xs)\<close>.\<close>

fun join :: "string \<Rightarrow> string list \<Rightarrow> string" where
  "join sep [] = []"
| "join sep [x] = x"
| "join sep (x # y # ys) = x @ sep @ join sep (y # ys)"

text \<open>
  \<open>str.splitlines\<close>: a carriage return followed by a line feed is one boundary, and a
  text that ends with a boundary has no empty last line.
\<close>

fun splitlines_from :: "string \<Rightarrow> string \<Rightarrow> string list" where
  "splitlines_from cur [] = (if cur = [] then [] else [cur])"
| "splitlines_from cur (c # cs) =
     (if c = CHR 0x0D then
        (case cs of
           [] \<Rightarrow> [cur]
         | d # ds \<Rightarrow> if d = CHR 0x0A then cur # splitlines_from [] ds
                     else cur # splitlines_from [] (d # ds))
      else if is_linebreak c then cur # splitlines_from [] cs
      else splitlines_from (cur @ [c]) cs)"

definition splitlines :: "string \<Rightarrow> string list" where
  "splitlines s = splitlines_from [] s"

text \<open>
  \<open>str.upper\<close>, character by character. The sharp s becomes two letters. The micro sign
  and the y with diaeresis have their capitals beyond code point 255 and are left as they
  are; the only use of \<open>upper\<close> is the search for \<open>TODO\<close>, which they cannot affect.
\<close>

definition upper_char :: "char \<Rightarrow> string" where
  "upper_char c =
     (let n = code c in
        if 97 \<le> n \<and> n \<le> 122 then [char_of (n - 32)]
        else if n = 223 then ''SS''
        else if 224 \<le> n \<and> n \<le> 254 \<and> n \<noteq> 247 then [char_of (n - 32)]
        else [c])"

definition upper :: "string \<Rightarrow> string" where
  "upper s = concat (map upper_char s)"

text \<open>\<open>str.lower\<close>.\<close>

definition lower_char :: "char \<Rightarrow> char" where
  "lower_char c =
     (let n = code c in
        if 65 \<le> n \<and> n \<le> 90 then char_of (n + 32)
        else if 192 \<le> n \<and> n \<le> 222 \<and> n \<noteq> 215 then char_of (n + 32)
        else c)"

definition lower :: "string \<Rightarrow> string" where
  "lower s = map lower_char s"

text \<open>\<open>int(s)\<close> on a run of decimal digits.\<close>

definition int_of_digits :: "string \<Rightarrow> int" where
  "int_of_digits s = foldl (\<lambda>acc c. 10 * acc + int (code c - 48)) 0 s"

subsection \<open>Pieces of regular expressions\<close>

text \<open>
  The patterns of the source are sequences of a literal, a greedy run of one character
  class, or a bounded run, where neighbouring pieces never accept the same character; a
  greedy run therefore takes all the characters of its class and backtracking cannot
  change the outcome. Each piece consumes a prefix of the text and returns the rest.
\<close>

definition lit :: "string \<Rightarrow> string \<Rightarrow> string option" where
  "lit p s = (if startswith s p then Some (drop (length p) s) else None)"

definition many0 :: "(char \<Rightarrow> bool) \<Rightarrow> string \<Rightarrow> string option" where
  "many0 cls s = Some (dropWhile cls s)"

definition many1 :: "(char \<Rightarrow> bool) \<Rightarrow> string \<Rightarrow> (string \<times> string) option" where
  "many1 cls s = (if takeWhile cls s = [] then None else Some (takeWhile cls s, dropWhile cls s))"

section \<open>The diff engine: \<open>apply_diff\<close>\<close>

text \<open>
  The hunk header pattern \<open>@@ -(\d+),(\d+) \+(\d+),(\d+) @@\<close>, matched at the start of the
  line; the result is the third group, the first line of the hunk in the new text.
\<close>

definition match_hunk_header :: "string \<Rightarrow> string option" where
  "match_hunk_header s =
     do {
       r \<leftarrow> lit ''@@ -'' s;
       (g1, r) \<leftarrow> many1 is_digit r;
       r \<leftarrow> lit '','' r;
       (g2, r) \<leftarrow> many1 is_digit r;
       r \<leftarrow> lit '' +'' r;
       (g3, r) \<leftarrow> many1 is_digit r;
       r \<leftarrow> lit '','' r;
       (g4, r) \<leftarrow> many1 is_digit r;
       r \<leftarrow> lit '' @@'' r;
       Some g3
     }"

definition is_file_header :: "string \<Rightarrow> bool" where
  "is_file_header line = (startswith line ''+++'' \<or> startswith line ''---'')"

text \<open>
  The first loop of \<open>apply_diff\<close>: it leaves in \<open>start_idx\<close> the index after the last file
  header line, and stops at the first pair of adjacent header lines.
\<close>

fun find_start :: "nat \<Rightarrow> nat \<Rightarrow> string list \<Rightarrow> nat" where
  "find_start start_idx i [] = start_idx"
| "find_start start_idx i (line # rest) =
     (if is_file_header line then
        (case rest of
           [] \<Rightarrow> i + 1
         | nxt # _ \<Rightarrow> if is_file_header nxt then i + 2 else find_start (i + 1) (i + 1) rest)
      else find_start start_idx (i + 1) rest)"

text \<open>
  The second loop: \<open>result_lines\<close> and the cursor \<open>line_idx\<close> are the state. The cursor is
  an integer: a header whose new start is \<open>0\<close> sets it to \<open>-1\<close>.
\<close>

fun apply_lines :: "string list \<Rightarrow> int \<Rightarrow> string list \<Rightarrow> py_error + string list" where
  "apply_lines result_lines line_idx [] = Inr result_lines"
| "apply_lines result_lines line_idx (diff_line # rest) =
     (if startswith diff_line ''@@'' then
        (case match_hunk_header diff_line of
           Some g3 \<Rightarrow> apply_lines result_lines (int_of_digits g3 - 1) rest
         | None \<Rightarrow> apply_lines result_lines line_idx rest)
      else if startswith diff_line ''+'' then
        apply_lines (py_insert result_lines line_idx (drop 1 diff_line)) (line_idx + 1) rest
      else if startswith diff_line ''-'' then
        (if line_idx < int (length result_lines) then
           (case py_index result_lines line_idx of
              Inl e \<Rightarrow> Inl e
            | Inr l \<Rightarrow>
                if l = drop 1 diff_line then
                  (case py_pop result_lines line_idx of
                     Inl e \<Rightarrow> Inl e
                   | Inr popped \<Rightarrow> apply_lines popped line_idx rest)
                else apply_lines result_lines line_idx rest)
         else apply_lines result_lines line_idx rest)
      else if \<not> startswith diff_line [CHR 0x5C] then
        apply_lines result_lines (line_idx + 1) rest
      else apply_lines result_lines line_idx rest)"

definition apply_diff :: "string \<Rightarrow> string \<Rightarrow> py_error + string" where
  "apply_diff original_content diff_content =
     (let diff_lines = splitlines diff_content;
          start_idx = find_start 0 0 diff_lines;
          original_lines = splitlines original_content
      in case apply_lines original_lines 0 (drop start_idx diff_lines) of
           Inl e \<Rightarrow> Inl e
         | Inr result_lines \<Rightarrow> Inr (join ''\<newline>'' result_lines))"

section \<open>The metrics analyzer: \<open>count_code_metrics\<close>\<close>

text \<open>\<open>^\s*def\s+(\w+)\s*\(\<close>, with the function's name as result.\<close>

definition match_def :: "string \<Rightarrow> string option" where
  "match_def line =
     do {
       r \<leftarrow> many0 is_space line;
       r \<leftarrow> lit ''def'' r;
       (ws, r) \<leftarrow> many1 is_space r;
       (name, r) \<leftarrow> many1 is_word r;
       r \<leftarrow> many0 is_space r;
       r \<leftarrow> lit ''('' r;
       Some name
     }"

text \<open>\<open>^\s*class\s+\w+\<close>.\<close>

definition match_class :: "string \<Rightarrow> string option" where
  "match_class line =
     do {
       r \<leftarrow> many0 is_space line;
       r \<leftarrow> lit ''class'' r;
       (ws, r) \<leftarrow> many1 is_space r;
       (name, r) \<leftarrow> many1 is_word r;
       Some name
     }"

text \<open>\<open>^\s*import\s+|^\s*from\s+\w+\s+import\<close>: the two alternatives in turn.\<close>

definition match_import_plain :: "string \<Rightarrow> string option" where
  "match_import_plain line =
     do {
       r \<leftarrow> many0 is_space line;
       r \<leftarrow> lit ''import'' r;
       (ws, r) \<leftarrow> many1 is_space r;
       Some r
     }"

definition match_import_from :: "string \<Rightarrow> string option" where
  "match_import_from line =
     do {
       r \<leftarrow> many0 is_space line;
       r \<leftarrow> lit ''from'' r;
       (ws, r) \<leftarrow> many1 is_space r;
       (name, r) \<leftarrow> many1 is_word r;
       (ws, r) \<leftarrow> many1 is_space r;
       r \<leftarrow> lit ''import'' r;
       Some r
     }"

definition match_import :: "string \<Rightarrow> bool" where
  "match_import line = (match_import_plain line \<noteq> None \<or> match_import_from line \<noteq> None)"

text \<open>
  The dictionary that \<open>count_code_metrics\<close> returns. The two last entries are floating
  point numbers in Python, rounded to two decimals; here they are exact rationals.
\<close>

record code_metrics =
  total_lines :: int
  code_lines :: int
  comment_lines :: int
  blank_lines :: int
  docstring_lines :: int
  function_count :: int
  class_count :: int
  import_count :: int
  todo_count :: int
  max_line_length :: int
  avg_line_length :: rat
  comment_ratio :: rat

definition round_half_even :: "rat \<Rightarrow> int" where
  "round_half_even x =
     (let f = \<lfloor>x\<rfloor>; d = x - of_int f
      in if d < 1 / 2 then f else if 1 / 2 < d then f + 1 else if even f then f else f + 1)"

text \<open>\<open>round(x, 2)\<close>.\<close>

definition round2 :: "rat \<Rightarrow> rat" where
  "round2 x = of_int (round_half_even (x * 100)) / 100"

text \<open>The local variables of the scanning loop.\<close>

record scan_state =
  st_blank :: int
  st_comment :: int
  st_docstring :: int
  st_function :: int
  st_class :: int
  st_import :: int
  st_todo :: int
  st_lengths :: "int list"
  st_in_docstring :: bool
  st_delimiter :: "string option"

definition scan_init :: scan_state where
  "scan_init =
     \<lparr>st_blank = 0, st_comment = 0, st_docstring = 0, st_function = 0, st_class = 0,
      st_import = 0, st_todo = 0, st_lengths = [], st_in_docstring = False,
      st_delimiter = None\<rparr>"

text \<open>
  The body of the loop for one line. \<open>docstring_delimiter\<close> starts as \<open>None\<close>, and
  \<open>stripped.endswith(None)\<close> would raise \<open>TypeError\<close>.
\<close>

definition scan_line :: "scan_state \<Rightarrow> string \<Rightarrow> py_error + scan_state" where
  "scan_line st0 line =
     (let stripped = strip line;
          st = st0\<lparr>st_lengths := st_lengths st0 @ [int (length line)]\<rparr>
      in if stripped = [] then Inr (st\<lparr>st_blank := st_blank st + 1\<rparr>)
         else if st_in_docstring st then
           (case st_delimiter st of
              None \<Rightarrow> Inl TypeError
            | Some delim \<Rightarrow>
                Inr (st\<lparr>st_docstring := st_docstring st + 1,
                        st_in_docstring := \<not> endswith stripped delim\<rparr>))
         else if startswith stripped [CHR 0x22, CHR 0x22, CHR 0x22]
                 \<or> startswith stripped [CHR 0x27, CHR 0x27, CHR 0x27] then
           (let delim = take 3 stripped
            in Inr (st\<lparr>st_docstring := st_docstring st + 1,
                       st_delimiter := Some delim,
                       st_in_docstring := \<not> (3 < length stripped \<and> endswith stripped delim)\<rparr>))
         else if startswith stripped ''#'' then
           Inr (st\<lparr>st_comment := st_comment st + 1,
                   st_todo := (if contains (upper stripped) ''TODO'' then st_todo st + 1
                               else st_todo st)\<rparr>)
         else if match_def line \<noteq> None then Inr (st\<lparr>st_function := st_function st + 1\<rparr>)
         else if match_class line \<noteq> None then Inr (st\<lparr>st_class := st_class st + 1\<rparr>)
         else if match_import line then Inr (st\<lparr>st_import := st_import st + 1\<rparr>)
         else Inr st)"

fun scan_lines :: "scan_state \<Rightarrow> string list \<Rightarrow> py_error + scan_state" where
  "scan_lines st [] = Inr st"
| "scan_lines st (line # rest) =
     (case scan_line st line of Inl e \<Rightarrow> Inl e | Inr st' \<Rightarrow> scan_lines st' rest)"

text \<open>\<open>max(xs)\<close> of a list that is not empty.\<close>

definition py_max :: "int list \<Rightarrow> int" where
  "py_max xs = fold max (tl xs) (hd xs)"

definition zero_metrics :: code_metrics where
  "zero_metrics =
     \<lparr>total_lines = 0, code_lines = 0, comment_lines = 0, blank_lines = 0,
      docstring_lines = 0, function_count = 0, class_count = 0, import_count = 0,
      todo_count = 0, max_line_length = 0, avg_line_length = 0, comment_ratio = 0\<rparr>"

definition count_code_metrics :: "string \<Rightarrow> py_error + code_metrics" where
  "count_code_metrics content =
     (if content = [] then Inr zero_metrics
      else
        let lines = splitlines content;
            total = int (length lines)
        in case scan_lines scan_init lines of
             Inl e \<Rightarrow> Inl e
           | Inr st \<Rightarrow>
               let lens = st_lengths st
               in Inr \<lparr>total_lines = total,
                       code_lines = total - st_blank st - st_comment st - st_docstring st,
                       comment_lines = st_comment st,
                       blank_lines = st_blank st,
                       docstring_lines = st_docstring st,
                       function_count = st_function st,
                       class_count = st_class st,
                       import_count = st_import st,
                       todo_count = st_todo st,
                       max_line_length = (if lens = [] then 0 else py_max lens),
                       avg_line_length =
                         (if lens = [] then 0
                          else round2 (of_int (sum_list lens) / of_int (int (length lens)))),
                       comment_ratio =
                         (if 0 < total
                          then round2 (of_int (st_comment st + st_docstring st) / of_int total * 100)
                          else 0)\<rparr>)"

section \<open>The smell detector: \<open>detect_code_smells\<close>\<close>

datatype smell_type =
  long_line | global_variable | long_function | deep_nesting | magic_number | short_name

datatype severity = low | medium | high

text \<open>
  The message of a record is a formatted Vietnamese sentence; it is kept as the template
  it comes from together with the values formatted into it: the length of the line, the
  name and the length of the function, the nesting level, the short name.
\<close>

datatype smell_message =
  LongLineMsg int
| GlobalVariableMsg
| LongFunctionMsg "string option" int
| DeepNestingMsg int
| MagicNumberMsg
| ShortFunctionNameMsg string
| ShortClassNameMsg string

record smell =
  smell_type :: smell_type
  smell_line :: int
  smell_message :: smell_message
  smell_severity :: severity

text \<open>
  \<open>re.search(r'\bglobal\b', line)\<close>: the word occurs with no word character right before
  or right after it. The flag says whether the character before the text is a word
  character.
\<close>

fun search_word :: "string \<Rightarrow> bool \<Rightarrow> string \<Rightarrow> bool" where
  "search_word w prev_word [] = False"
| "search_word w prev_word (c # cs) =
     ((\<not> prev_word \<and> startswith (c # cs) w
        \<and> (case drop (length w) (c # cs) of [] \<Rightarrow> True | d # ds \<Rightarrow> \<not> is_word d))
      \<or> search_word w (is_word c) cs)"

text \<open>
  \<open>re.search(r'[^\w]\d{3,}[^\w]', line)\<close>: a character that is not a word character, a
  run of digits of length three or more, and again a character that is not a word
  character.
\<close>

fun search_magic :: "string \<Rightarrow> bool" where
  "search_magic [] = False"
| "search_magic (c # cs) =
     ((\<not> is_word c \<and> 3 \<le> length (takeWhile is_digit cs)
        \<and> (case dropWhile is_digit cs of [] \<Rightarrow> False | d # ds \<Rightarrow> \<not> is_word d))
      \<or> search_magic cs)"

text \<open>The bounded run \<open>\w{1,2}\<close> before a piece that accepts no word character.\<close>

definition short_word :: "string \<Rightarrow> (string \<times> string) option" where
  "short_word s =
     (let name = takeWhile is_word s
      in if 1 \<le> length name \<and> length name \<le> 2 then Some (name, dropWhile is_word s)
         else None)"

text \<open>\<open>^\s*def\s+(\w{1,2})\s*\(\<close>.\<close>

definition match_short_def :: "string \<Rightarrow> string option" where
  "match_short_def line =
     do {
       r \<leftarrow> many0 is_space line;
       r \<leftarrow> lit ''def'' r;
       (ws, r) \<leftarrow> many1 is_space r;
       (name, r) \<leftarrow> short_word r;
       r \<leftarrow> many0 is_space r;
       r \<leftarrow> lit ''('' r;
       Some name
     }"

text \<open>\<open>^\s*class\s+(\w{1,2})\s*[:\(]\<close>.\<close>

definition match_short_class :: "string \<Rightarrow> string option" where
  "match_short_class line =
     do {
       r \<leftarrow> many0 is_space line;
       r \<leftarrow> lit ''class'' r;
       (ws, r) \<leftarrow> many1 is_space r;
       (name, r) \<leftarrow> short_word r;
       r \<leftarrow> many0 is_space r;
       (case r of [] \<Rightarrow> None | c # cs \<Rightarrow> if c = CHR '':'' \<or> c = CHR ''('' then Some name else None)
     }"

text \<open>The local variables of the first loop.\<close>

record smell_state =
  smells :: "smell list"
  current_function :: "string option"
  function_start_line :: int
  function_lines :: int
  in_function :: bool

definition smell_init :: smell_state where
  "smell_init =
     \<lparr>smells = [], current_function = None, function_start_line = 0, function_lines = 0,
      in_function = False\<rparr>"

definition add_smell :: "smell \<Rightarrow> smell_state \<Rightarrow> smell_state" where
  "add_smell s st = st\<lparr>smells := smells st @ [s]\<rparr>"

definition long_function_smell :: "smell_state \<Rightarrow> smell" where
  "long_function_smell st =
     \<lparr>smell_type = long_function, smell_line = function_start_line st + 1,
      smell_message = LongFunctionMsg (current_function st) (function_lines st),
      smell_severity = medium\<rparr>"

text \<open>The five checks of the first loop, in the order of the source.\<close>

definition check_long_line :: "int \<Rightarrow> string \<Rightarrow> smell_state \<Rightarrow> smell_state" where
  "check_long_line i line st =
     (if 100 < length line
      then add_smell \<lparr>smell_type = long_line, smell_line = i + 1,
                      smell_message = LongLineMsg (int (length line)),
                      smell_severity = low\<rparr> st
      else st)"

definition check_global :: "int \<Rightarrow> string \<Rightarrow> smell_state \<Rightarrow> smell_state" where
  "check_global i line st =
     (if search_word ''global'' False line
      then add_smell \<lparr>smell_type = global_variable, smell_line = i + 1,
                      smell_message = GlobalVariableMsg, smell_severity = medium\<rparr> st
      else st)"

definition check_function :: "int \<Rightarrow> string \<Rightarrow> smell_state \<Rightarrow> smell_state" where
  "check_function i line st =
     (case match_def line of
        Some name \<Rightarrow>
          (let st1 = (if in_function st \<and> 50 < function_lines st
                      then add_smell (long_function_smell st) st else st)
           in st1\<lparr>current_function := Some name, function_start_line := i,
                  function_lines := 0, in_function := True\<rparr>)
      | None \<Rightarrow>
          if in_function st then st\<lparr>function_lines := function_lines st + 1\<rparr> else st)"

definition check_nesting :: "int \<Rightarrow> string \<Rightarrow> smell_state \<Rightarrow> smell_state" where
  "check_nesting i line st =
     (let indent = int (length line) - int (length (lstrip line))
      in if 16 \<le> indent
         then add_smell \<lparr>smell_type = deep_nesting, smell_line = i + 1,
                         smell_message = DeepNestingMsg (indent div 4),
                         smell_severity = medium\<rparr> st
         else st)"

definition check_magic :: "int \<Rightarrow> string \<Rightarrow> smell_state \<Rightarrow> smell_state" where
  "check_magic i line st =
     (if search_magic line \<and> \<not> startswith (strip line) ''#''
      then add_smell \<lparr>smell_type = magic_number, smell_line = i + 1,
                      smell_message = MagicNumberMsg, smell_severity = low\<rparr> st
      else st)"

text \<open>A blank line and a comment line are skipped before any check.\<close>

definition skipped :: "string \<Rightarrow> bool" where
  "skipped line = (strip line = [] \<or> startswith (strip line) ''#'')"

definition smell_step :: "int \<Rightarrow> string \<Rightarrow> smell_state \<Rightarrow> smell_state" where
  "smell_step i line st =
     (if skipped line then st
      else check_magic i line (check_nesting i line (check_function i line
             (check_global i line (check_long_line i line st)))))"

fun first_pass :: "int \<Rightarrow> string list \<Rightarrow> smell_state \<Rightarrow> smell_state" where
  "first_pass i [] st = st"
| "first_pass i (line # rest) st = first_pass (i + 1) rest (smell_step i line st)"

text \<open>The check of the last function, after the loop.\<close>

definition finish_function :: "smell_state \<Rightarrow> smell list" where
  "finish_function st =
     (if in_function st \<and> 50 < function_lines st
      then smells st @ [long_function_smell st] else smells st)"

text \<open>The second loop: the short names, over all lines.\<close>

definition short_name_smells :: "int \<Rightarrow> string \<Rightarrow> smell list" where
  "short_name_smells i line =
     (case match_short_def line of
        Some name \<Rightarrow> [\<lparr>smell_type = short_name, smell_line = i + 1,
                        smell_message = ShortFunctionNameMsg name, smell_severity = low\<rparr>]
      | None \<Rightarrow> [])
     @ (case match_short_class line of
          Some name \<Rightarrow> [\<lparr>smell_type = short_name, smell_line = i + 1,
                          smell_message = ShortClassNameMsg name, smell_severity = low\<rparr>]
        | None \<Rightarrow> [])"

fun second_pass :: "int \<Rightarrow> string list \<Rightarrow> smell list" where
  "second_pass i [] = []"
| "second_pass i (line # rest) = short_name_smells i line @ second_pass (i + 1) rest"

definition detect_code_smells :: "string \<Rightarrow> smell list" where
  "detect_code_smells content =
     (if content = [] then []
      else let lines = splitlines content
           in finish_function (first_pass 0 lines smell_init) @ second_pass 0 lines)"

text \<open>
  For the proofs: the records that the four per-line checks add for one scanned line, and
  for a list of lines, without the state of the loop.
\<close>

definition per_line :: "int \<Rightarrow> string \<Rightarrow> smell list" where
  "per_line i line =
     (if skipped line then []
      else (if 100 < length line
            then [\<lparr>smell_type = long_line, smell_line = i + 1,
                   smell_message = LongLineMsg (int (length line)), smell_severity = low\<rparr>]
            else [])
         @ (if search_word ''global'' False line
            then [\<lparr>smell_type = global_variable, smell_line = i + 1,
                   smell_message = GlobalVariableMsg, smell_severity = medium\<rparr>]
            else [])
         @ (if 16 \<le> int (length line) - int (length (lstrip line))
            then [\<lparr>smell_type = deep_nesting, smell_line = i + 1,
                   smell_message = DeepNestingMsg ((int (length line) - int (length (lstrip line))) div 4),
                   smell_severity = medium\<rparr>]
            else [])
         @ (if search_magic line
            then [\<lparr>smell_type = magic_number, smell_line = i + 1,
                   smell_message = MagicNumberMsg, smell_severity = low\<rparr>]
            else []))"

fun per_lines :: "int \<Rightarrow> string list \<Rightarrow> smell list" where
  "per_lines i [] = []"
| "per_lines i (line # rest) = per_line i line @ per_lines (i + 1) rest"

abbreviation not_lf :: "smell \<Rightarrow> bool" where
  "not_lf \<equiv> (\<lambda>s. smell_type s \<noteq> long_function)"

abbreviation is_lf :: "smell \<Rightarrow> bool" where
  "is_lf \<equiv> (\<lambda>s. smell_type s = long_function)"

text \<open>
  The long functions as the specification words them: a function starts at a line that
  is scanned (neither blank nor a comment) and matches the \<open>def\<close> pattern; its length is
  the number of scanned lines after it, up to the next such line or the end of the text; a
  function of more than 50 lines has a record at the line where it starts.
\<close>

fun count_body :: "string list \<Rightarrow> int" where
  "count_body [] = 0"
| "count_body (line # rest) =
     (if skipped line then count_body rest
      else if match_def line \<noteq> None then 0
      else 1 + count_body rest)"

fun long_functions :: "int \<Rightarrow> string list \<Rightarrow> smell list" where
  "long_functions i [] = []"
| "long_functions i (line # rest) =
     (case (if skipped line then None else match_def line) of
        Some name \<Rightarrow>
          if 50 < count_body rest
          then [\<lparr>smell_type = long_function, smell_line = i + 1,
                 smell_message = LongFunctionMsg (Some name) (count_body rest),
                 smell_severity = medium\<rparr>]
          else []
      | None \<Rightarrow> [])
     @ long_functions (i + 1) rest"

text \<open>
  For the proofs: the record that the function open in the state \<open>st\<close> gets once the
  lines still to come are counted.
\<close>

definition pending_function :: "smell_state \<Rightarrow> string list \<Rightarrow> smell list" where
  "pending_function st lines =
     (if in_function st \<and> 50 < function_lines st + count_body lines
      then [\<lparr>smell_type = long_function, smell_line = function_start_line st + 1,
             smell_message = LongFunctionMsg (current_function st)
               (function_lines st + count_body lines),
             smell_severity = medium\<rparr>]
      else [])"

section \<open>The standard library's \<open>difflib\<close>\<close>

text \<open>
  \<open>generate_diff\<close> and \<open>is_significant_change\<close> call Python's \<open>difflib\<close>. The functions of
  this section follow \<open>difflib.py\<close> of CPython 3.11 for the one way the source uses it:
  \<open>SequenceMatcher(None, a, b)\<close>, that is no junk predicate and \<open>autojunk\<close> left on.
\<close>

text \<open>
  \<open>__chain_b\<close>: \<open>b2j\<close> maps an element to the indices where it occurs in \<open>b\<close>, in
  increasing order. When \<open>b\<close> has 200 elements or more, an element that occurs more than
  \<open>len(b) // 100 + 1\<close> times is popular and is removed from \<open>b2j\<close>.
\<close>

definition indices_of :: "'a list \<Rightarrow> 'a \<Rightarrow> nat list" where
  "indices_of b x = filter (\<lambda>j. b ! j = x) [0..<length b]"

definition popular :: "'a list \<Rightarrow> 'a \<Rightarrow> bool" where
  "popular b x = (200 \<le> length b \<and> length b div 100 + 1 < length (indices_of b x))"

definition b2j :: "'a list \<Rightarrow> 'a \<Rightarrow> nat list" where
  "b2j b x = (if popular b x then [] else indices_of b x)"

text \<open>\<open>j2len.get(j - 1, 0)\<close>; no key is negative.\<close>

definition prev_len :: "(nat \<rightharpoonup> nat) \<Rightarrow> nat \<Rightarrow> nat" where
  "prev_len j2len j = (if j = 0 then 0 else case j2len (j - 1) of None \<Rightarrow> 0 | Some v \<Rightarrow> v)"

text \<open>
  \<open>find_longest_match\<close>, the loop over \<open>j\<close> for one \<open>i\<close>: \<open>j2len\<close> holds for the previous
  row the length of the longest match ending there, \<open>newj2len\<close> is filled for this row, and
  the best match so far is replaced only by a strictly longer one.
\<close>

fun match_row ::
  "(nat \<rightharpoonup> nat) \<Rightarrow> nat \<Rightarrow> nat \<Rightarrow> nat \<Rightarrow> nat list \<Rightarrow> (nat \<rightharpoonup> nat) \<Rightarrow> nat \<times> nat \<times> nat
     \<Rightarrow> (nat \<rightharpoonup> nat) \<times> nat \<times> nat \<times> nat" where
  "match_row j2len i blo bhi [] newj2len best = (newj2len, best)"
| "match_row j2len i blo bhi (j # js) newj2len (besti, bestj, bestsize) =
     (if j < blo then match_row j2len i blo bhi js newj2len (besti, bestj, bestsize)
      else if bhi \<le> j then (newj2len, (besti, bestj, bestsize))
      else
        let k = prev_len j2len j + 1
        in match_row j2len i blo bhi js (newj2len(j \<mapsto> k))
             (if bestsize < k then (i + 1 - k, j + 1 - k, k) else (besti, bestj, bestsize)))"

text \<open>The loop over \<open>i\<close>.\<close>

fun match_rows ::
  "'a list \<Rightarrow> 'a list \<Rightarrow> nat \<Rightarrow> nat \<Rightarrow> nat list \<Rightarrow> (nat \<rightharpoonup> nat) \<Rightarrow> nat \<times> nat \<times> nat
     \<Rightarrow> nat \<times> nat \<times> nat" where
  "match_rows a b blo bhi [] j2len best = best"
| "match_rows a b blo bhi (i # rest) j2len best =
     (case match_row j2len i blo bhi (b2j b (a ! i)) Map.empty best of
        (newj2len, best') \<Rightarrow> match_rows a b blo bhi rest newj2len best')"

text \<open>
  The two loops that extend the best match by equal elements on each end. With no junk
  predicate the set of junk elements is empty, so that the two further loops of the
  library, which extend by junk elements, do nothing.
\<close>

function extend_left :: "'a list \<Rightarrow> 'a list \<Rightarrow> nat \<Rightarrow> nat \<Rightarrow> nat \<times> nat \<times> nat \<Rightarrow> nat \<times> nat \<times> nat" where
  "extend_left a b alo blo (besti, bestj, bestsize) =
     (if alo < besti \<and> blo < bestj \<and> a ! (besti - 1) = b ! (bestj - 1)
      then extend_left a b alo blo (besti - 1, bestj - 1, bestsize + 1)
      else (besti, bestj, bestsize))"
  by pat_completeness auto
termination
  by (relation "measure (\<lambda>(a, b, alo, blo, besti, bestj, bestsize). besti)") auto

function extend_right :: "'a list \<Rightarrow> 'a list \<Rightarrow> nat \<Rightarrow> nat \<Rightarrow> nat \<times> nat \<times> nat \<Rightarrow> nat \<times> nat \<times> nat" where
  "extend_right a b ahi bhi (besti, bestj, bestsize) =
     (if besti + bestsize < ahi \<and> bestj + bestsize < bhi
         \<and> a ! (besti + bestsize) = b ! (bestj + bestsize)
      then extend_right a b ahi bhi (besti, bestj, bestsize + 1)
      else (besti, bestj, bestsize))"
  by pat_completeness auto
termination
  by (relation "measure (\<lambda>(a, b, ahi, bhi, besti, bestj, bestsize). ahi - (besti + bestsize))") auto

declare extend_left.simps [simp del] extend_right.simps [simp del]

definition find_longest_match ::
  "'a list \<Rightarrow> 'a list \<Rightarrow> nat \<Rightarrow> nat \<Rightarrow> nat \<Rightarrow> nat \<Rightarrow> nat \<times> nat \<times> nat" where
  "find_longest_match a b alo ahi blo bhi =
     extend_right a b ahi bhi
       (extend_left a b alo blo
          (match_rows a b blo bhi [alo..<ahi] Map.empty (alo, blo, 0)))"

text \<open>
  The match that \<open>find_longest_match\<close> returns lies inside the range of \<open>a\<close> it was asked
  for. This is what makes the loop of \<open>get_matching_blocks\<close> terminate.
\<close>

lemma match_row_bounds:
  assumes "\<forall>j v. j2len j = Some v \<longrightarrow> v \<le> i - alo"
    and "alo \<le> i" "i < ahi"
  shows "(\<forall>j v. newj2len j = Some v \<longrightarrow> v \<le> i + 1 - alo) \<Longrightarrow>
         alo \<le> fst best \<Longrightarrow> fst best + snd (snd best) \<le> ahi \<Longrightarrow>
         match_row j2len i blo bhi js newj2len best = (new', best') \<Longrightarrow>
         (\<forall>j v. new' j = Some v \<longrightarrow> v \<le> i + 1 - alo)
           \<and> alo \<le> fst best' \<and> fst best' + snd (snd best') \<le> ahi"
proof (induction js arbitrary: newj2len best)
  case Nil
  then show ?case by auto
next
  case (Cons j js)
  obtain bi bj bs where best: "best = (bi, bj, bs)" by (cases best)
  show ?case
  proof (cases "j < blo")
    case True
    with Cons.prems(4) best have "match_row j2len i blo bhi js newj2len best = (new', best')"
      by simp
    with Cons.IH[of newj2len best] Cons.prems(1-3) show ?thesis by blast
  next
    case False
    show ?thesis
    proof (cases "bhi \<le> j")
      case True
      with False Cons.prems(4) best have "new' = newj2len" "best' = best" by simp_all
      with Cons.prems show ?thesis by auto
    next
      case hi: False
      define k where "k = prev_len j2len j + 1"
      have "prev_len j2len j \<le> i - alo"
        using assms(1) by (auto simp: prev_len_def split: option.splits)
      then have kb: "k \<le> i + 1 - alo" "1 \<le> k"
        using assms(2) unfolding k_def by arith+
      let ?best = "if bs < k then (i + 1 - k, j + 1 - k, k) else (bi, bj, bs)"
      from Cons.prems(4)
      have "match_row j2len i blo bhi (j # js) newj2len (bi, bj, bs) = (new', best')"
        by (simp only: best)
      with False hi
      have run: "match_row j2len i blo bhi js (newj2len(j \<mapsto> k)) ?best = (new', best')"
        by (simp only: match_row.simps if_False Let_def k_def [symmetric])
      have n: "\<forall>j' v. (newj2len(j \<mapsto> k)) j' = Some v \<longrightarrow> v \<le> i + 1 - alo"
        using Cons.prems(1) kb by (auto split: if_splits)
      have b1: "alo \<le> fst ?best" using Cons.prems(2) best kb assms(2) by auto
      have b2: "fst ?best + snd (snd ?best) \<le> ahi"
        using Cons.prems(3) best kb assms(2,3) by auto
      from Cons.IH[of "newj2len(j \<mapsto> k)" ?best, OF n b1 b2 run] show ?thesis .
    qed
  qed
qed

lemma match_rows_bounds:
  "(\<forall>j v. j2len j = Some v \<longrightarrow> v \<le> i - alo) \<Longrightarrow> alo \<le> i \<Longrightarrow>
   alo \<le> fst best \<Longrightarrow> fst best + snd (snd best) \<le> ahi \<Longrightarrow>
   alo \<le> fst (match_rows a b blo bhi [i..<ahi] j2len best)
       \<and> fst (match_rows a b blo bhi [i..<ahi] j2len best)
           + snd (snd (match_rows a b blo bhi [i..<ahi] j2len best)) \<le> ahi"
proof (induction "ahi - i" arbitrary: i j2len best)
  case 0
  then show ?case by simp
next
  case (Suc n)
  then have lt: "i < ahi" by simp
  then have upt: "[i..<ahi] = i # [Suc i..<ahi]" by (simp add: upt_conv_Cons)
  obtain new' best' where r: "match_row j2len i blo bhi (b2j b (a ! i)) Map.empty best = (new', best')"
    by (cases "match_row j2len i blo bhi (b2j b (a ! i)) Map.empty best") auto
  have e: "\<forall>j v. Map.empty j = Some v \<longrightarrow> v \<le> i + 1 - alo" by simp
  from match_row_bounds[OF Suc.prems(1) Suc.prems(2) lt e Suc.prems(3,4) r]
  have h: "\<forall>j v. new' j = Some v \<longrightarrow> v \<le> Suc i - alo" "alo \<le> fst best'"
    "fst best' + snd (snd best') \<le> ahi" by simp_all
  have n: "n = ahi - Suc i" using Suc.hyps(2) by simp
  have le: "alo \<le> Suc i" using Suc.prems(2) by simp
  from Suc.hyps(1)[OF n h(1) le h(2,3)]
  show ?case by (simp add: upt r)
qed

lemma extend_left_bounds:
  "alo \<le> fst best \<Longrightarrow> fst best + snd (snd best) \<le> ahi \<Longrightarrow>
   alo \<le> fst (extend_left a b alo blo best)
   \<and> fst (extend_left a b alo blo best) + snd (snd (extend_left a b alo blo best)) \<le> ahi"
proof (induction a b alo blo best rule: extend_left.induct)
  case (1 a b alo blo besti bestj bestsize)
  show ?case
  proof (cases "alo < besti \<and> blo < bestj \<and> a ! (besti - 1) = b ! (bestj - 1)")
    case True
    then have eq: "extend_left a b alo blo (besti, bestj, bestsize)
        = extend_left a b alo blo (besti - 1, bestj - 1, bestsize + 1)"
      by (subst extend_left.simps) simp
    have "alo \<le> fst (besti - 1, bestj - 1, bestsize + 1)"
      "fst (besti - 1, bestj - 1, bestsize + 1) + snd (snd (besti - 1, bestj - 1, bestsize + 1)) \<le> ahi"
      using True "1.prems" by auto
    from "1.IH"[OF True this] show ?thesis unfolding eq .
  next
    case False
    then have "extend_left a b alo blo (besti, bestj, bestsize) = (besti, bestj, bestsize)"
      by (subst extend_left.simps) auto
    with "1.prems" show ?thesis by simp
  qed
qed

lemma extend_right_bounds:
  "alo \<le> fst best \<Longrightarrow> fst best + snd (snd best) \<le> ahi \<Longrightarrow>
   alo \<le> fst (extend_right a b ahi bhi best)
   \<and> fst (extend_right a b ahi bhi best) + snd (snd (extend_right a b ahi bhi best)) \<le> ahi"
proof (induction a b ahi bhi best rule: extend_right.induct)
  case (1 a b ahi bhi besti bestj bestsize)
  show ?case
  proof (cases "besti + bestsize < ahi \<and> bestj + bestsize < bhi
         \<and> a ! (besti + bestsize) = b ! (bestj + bestsize)")
    case True
    then have eq: "extend_right a b ahi bhi (besti, bestj, bestsize)
        = extend_right a b ahi bhi (besti, bestj, bestsize + 1)"
      by (subst extend_right.simps) simp
    have "alo \<le> fst (besti, bestj, bestsize + 1)"
      "fst (besti, bestj, bestsize + 1) + snd (snd (besti, bestj, bestsize + 1)) \<le> ahi"
      using True "1.prems" by auto
    from "1.IH"[OF True this] show ?thesis unfolding eq .
  next
    case False
    then have "extend_right a b ahi bhi (besti, bestj, bestsize) = (besti, bestj, bestsize)"
      by (subst extend_right.simps) auto
    with "1.prems" show ?thesis by simp
  qed
qed

lemma find_longest_match_bounds:
  assumes "find_longest_match a b alo ahi blo bhi = (i, j, k)" and "k \<noteq> 0"
  shows "alo \<le> i \<and> i + k \<le> ahi"
proof (cases "alo \<le> ahi")
  case True
  let ?m = "match_rows a b blo bhi [alo..<ahi] Map.empty (alo, blo, 0)"
  have "alo \<le> fst ?m \<and> fst ?m + snd (snd ?m) \<le> ahi"
    by (rule match_rows_bounds) (simp_all add: True)
  then have "alo \<le> fst (extend_left a b alo blo ?m)
     \<and> fst (extend_left a b alo blo ?m) + snd (snd (extend_left a b alo blo ?m)) \<le> ahi"
    using extend_left_bounds by blast
  then have "alo \<le> fst (extend_right a b ahi bhi (extend_left a b alo blo ?m))
     \<and> fst (extend_right a b ahi bhi (extend_left a b alo blo ?m))
        + snd (snd (extend_right a b ahi bhi (extend_left a b alo blo ?m))) \<le> ahi"
    using extend_right_bounds by blast
  with assms(1) show ?thesis by (simp add: find_longest_match_def)
next
  case False
  have l: "extend_left a b alo blo (alo, blo, 0) = (alo, blo, 0)"
    by (subst extend_left.simps) simp
  have r: "extend_right a b ahi bhi (alo, blo, 0) = (alo, blo, 0)"
    using False by (subst extend_right.simps) simp
  from False have "find_longest_match a b alo ahi blo bhi = (alo, blo, 0)"
    by (simp add: find_longest_match_def l r)
  with assms show ?thesis by simp
qed

text \<open>
  \<open>get_matching_blocks\<close>: the queue is a stack, here with its top as the head of the
  list; the library appends the left range and then the right one, and pops the last.
\<close>

function mb_loop ::
  "'a list \<Rightarrow> 'a list \<Rightarrow> (nat \<times> nat \<times> nat \<times> nat) list \<Rightarrow> (nat \<times> nat \<times> nat) list
     \<Rightarrow> (nat \<times> nat \<times> nat) list" where
  "mb_loop a b [] matching_blocks = matching_blocks"
| "mb_loop a b ((alo, ahi, blo, bhi) # queue) matching_blocks =
     (case find_longest_match a b alo ahi blo bhi of
        (i, j, k) \<Rightarrow>
          if k \<noteq> 0 then
            mb_loop a b
              ((if i + k < ahi \<and> j + k < bhi then [(i + k, ahi, j + k, bhi)] else [])
               @ (if alo < i \<and> blo < j then [(alo, i, blo, j)] else [])
               @ queue)
              (matching_blocks @ [(i, j, k)])
          else mb_loop a b queue matching_blocks)"
  by pat_completeness auto
termination
  apply (relation "measure (\<lambda>(a, b, queue, blocks).
         sum_list (map (\<lambda>(alo, ahi, blo, bhi). 2 * (ahi - alo) + 1) queue))")
    apply simp
   defer
   apply simp
  apply (auto dest: find_longest_match_bounds [OF sym])
  done

declare mb_loop.simps [simp del]

text \<open>The second loop of \<open>get_matching_blocks\<close> joins blocks that touch.\<close>

fun join_adjacent ::
  "nat \<times> nat \<times> nat \<Rightarrow> (nat \<times> nat \<times> nat) list \<Rightarrow> (nat \<times> nat \<times> nat) list
     \<Rightarrow> (nat \<times> nat \<times> nat) list" where
  "join_adjacent (i1, j1, k1) [] non_adjacent =
     (if k1 \<noteq> 0 then non_adjacent @ [(i1, j1, k1)] else non_adjacent)"
| "join_adjacent (i1, j1, k1) ((i2, j2, k2) # rest) non_adjacent =
     (if i1 + k1 = i2 \<and> j1 + k1 = j2 then join_adjacent (i1, j1, k1 + k2) rest non_adjacent
      else join_adjacent (i2, j2, k2) rest
             (if k1 \<noteq> 0 then non_adjacent @ [(i1, j1, k1)] else non_adjacent))"

definition get_matching_blocks :: "'a list \<Rightarrow> 'a list \<Rightarrow> (nat \<times> nat \<times> nat) list" where
  "get_matching_blocks a b =
     join_adjacent (0, 0, 0) (sort (mb_loop a b [(0, length a, 0, length b)] [])) []
       @ [(length a, length b, 0)]"

datatype tag = Replace | Delete | Insert | Equal

type_synonym opcode = "tag \<times> nat \<times> nat \<times> nat \<times> nat"

text \<open>\<open>get_opcodes\<close>.\<close>

fun opcodes_from :: "nat \<Rightarrow> nat \<Rightarrow> (nat \<times> nat \<times> nat) list \<Rightarrow> opcode list" where
  "opcodes_from i j [] = []"
| "opcodes_from i j ((ai, bj, sz) # rest) =
     (if i < ai \<and> j < bj then [(Replace, i, ai, j, bj)]
      else if i < ai then [(Delete, i, ai, j, bj)]
      else if j < bj then [(Insert, i, ai, j, bj)]
      else [])
     @ (if sz \<noteq> 0 then [(Equal, ai, ai + sz, bj, bj + sz)] else [])
     @ opcodes_from (ai + sz) (bj + sz) rest"

definition get_opcodes :: "'a list \<Rightarrow> 'a list \<Rightarrow> opcode list" where
  "get_opcodes a b = opcodes_from 0 0 (get_matching_blocks a b)"

text \<open>
  \<open>get_grouped_opcodes(n)\<close>: the first and the last opcode are trimmed to \<open>n\<close> lines of
  context, and a run of more than \<open>2 * n\<close> equal lines ends a group.
\<close>

definition trim_first :: "nat \<Rightarrow> opcode list \<Rightarrow> opcode list" where
  "trim_first n codes =
     (case codes of
        (Equal, i1, i2, j1, j2) # rest \<Rightarrow> (Equal, max i1 (i2 - n), i2, max j1 (j2 - n), j2) # rest
      | _ \<Rightarrow> codes)"

definition trim_last :: "nat \<Rightarrow> opcode list \<Rightarrow> opcode list" where
  "trim_last n codes =
     (case rev codes of
        (Equal, i1, i2, j1, j2) # rest \<Rightarrow>
          rev rest @ [(Equal, i1, min i2 (i1 + n), j1, min j2 (j1 + n))]
      | _ \<Rightarrow> codes)"

fun group_loop :: "nat \<Rightarrow> opcode list \<Rightarrow> opcode list \<Rightarrow> opcode list list" where
  "group_loop n grp [] =
     (case grp of
        [] \<Rightarrow> []
      | [(Equal, i1, i2, j1, j2)] \<Rightarrow> []
      | _ \<Rightarrow> [grp])"
| "group_loop n grp ((tg, i1, i2, j1, j2) # rest) =
     (if tg = Equal \<and> n + n < i2 - i1 then
        (grp @ [(tg, i1, min i2 (i1 + n), j1, min j2 (j1 + n))])
          # group_loop n [(tg, max i1 (i2 - n), i2, max j1 (j2 - n), j2)] rest
      else group_loop n (grp @ [(tg, i1, i2, j1, j2)]) rest)"

definition get_grouped_opcodes :: "nat \<Rightarrow> 'a list \<Rightarrow> 'a list \<Rightarrow> opcode list list" where
  "get_grouped_opcodes n a b =
     (let codes = get_opcodes a b;
          codes = (if codes = [] then [(Equal, 0, 1, 0, 1)] else codes)
      in group_loop n [] (trim_last n (trim_first n codes)))"

text \<open>\<open>str(n)\<close> for a number that is not negative.\<close>

fun str_nat :: "nat \<Rightarrow> string" where
  "str_nat n =
     (if n < 10 then [char_of (48 + n)] else str_nat (n div 10) @ [char_of (48 + n mod 10)])"

declare str_nat.simps [simp del]

text \<open>\<open>_format_range_unified\<close>.\<close>

definition format_range_unified :: "nat \<Rightarrow> nat \<Rightarrow> string" where
  "format_range_unified start stop =
     (let beginning = int start + 1; len = int stop - int start
      in if len = 1 then str_nat (nat beginning)
         else str_nat (nat (if len = 0 then beginning - 1 else beginning)) @ '','' @ str_nat (nat len))"

text \<open>The slice \<open>xs[i:j]\<close>.\<close>

definition slice :: "'a list \<Rightarrow> nat \<Rightarrow> nat \<Rightarrow> 'a list" where
  "slice xs i j = take (j - i) (drop i xs)"

definition opcode_lines :: "string list \<Rightarrow> string list \<Rightarrow> opcode \<Rightarrow> string list" where
  "opcode_lines a b opc =
     (case opc of
        (tg, i1, i2, j1, j2) \<Rightarrow>
          if tg = Equal then map (\<lambda>l. '' '' @ l) (slice a i1 i2)
          else (if tg = Replace \<or> tg = Delete then map (\<lambda>l. ''-'' @ l) (slice a i1 i2) else [])
             @ (if tg = Replace \<or> tg = Insert then map (\<lambda>l. ''+'' @ l) (slice b j1 j2) else []))"

definition hunk_lines :: "string list \<Rightarrow> string list \<Rightarrow> opcode list \<Rightarrow> string list" where
  "hunk_lines a b grp =
     (case (grp, rev grp) of
        ((t1, f1, f2, f3, f4) # _, (t2, l1, l2, l3, l4) # _) \<Rightarrow>
          (''@@ -'' @ format_range_unified f1 l2 @ '' +'' @ format_range_unified f3 l4 @ '' @@'')
            # concat (map (opcode_lines a b) grp)
      | _ \<Rightarrow> [])"

text \<open>
  \<open>unified_diff(a, b, fromfile, tofile, lineterm='')\<close> with three lines of context and no
  file dates; the generator's lines as a list.
\<close>

definition unified_diff :: "string list \<Rightarrow> string list \<Rightarrow> string \<Rightarrow> string \<Rightarrow> string list" where
  "unified_diff a b fromfile tofile =
     (let groups = get_grouped_opcodes 3 a b
      in if groups = [] then []
         else [''--- '' @ fromfile, ''+++ '' @ tofile] @ concat (map (hunk_lines a b) groups))"

text \<open>\<open>SequenceMatcher.ratio\<close>; a floating point number in Python, an exact rational here.\<close>

definition ratio :: "'a list \<Rightarrow> 'a list \<Rightarrow> rat" where
  "ratio a b =
     (let matches = sum_list (map (\<lambda>(i, j, k). k) (get_matching_blocks a b));
          len = length a + length b
      in if len \<noteq> 0 then 2 * of_nat matches / of_nat len else 1)"

section \<open>The diff engine: \<open>generate_diff\<close>, and the change classifier\<close>

definition generate_diff :: "string \<Rightarrow> string \<Rightarrow> string" where
  "generate_diff old_content new_content =
     join ''\<newline>'' (unified_diff (splitlines old_content) (splitlines new_content)
                        ''previous'' ''current'')"

text \<open>
  \<open>is_significant_change\<close>. The ratio and the threshold are floating point numbers in
  Python; they are exact rationals here, and the default threshold is \<open>1 / 20\<close>.
\<close>

definition is_significant_change :: "string \<Rightarrow> string \<Rightarrow> rat \<Rightarrow> bool" where
  "is_significant_change old_content new_content threshold =
     (if old_content = [] \<or> new_content = [] then True
      else let r = ratio old_content new_content;
               change_ratio = 1 - r
           in threshold < change_ratio)"

text \<open>
  For the proofs about a sequence matched against itself: the number of consecutive
  elements that are not popular and end at index \<open>i\<close>, and the same just before \<open>i\<close>.
\<close>

fun nonpop_run :: "'a list \<Rightarrow> nat \<Rightarrow> nat" where
  "nonpop_run s 0 = (if popular s (s ! 0) then 0 else 1)"
| "nonpop_run s (Suc i) = (if popular s (s ! Suc i) then 0 else nonpop_run s i + 1)"

definition run_before :: "'a list \<Rightarrow> nat \<Rightarrow> nat" where
  "run_before s i = (if i = 0 then 0 else nonpop_run s (i - 1))"

section \<open>The content codec: hashing and compression\<close>

text \<open>
  The codec works on the bytes of a text, so here a Python \<open>str\<close> is taken in full: a list
  of code points below \<open>0x110000\<close>, surrogates included. A text of the line scanners above
  is the special case \<open>codepoints s\<close>.
\<close>

type_synonym unicode = "nat list"

type_synonym byte = "8 word"

definition codepoints :: "string \<Rightarrow> unicode" where
  "codepoints s = map of_char s"

definition is_surrogate :: "nat \<Rightarrow> bool" where
  "is_surrogate c = (0xD800 \<le> c \<and> c \<le> 0xDFFF)"

text \<open>A code point that UTF-8 can encode.\<close>

definition is_scalar :: "nat \<Rightarrow> bool" where
  "is_scalar c = (c < 0x110000 \<and> \<not> is_surrogate c)"

text \<open>
  \<open>str.encode('utf-8')\<close>: one to four bytes for a code point; a surrogate raises
  \<open>UnicodeEncodeError\<close>.
\<close>

definition utf8_char :: "nat \<Rightarrow> nat list option" where
  "utf8_char c =
     (if c < 0x80 then Some [c]
      else if c < 0x800 then Some [0xC0 + c div 64, 0x80 + c mod 64]
      else if is_surrogate c then None
      else if c < 0x10000 then
        Some [0xE0 + c div 4096, 0x80 + c div 64 mod 64, 0x80 + c mod 64]
      else if c < 0x110000 then
        Some [0xF0 + c div 262144, 0x80 + c div 4096 mod 64, 0x80 + c div 64 mod 64,
              0x80 + c mod 64]
      else None)"

fun utf8_bytes :: "unicode \<Rightarrow> nat list option" where
  "utf8_bytes [] = Some []"
| "utf8_bytes (c # cs) =
     (case utf8_char c of
        None \<Rightarrow> None
      | Some bs \<Rightarrow> (case utf8_bytes cs of None \<Rightarrow> None | Some rest \<Rightarrow> Some (bs @ rest)))"

definition utf8_encode :: "unicode \<Rightarrow> py_error + byte list" where
  "utf8_encode s =
     (case utf8_bytes s of None \<Rightarrow> Inl UnicodeEncodeError | Some bs \<Rightarrow> Inr (map of_nat bs))"

text \<open>
  \<open>bytes.decode('utf-8')\<close>, strict: a lead byte, its continuation bytes, and no overlong
  form, surrogate or value beyond \<open>0x10FFFF\<close>; anything else raises \<open>UnicodeDecodeError\<close>.
\<close>

definition is_cont :: "nat \<Rightarrow> bool" where
  "is_cont b = (0x80 \<le> b \<and> b < 0xC0)"

fun utf8_points :: "nat list \<Rightarrow> unicode option" where
  "utf8_points [] = Some []"
| "utf8_points (b0 # bs) =
     (if b0 < 0x80 then
        (case utf8_points bs of None \<Rightarrow> None | Some cs \<Rightarrow> Some (b0 # cs))
      else if 0xC0 \<le> b0 \<and> b0 < 0xE0 then
        (case bs of
           b1 # r \<Rightarrow>
             let c = (b0 - 0xC0) * 64 + (b1 - 0x80)
             in if is_cont b1 \<and> 0x80 \<le> c
                then (case utf8_points r of None \<Rightarrow> None | Some cs \<Rightarrow> Some (c # cs))
                else None
         | _ \<Rightarrow> None)
      else if 0xE0 \<le> b0 \<and> b0 < 0xF0 then
        (case bs of
           b1 # b2 # r \<Rightarrow>
             let c = (b0 - 0xE0) * 4096 + (b1 - 0x80) * 64 + (b2 - 0x80)
             in if is_cont b1 \<and> is_cont b2 \<and> 0x800 \<le> c \<and> \<not> is_surrogate c
                then (case utf8_points r of None \<Rightarrow> None | Some cs \<Rightarrow> Some (c # cs))
                else None
         | _ \<Rightarrow> None)
      else if 0xF0 \<le> b0 \<and> b0 < 0xF8 then
        (case bs of
           b1 # b2 # b3 # r \<Rightarrow>
             let c = (b0 - 0xF0) * 262144 + (b1 - 0x80) * 4096 + (b2 - 0x80) * 64 + (b3 - 0x80)
             in if is_cont b1 \<and> is_cont b2 \<and> is_cont b3 \<and> 0x10000 \<le> c \<and> c < 0x110000
                then (case utf8_points r of None \<Rightarrow> None | Some cs \<Rightarrow> Some (c # cs))
                else None
         | _ \<Rightarrow> None)
      else None)"

definition utf8_decode :: "byte list \<Rightarrow> py_error + unicode" where
  "utf8_decode bs =
     (case utf8_points (map unat bs) of None \<Rightarrow> Inl UnicodeDecodeError | Some cs \<Rightarrow> Inr cs)"

text \<open>
  \<open>zlib.compress\<close> and \<open>zlib.decompress\<close> belong to the zlib library and are parameters
  \<open>zc\<close> and \<open>zd\<close> of the two functions; \<open>zd\<close> gives \<open>None\<close> where the library raises
  \<open>zlib.error\<close>.
\<close>

definition compress_content :: "(byte list \<Rightarrow> byte list) \<Rightarrow> unicode \<Rightarrow> py_error + byte list" where
  "compress_content zc content =
     (case utf8_encode content of Inl e \<Rightarrow> Inl e | Inr bs \<Rightarrow> Inr (zc bs))"

definition decompress_content :: "(byte list \<Rightarrow> byte list option) \<Rightarrow> byte list \<Rightarrow> py_error + unicode" where
  "decompress_content zd compressed_data =
     (case zd compressed_data of None \<Rightarrow> Inl ZlibError | Some bs \<Rightarrow> utf8_decode bs)"

text \<open>
  \<open>hashlib.md5\<close> is the MD5 function of RFC 1321, on 32-bit words: the sine table, the
  shift amounts, the padding to a multiple of 64 bytes, 64 steps for each block, and the
  digest as the four state words in little-endian byte order.
\<close>

definition md5_K :: "32 word list" where
  "md5_K =
     [0xd76aa478, 0xe8c7b756, 0x242070db, 0xc1bdceee, 0xf57c0faf, 0x4787c62a, 0xa8304613,
      0xfd469501, 0x698098d8, 0x8b44f7af, 0xffff5bb1, 0x895cd7be, 0x6b901122, 0xfd987193,
      0xa679438e, 0x49b40821, 0xf61e2562, 0xc040b340, 0x265e5a51, 0xe9b6c7aa, 0xd62f105d,
      0x02441453, 0xd8a1e681, 0xe7d3fbc8, 0x21e1cde6, 0xc33707d6, 0xf4d50d87, 0x455a14ed,
      0xa9e3e905, 0xfcefa3f8, 0x676f02d9, 0x8d2a4c8a, 0xfffa3942, 0x8771f681, 0x6d9d6122,
      0xfde5380c, 0xa4beea44, 0x4bdecfa9, 0xf6bb4b60, 0xbebfbc70, 0x289b7ec6, 0xeaa127fa,
      0xd4ef3085, 0x04881d05, 0xd9d4d039, 0xe6db99e5, 0x1fa27cf8, 0xc4ac5665, 0xf4292244,
      0x432aff97, 0xab9423a7, 0xfc93a039, 0x655b59c3, 0x8f0ccc92, 0xffeff47d, 0x85845dd1,
      0x6fa87e4f, 0xfe2ce6e0, 0xa3014314, 0x4e0811a1, 0xf7537e82, 0xbd3af235, 0x2ad7d2bb,
      0xeb86d391]"

definition md5_shift :: "nat list" where
  "md5_shift =
     [7, 12, 17, 22, 7, 12, 17, 22, 7, 12, 17, 22, 7, 12, 17, 22,
      5, 9, 14, 20, 5, 9, 14, 20, 5, 9, 14, 20, 5, 9, 14, 20,
      4, 11, 16, 23, 4, 11, 16, 23, 4, 11, 16, 23, 4, 11, 16, 23,
      6, 10, 15, 21, 6, 10, 15, 21, 6, 10, 15, 21, 6, 10, 15, 21]"

text \<open>The message, the byte \<open>0x80\<close>, zeros up to 56 modulo 64, and the bit length on 8 bytes.\<close>

definition le_bytes :: "nat \<Rightarrow> nat \<Rightarrow> byte list" where
  "le_bytes n v = map (\<lambda>k. of_nat (v div 256 ^ k mod 256)) [0..<n]"

definition md5_pad :: "byte list \<Rightarrow> byte list" where
  "md5_pad msg =
     msg @ [0x80] @ replicate ((119 - length msg mod 64) mod 64) 0
       @ le_bytes 8 (8 * length msg mod 2 ^ 64)"

text \<open>Four bytes as a little-endian word, and a word as four bytes.\<close>

definition le_word :: "byte list \<Rightarrow> 32 word" where
  "le_word bs = foldr (\<lambda>b w. ucast b + push_bit 8 w) bs 0"

definition word_bytes :: "32 word \<Rightarrow> byte list" where
  "word_bytes w = [ucast w, ucast (drop_bit 8 w), ucast (drop_bit 16 w), ucast (drop_bit 24 w)]"

fun chunks :: "nat \<Rightarrow> 'a list \<Rightarrow> 'a list list" where
  "chunks n [] = []"
| "chunks n (x # xs) =
     (if n = 0 then [] else take n (x # xs) # chunks n (drop (n - 1) xs))"

text \<open>Rotation of a word to the left by \<open>n\<close> bits, \<open>0 < n < 32\<close>.\<close>

definition rotate_left :: "nat \<Rightarrow> 32 word \<Rightarrow> 32 word" where
  "rotate_left n w = push_bit n w OR drop_bit (32 - n) w"

text \<open>One of the 64 steps: the state \<open>(A, B, C, D)\<close>, the 16 words of the block, the step.\<close>

definition md5_step ::
  "32 word list \<Rightarrow> 32 word \<times> 32 word \<times> 32 word \<times> 32 word \<Rightarrow> nat
     \<Rightarrow> 32 word \<times> 32 word \<times> 32 word \<times> 32 word" where
  "md5_step M st i =
     (case st of
        (A, B, C, D) \<Rightarrow>
          let F = (if i < 16 then (B AND C) OR (NOT B AND D)
                   else if i < 32 then (D AND B) OR (NOT D AND C)
                   else if i < 48 then B XOR C XOR D
                   else C XOR (B OR NOT D));
              g = (if i < 16 then i
                   else if i < 32 then (5 * i + 1) mod 16
                   else if i < 48 then (3 * i + 5) mod 16
                   else (7 * i) mod 16);
              F = F + A + md5_K ! i + M ! g
          in (D, B + rotate_left (md5_shift ! i) F, B, C))"

definition md5_block ::
  "32 word \<times> 32 word \<times> 32 word \<times> 32 word \<Rightarrow> byte list
     \<Rightarrow> 32 word \<times> 32 word \<times> 32 word \<times> 32 word" where
  "md5_block st block =
     (case (st, foldl (md5_step (map le_word (chunks 4 block))) st [0..<64]) of
        ((a0, b0, c0, d0), (A, B, C, D)) \<Rightarrow> (a0 + A, b0 + B, c0 + C, d0 + D))"

definition md5 :: "byte list \<Rightarrow> byte list" where
  "md5 msg =
     (case foldl md5_block (0x67452301, 0xefcdab89, 0x98badcfe, 0x10325476)
             (chunks 64 (md5_pad msg)) of
        (A, B, C, D) \<Rightarrow> word_bytes A @ word_bytes B @ word_bytes C @ word_bytes D)"

text \<open>\<open>hexdigest\<close>: two lowercase hexadecimal digits for each byte.\<close>

definition hex_digit :: "nat \<Rightarrow> char" where
  "hex_digit n = ''0123456789abcdef'' ! (n mod 16)"

definition hex :: "byte list \<Rightarrow> string" where
  "hex bs = concat (map (\<lambda>b. [hex_digit (unat b div 16), hex_digit (unat b mod 16)]) bs)"

definition compute_file_hash :: "unicode \<Rightarrow> py_error + string" where
  "compute_file_hash content =
     (case utf8_encode content of Inl e \<Rightarrow> Inl e | Inr bs \<Rightarrow> Inr (hex (md5 bs)))"

section \<open>The snapshot manager\<close>

text \<open>
  \<open>os.path.basename\<close> and \<open>os.path.splitext\<close> for POSIX paths: the extension starts at
  the last dot of the last path component, unless only dots come before it there.
\<close>

definition basename :: "string \<Rightarrow> string" where
  "basename p = rev (takeWhile (\<lambda>c. c \<noteq> CHR ''/'') (rev p))"

definition splitext :: "string \<Rightarrow> string \<times> string" where
  "splitext p =
     (let base = basename p;
          ext = CHR ''.'' # rev (takeWhile (\<lambda>c. c \<noteq> CHR ''.'') (rev base));
          stem = take (length base - length ext) base
      in if CHR ''.'' \<in> set base \<and> (\<exists>c\<in>set stem. c \<noteq> CHR ''.'')
         then (take (length p - length ext) p, ext)
         else (p, []))"

definition language_map :: "(string \<times> string) list" where
  "language_map =
     [(''.py'', ''Python''), (''.js'', ''JavaScript''), (''.html'', ''HTML''), (''.css'', ''CSS''),
      (''.java'', ''Java''), (''.c'', ''C''), (''.cpp'', ''C++''), (''.h'', ''C/C++ Header''),
      (''.cs'', ''C#''), (''.go'', ''Go''), (''.rb'', ''Ruby''), (''.php'', ''PHP''),
      (''.ts'', ''TypeScript''), (''.jsx'', ''React JSX''), (''.tsx'', ''React TSX''),
      (''.md'', ''Markdown''), (''.json'', ''JSON''), (''.xml'', ''XML''), (''.sql'', ''SQL''),
      (''.sh'', ''Shell''), (''.bat'', ''Batch''), (''.ps1'', ''PowerShell'')]"

text \<open>
  \<open>identify_code_language\<close>; its second argument, the content, is not used by the source
  and is left out.
\<close>

definition identify_code_language :: "string \<Rightarrow> string" where
  "identify_code_language filename =
     (let ext = lower (snd (splitext filename))
      in case map_of language_map ext of None \<Rightarrow> ''Unknown'' | Some language \<Rightarrow> language)"

text \<open>The metrics dictionary, with its keys; every value is a number.\<close>

definition metrics_dict :: "code_metrics \<Rightarrow> (string \<rightharpoonup> rat)" where
  "metrics_dict m =
     map_of
       [(''total_lines'', of_int (total_lines m)), (''code_lines'', of_int (code_lines m)),
        (''comment_lines'', of_int (comment_lines m)), (''blank_lines'', of_int (blank_lines m)),
        (''docstring_lines'', of_int (docstring_lines m)),
        (''function_count'', of_int (function_count m)), (''class_count'', of_int (class_count m)),
        (''import_count'', of_int (import_count m)), (''todo_count'', of_int (todo_count m)),
        (''max_line_length'', of_int (max_line_length m)),
        (''avg_line_length'', avg_line_length m), (''comment_ratio'', comment_ratio m)]"

text \<open>
  A snapshot is a dictionary with these ten keys; the empty dictionary, which the source
  returns on failure, is \<open>None\<close>. Times are kept as their ISO strings.
\<close>

record snapshot =
  snap_file_path :: string
  snap_file_name :: string
  snap_timestamp :: string
  snap_file_modified :: "string option"
  snap_hash :: string
  snap_language :: string
  snap_size :: int
  snap_metrics :: "string \<rightharpoonup> rat"
  snap_content :: string
  snap_compressed_content :: "string option"

text \<open>
  What \<open>create_snapshot\<close> asks of its surroundings: \<open>safe_read_file\<close>, \<open>os.path.exists\<close>,
  \<open>get_file_age\<close> and the two readings of the clock.
\<close>

record environment =
  safe_read_file :: "string \<Rightarrow> string option"
  path_exists :: "string \<Rightarrow> bool"
  get_file_age :: "string \<Rightarrow> string option"
  now_for_file :: string
  now_for_snapshot :: string

text \<open>
  \<open>create_snapshot\<close>. Any exception inside is caught and gives the empty dictionary.
  The metrics are computed when \<open>language\<close> is a true value, that is a string that is not
  empty.
\<close>

definition create_snapshot ::
  "environment \<Rightarrow> (byte list \<Rightarrow> byte list) \<Rightarrow> string \<Rightarrow> string option \<Rightarrow> snapshot option" where
  "create_snapshot env zc file_path given =
     (case (case given of None \<Rightarrow> safe_read_file env file_path | Some c \<Rightarrow> Some c) of
        None \<Rightarrow> None
      | Some content \<Rightarrow>
          (case compute_file_hash (codepoints content) of
             Inl e \<Rightarrow> None
           | Inr content_hash \<Rightarrow>
               let file_time = (if path_exists env file_path then get_file_age env file_path
                                else Some (now_for_file env));
                   language = identify_code_language file_path
               in case (if language \<noteq> [] then map_sum id metrics_dict (count_code_metrics content)
                        else Inr Map.empty) of
                    Inl e \<Rightarrow> None
                  | Inr metrics \<Rightarrow>
                      (case (if content \<noteq> []
                             then map_sum id (\<lambda>bs. Some (hex bs)) (compress_content zc (codepoints content))
                             else Inr None) of
                         Inl e \<Rightarrow> None
                       | Inr compressed \<Rightarrow>
                           Some \<lparr>snap_file_path = file_path,
                                 snap_file_name = basename file_path,
                                 snap_timestamp = now_for_snapshot env,
                                 snap_file_modified = file_time,
                                 snap_hash = content_hash,
                                 snap_language = language,
                                 snap_size = int (length content),
                                 snap_metrics = metrics,
                                 snap_content = content,
                                 snap_compressed_content = compressed\<rparr>)))"

text \<open>An entry of \<open>metrics_changes\<close>, and the comparison report.\<close>

record metric_change =
  change_old :: rat
  change_new :: rat
  change :: rat

record report =
  rep_file_path :: string
  rep_file_name :: string
  rep_old_timestamp :: string
  rep_new_timestamp :: string
  rep_old_hash :: string
  rep_new_hash :: string
  rep_is_significant :: bool
  rep_diff :: string
  rep_metrics_changes :: "string \<rightharpoonup> metric_change"
  rep_size_change :: int

text \<open>\<open>d.get(key, 0)\<close>.\<close>

definition get_or_zero :: "(string \<rightharpoonup> rat) \<Rightarrow> string \<Rightarrow> rat" where
  "get_or_zero d key = (case d key of None \<Rightarrow> 0 | Some v \<Rightarrow> v)"

text \<open>The loop over the keys of either dictionary; an entry is made when the values differ.\<close>

definition metrics_changes :: "(string \<rightharpoonup> rat) \<Rightarrow> (string \<rightharpoonup> rat) \<Rightarrow> (string \<rightharpoonup> metric_change)" where
  "metrics_changes old_metrics new_metrics =
     (\<lambda>key. if key \<in> dom old_metrics \<union> dom new_metrics then
               (let old_value = get_or_zero old_metrics key;
                    new_value = get_or_zero new_metrics key
                in if old_value \<noteq> new_value
                   then Some \<lparr>change_old = old_value, change_new = new_value,
                              change = new_value - old_value\<rparr>
                   else None)
             else None)"

text \<open>
  \<open>compare_snapshots\<close>: an empty snapshot on either side gives the empty report; nothing
  in the body can raise on two snapshots that \<open>create_snapshot\<close> made.
\<close>

definition compare_snapshots :: "snapshot option \<Rightarrow> snapshot option \<Rightarrow> report option" where
  "compare_snapshots old_snapshot new_snapshot =
     (case (old_snapshot, new_snapshot) of
        (Some old, Some new) \<Rightarrow>
          Some \<lparr>rep_file_path = snap_file_path new,
                rep_file_name = snap_file_name new,
                rep_old_timestamp = snap_timestamp old,
                rep_new_timestamp = snap_timestamp new,
                rep_old_hash = snap_hash old,
                rep_new_hash = snap_hash new,
                rep_is_significant =
                  is_significant_change (snap_content old) (snap_content new) (1 / 20),
                rep_diff = generate_diff (snap_content old) (snap_content new),
                rep_metrics_changes = metrics_changes (snap_metrics old) (snap_metrics new),
                rep_size_change = snap_size new - snap_size old\<rparr>
      | _ \<Rightarrow> None)"

section \<open>Properties\<close>

subsection \<open>\<open>apply_diff\<close> on a hunk that starts at line 0\<close>

text \<open>
  C9. \<open>apply_diff\<close> is meant to return for every original and every diff text. It does
  not: the unified diff from the two lines \<open>a\<close>, \<open>b\<close> to the empty text has the header
  \<open>@@ -1,2 +0,0 @@\<close>, which sets the cursor to \<open>-1\<close>; applied to an empty original, the
  guard \<open>line_idx < len(result_lines)\<close> holds (\<open>-1 < 0\<close>) and \<open>result_lines[-1]\<close> raises
  \<open>IndexError\<close>.
\<close>

theorem apply_diff_raises_IndexError:
  "apply_diff '''' ''--- previous\<newline>+++ current\<newline>@@ -1,2 +0,0 @@\<newline>-a\<newline>-b''
     = Inl IndexError"
  by (simp add: apply_diff_def splitlines_def is_linebreak_def code_def is_file_header_def
      startswith_def match_hunk_header_def lit_def many1_def is_digit_def int_of_digits_def
      py_index_def)

subsection \<open>The four buckets of \<open>count_code_metrics\<close>\<close>

text \<open>
  One step of the scan keeps the three accumulated counts non-negative, adds one to at
  most one of them, and never meets an unset docstring delimiter.
\<close>

lemma scan_line_inv:
  assumes "0 \<le> st_blank st" "0 \<le> st_comment st" "0 \<le> st_docstring st"
    and "st_blank st + st_comment st + st_docstring st \<le> n"
    and "st_in_docstring st \<Longrightarrow> st_delimiter st \<noteq> None"
  shows "\<exists>st'. scan_line st line = Inr st' \<and> 0 \<le> st_blank st' \<and> 0 \<le> st_comment st'
           \<and> 0 \<le> st_docstring st'
           \<and> st_blank st' + st_comment st' + st_docstring st' \<le> n + 1
           \<and> (st_in_docstring st' \<longrightarrow> st_delimiter st' \<noteq> None)"
  using assms by (auto simp: scan_line_def Let_def split: option.splits)

lemma scan_lines_inv:
  assumes "0 \<le> st_blank st" "0 \<le> st_comment st" "0 \<le> st_docstring st"
    and "st_blank st + st_comment st + st_docstring st \<le> n"
    and "st_in_docstring st \<Longrightarrow> st_delimiter st \<noteq> None"
  shows "\<exists>st'. scan_lines st lines = Inr st' \<and> 0 \<le> st_blank st' \<and> 0 \<le> st_comment st'
           \<and> 0 \<le> st_docstring st'
           \<and> st_blank st' + st_comment st' + st_docstring st' \<le> n + int (length lines)"
  using assms
proof (induction lines arbitrary: st n)
  case Nil
  then show ?case by simp
next
  case (Cons line rest)
  from scan_line_inv[OF Cons.prems(1-4), of line] Cons.prems(5)
  obtain st1 where s1: "scan_line st line = Inr st1" "0 \<le> st_blank st1" "0 \<le> st_comment st1"
    "0 \<le> st_docstring st1" "st_blank st1 + st_comment st1 + st_docstring st1 \<le> n + 1"
    "st_in_docstring st1 \<longrightarrow> st_delimiter st1 \<noteq> None"
    by blast
  from Cons.IH[OF s1(2-5)] s1(6)
  obtain st' where "scan_lines st1 rest = Inr st'" "0 \<le> st_blank st'" "0 \<le> st_comment st'"
    "0 \<le> st_docstring st'"
    "st_blank st' + st_comment st' + st_docstring st' \<le> n + 1 + int (length rest)"
    by blast
  with s1(1) show ?case by simp
qed

text \<open>
  C3. For every input text \<open>count_code_metrics\<close> returns a dictionary (it does not raise)
  in which \<open>total_lines\<close> is the sum of \<open>code_lines\<close>, \<open>comment_lines\<close>, \<open>blank_lines\<close> and
  \<open>docstring_lines\<close>, and none of the four counts is negative.
\<close>

theorem count_code_metrics_buckets:
  "\<exists>m. count_code_metrics content = Inr m
       \<and> total_lines m = code_lines m + comment_lines m + blank_lines m + docstring_lines m
       \<and> 0 \<le> code_lines m \<and> 0 \<le> comment_lines m \<and> 0 \<le> blank_lines m
       \<and> 0 \<le> docstring_lines m"
proof (cases "content = []")
  case True
  then show ?thesis by (simp add: count_code_metrics_def zero_metrics_def)
next
  case False
  have "\<exists>st'. scan_lines scan_init (splitlines content) = Inr st' \<and> 0 \<le> st_blank st'
          \<and> 0 \<le> st_comment st' \<and> 0 \<le> st_docstring st'
          \<and> st_blank st' + st_comment st' + st_docstring st' \<le> 0 + int (length (splitlines content))"
    by (rule scan_lines_inv) (simp_all add: scan_init_def)
  then obtain st' where "scan_lines scan_init (splitlines content) = Inr st'" "0 \<le> st_blank st'"
     "0 \<le> st_comment st'" "0 \<le> st_docstring st'"
     "st_blank st' + st_comment st' + st_docstring st' \<le> int (length (splitlines content))"
    by auto
  with False show ?thesis by (simp add: count_code_metrics_def Let_def)
qed

subsection \<open>A magic number at the end of a line\<close>

text \<open>
  C6. The text \<open>x = 12345\<close> followed by a line feed is meant to give one \<open>magic_number\<close>
  record at line 1. The pattern asks for a character after the digits, and the line ends
  with them: the detector returns no record at all.
\<close>

theorem detect_code_smells_misses_magic_number:
  "detect_code_smells ''x = 12345\<newline>'' = []"
  by (simp add: detect_code_smells_def splitlines_def is_linebreak_def code_def
      smell_step_def skipped_def strip_def lstrip_def is_space_def startswith_def
      check_long_line_def check_global_def check_function_def check_nesting_def
      check_magic_def match_def_def many0_def many1_def lit_def is_word_def is_digit_def
      smell_init_def finish_function_def short_name_smells_def match_short_def_def
      match_short_class_def)

text \<open>With one more character after the digits the record is there.\<close>

lemma detect_code_smells_finds_magic_number:
  "detect_code_smells ''x = 12345 \<newline>''
     = [\<lparr>smell_type = magic_number, smell_line = 1, smell_message = MagicNumberMsg,
         smell_severity = low\<rparr>]"
  by (simp add: detect_code_smells_def splitlines_def is_linebreak_def code_def
      smell_step_def skipped_def strip_def lstrip_def is_space_def startswith_def
      check_long_line_def check_global_def check_function_def check_nesting_def
      check_magic_def match_def_def many0_def many1_def lit_def is_word_def is_digit_def
      smell_init_def finish_function_def short_name_smells_def match_short_def_def
      match_short_class_def add_smell_def)

subsection \<open>The order of the records\<close>

lemma check_long_line_filter:
  "filter not_lf (smells (check_long_line i line st)) = filter not_lf (smells st)
     @ (if 100 < length line
        then [\<lparr>smell_type = long_line, smell_line = i + 1,
               smell_message = LongLineMsg (int (length line)), smell_severity = low\<rparr>]
        else [])"
  by (simp add: check_long_line_def add_smell_def)

lemma check_global_filter:
  "filter not_lf (smells (check_global i line st)) = filter not_lf (smells st)
     @ (if search_word ''global'' False line
        then [\<lparr>smell_type = global_variable, smell_line = i + 1,
               smell_message = GlobalVariableMsg, smell_severity = medium\<rparr>]
        else [])"
  by (simp add: check_global_def add_smell_def)

lemma check_function_filter:
  "filter not_lf (smells (check_function i line st)) = filter not_lf (smells st)"
  by (simp add: check_function_def add_smell_def long_function_smell_def Let_def
      split: option.splits)

lemma check_nesting_filter:
  "filter not_lf (smells (check_nesting i line st)) = filter not_lf (smells st)
     @ (if 16 \<le> int (length line) - int (length (lstrip line))
        then [\<lparr>smell_type = deep_nesting, smell_line = i + 1,
               smell_message = DeepNestingMsg ((int (length line) - int (length (lstrip line))) div 4),
               smell_severity = medium\<rparr>]
        else [])"
  by (simp add: check_nesting_def add_smell_def Let_def)

lemma check_magic_filter:
  "\<not> skipped line \<Longrightarrow>
   filter not_lf (smells (check_magic i line st)) = filter not_lf (smells st)
     @ (if search_magic line
        then [\<lparr>smell_type = magic_number, smell_line = i + 1,
               smell_message = MagicNumberMsg, smell_severity = low\<rparr>]
        else [])"
  by (simp add: check_magic_def add_smell_def skipped_def)

lemma step_filter:
  "filter not_lf (smells (smell_step i line st)) = filter not_lf (smells st) @ per_line i line"
proof (cases "skipped line")
  case True
  then show ?thesis by (simp add: smell_step_def per_line_def)
next
  case False
  then show ?thesis
    unfolding smell_step_def per_line_def
    by (simp add: check_magic_filter check_nesting_filter check_function_filter
        check_global_filter check_long_line_filter)
qed

lemma first_pass_filter:
  "filter not_lf (smells (first_pass i lines st)) = filter not_lf (smells st) @ per_lines i lines"
  by (induction lines arbitrary: i st) (simp_all add: step_filter)

lemma finish_filter:
  "filter not_lf (finish_function st) = filter not_lf (smells st)"
  by (simp add: finish_function_def long_function_smell_def)

lemma per_line_lines: "s \<in> set (per_line i line) \<Longrightarrow> smell_line s = i + 1"
  by (auto simp: per_line_def split: if_splits)

lemma per_lines_lower: "s \<in> set (per_lines i lines) \<Longrightarrow> i + 1 \<le> smell_line s"
proof (induction lines arbitrary: i)
  case Nil then show ?case by simp
next
  case (Cons l ls)
  then show ?case using per_line_lines[of s i l] by fastforce
qed

lemma per_lines_sorted: "sorted (map smell_line (per_lines i lines))"
proof (induction lines arbitrary: i)
  case Nil then show ?case by simp
next
  case (Cons l ls)
  have "\<forall>x\<in>set (per_line i l). \<forall>y\<in>set (per_lines (i + 1) ls). smell_line x \<le> smell_line y"
    using per_line_lines[of _ i l] per_lines_lower[of _ "i + 1" ls] by fastforce
  moreover have "sorted (map smell_line (per_line i l))"
    by (auto simp: per_line_def)
  ultimately show ?case using Cons.IH[of "i + 1"] by (simp add: sorted_append)
qed


lemma check_other_lf:
  "filter is_lf (smells (check_long_line i line st)) = filter is_lf (smells st)"
  "filter is_lf (smells (check_global i line st)) = filter is_lf (smells st)"
  "filter is_lf (smells (check_nesting i line st)) = filter is_lf (smells st)"
  "filter is_lf (smells (check_magic i line st)) = filter is_lf (smells st)"
  "function_start_line (check_long_line i line st) = function_start_line st"
  "function_start_line (check_global i line st) = function_start_line st"
  "function_start_line (check_nesting i line st) = function_start_line st"
  "function_start_line (check_magic i line st) = function_start_line st"
  by (simp_all add: check_long_line_def check_global_def check_nesting_def check_magic_def
      add_smell_def Let_def)

lemma check_function_lf:
  assumes "sorted (map smell_line (filter is_lf (smells st)))"
    and "\<forall>s\<in>set (smells st). is_lf s \<longrightarrow> smell_line s \<le> function_start_line st + 1"
    and "function_start_line st \<le> i"
  shows "sorted (map smell_line (filter is_lf (smells (check_function i line st))))
       \<and> (\<forall>s\<in>set (smells (check_function i line st)).
            is_lf s \<longrightarrow> smell_line s \<le> function_start_line (check_function i line st) + 1)
       \<and> function_start_line (check_function i line st) \<le> i"
  using assms
  by (auto simp: check_function_def add_smell_def long_function_smell_def Let_def sorted_append
      split: option.splits)


lemma step_lf:
  assumes "sorted (map smell_line (filter is_lf (smells st)))"
    and "\<forall>s\<in>set (smells st). is_lf s \<longrightarrow> smell_line s \<le> function_start_line st + 1"
    and "function_start_line st \<le> i"
  shows "sorted (map smell_line (filter is_lf (smells (smell_step i line st))))
       \<and> (\<forall>s\<in>set (smells (smell_step i line st)).
            is_lf s \<longrightarrow> smell_line s \<le> function_start_line (smell_step i line st) + 1)
       \<and> function_start_line (smell_step i line st) \<le> i"
proof (cases "skipped line")
  case True
  with assms show ?thesis by (simp add: smell_step_def)
next
  case False
  let ?a = "check_global i line (check_long_line i line st)"
  have a: "filter is_lf (smells ?a) = filter is_lf (smells st)"
    "function_start_line ?a = function_start_line st"
    by (simp_all add: check_other_lf)
  have "\<forall>s\<in>set (smells ?a). is_lf s \<longrightarrow> smell_line s \<le> function_start_line ?a + 1"
  proof (intro ballI impI)
    fix s assume "s \<in> set (smells ?a)" "is_lf s"
    then have "s \<in> set (filter is_lf (smells ?a))" by simp
    then have "s \<in> set (smells st)" unfolding a by simp
    with assms(2) \<open>is_lf s\<close> show "smell_line s \<le> function_start_line ?a + 1" by (simp add: a)
  qed
  from check_function_lf[OF _ this, of i line] assms(1,3)
  have b: "sorted (map smell_line (filter is_lf (smells (check_function i line ?a))))"
    "\<forall>s\<in>set (smells (check_function i line ?a)).
        is_lf s \<longrightarrow> smell_line s \<le> function_start_line (check_function i line ?a) + 1"
    "function_start_line (check_function i line ?a) \<le> i"
    by (simp_all add: a)
  let ?c = "check_magic i line (check_nesting i line (check_function i line ?a))"
  have c: "filter is_lf (smells ?c) = filter is_lf (smells (check_function i line ?a))"
    "function_start_line ?c = function_start_line (check_function i line ?a)"
    by (simp_all add: check_other_lf)
  have "\<forall>s\<in>set (smells ?c). is_lf s \<longrightarrow> smell_line s \<le> function_start_line ?c + 1"
  proof (intro ballI impI)
    fix s assume "s \<in> set (smells ?c)" "is_lf s"
    then have "s \<in> set (filter is_lf (smells ?c))" by simp
    then have "s \<in> set (smells (check_function i line ?a))" unfolding c by simp
    with b(2) \<open>is_lf s\<close> show "smell_line s \<le> function_start_line ?c + 1" by (simp add: c)
  qed
  with b c False show ?thesis by (simp add: smell_step_def)
qed

lemma first_pass_lf:
  assumes "sorted (map smell_line (filter is_lf (smells st)))"
    and "\<forall>s\<in>set (smells st). is_lf s \<longrightarrow> smell_line s \<le> function_start_line st + 1"
    and "function_start_line st \<le> i"
  shows "sorted (map smell_line (filter is_lf (smells (first_pass i lines st))))
       \<and> (\<forall>s\<in>set (smells (first_pass i lines st)).
            is_lf s \<longrightarrow> smell_line s \<le> function_start_line (first_pass i lines st) + 1)"
  using assms
proof (induction lines arbitrary: i st)
  case Nil
  then show ?case by simp
next
  case (Cons line rest)
  from step_lf[OF Cons.prems, of line]
  have "sorted (map smell_line (filter is_lf (smells (smell_step i line st))))"
    "\<forall>s\<in>set (smells (smell_step i line st)).
        is_lf s \<longrightarrow> smell_line s \<le> function_start_line (smell_step i line st) + 1"
    "function_start_line (smell_step i line st) \<le> i + 1"
    by simp_all
  from Cons.IH[OF this] show ?case by simp
qed

lemma finish_lf:
  assumes "sorted (map smell_line (filter is_lf (smells st)))"
    and "\<forall>s\<in>set (smells st). is_lf s \<longrightarrow> smell_line s \<le> function_start_line st + 1"
  shows "sorted (map smell_line (filter is_lf (finish_function st)))"
  using assms by (auto simp: finish_function_def long_function_smell_def sorted_append)

lemma short_name_smells_props:
  "s \<in> set (short_name_smells i line) \<Longrightarrow> smell_type s = short_name \<and> smell_line s = i + 1"
  by (auto simp: short_name_smells_def split: option.splits)

lemma second_pass_props:
  "s \<in> set (second_pass i lines) \<Longrightarrow> smell_type s = short_name \<and> i + 1 \<le> smell_line s"
proof (induction lines arbitrary: i)
  case Nil then show ?case by simp
next
  case (Cons l ls)
  then show ?case using short_name_smells_props[of s i l] by fastforce
qed

lemma second_pass_sorted: "sorted (map smell_line (second_pass i lines))"
proof (induction lines arbitrary: i)
  case Nil then show ?case by simp
next
  case (Cons l ls)
  have "\<forall>x\<in>set (short_name_smells i l). \<forall>y\<in>set (second_pass (i + 1) ls).
          smell_line x \<le> smell_line y"
    using short_name_smells_props[of _ i l] second_pass_props[of _ "i + 1" ls] by fastforce
  moreover have "sorted (map smell_line (short_name_smells i l))"
    by (auto simp: short_name_smells_def split: option.splits)
  ultimately show ?case using Cons.IH[of "i + 1"] by (simp add: sorted_append)
qed

lemma per_line_types:
  "s \<in> set (per_line i line) \<Longrightarrow>
     smell_type s \<in> {long_line, global_variable, deep_nesting, magic_number}"
  by (auto simp: per_line_def split: if_splits)

lemma per_lines_types:
  "s \<in> set (per_lines i lines) \<Longrightarrow>
     smell_type s \<in> {long_line, global_variable, deep_nesting, magic_number}"
  by (induction lines arbitrary: i) (auto dest: per_line_types)


lemma per_lines_nth:
  "i < length lines \<Longrightarrow> set (per_line (k + int i) (lines ! i)) \<subseteq> set (per_lines k lines)"
proof (induction lines arbitrary: i k)
  case Nil then show ?case by simp
next
  case (Cons l ls)
  show ?case
  proof (cases i)
    case 0 then show ?thesis by simp
  next
    case (Suc j)
    with Cons.prems have "j < length ls" by simp
    from Cons.IH[OF this, of "k + 1"] Suc show ?thesis by (auto simp: add.assoc)
  qed
qed

lemma second_pass_nth:
  "i < length lines \<Longrightarrow>
     set (short_name_smells (k + int i) (lines ! i)) \<subseteq> set (second_pass k lines)"
proof (induction lines arbitrary: i k)
  case Nil then show ?case by simp
next
  case (Cons l ls)
  show ?case
  proof (cases i)
    case 0 then show ?thesis by simp
  next
    case (Suc j)
    with Cons.prems have "j < length ls" by simp
    from Cons.IH[OF this, of "k + 1"] Suc show ?thesis by (auto simp: add.assoc)
  qed
qed

lemma first_part_not_lf:
  "filter not_lf (finish_function (first_pass 0 lines smell_init)) = per_lines 0 lines"
  by (simp add: finish_filter first_pass_filter smell_init_def)

lemma first_part_lf:
  "sorted (map smell_line (filter is_lf (finish_function (first_pass 0 lines smell_init))))"
proof -
  have "sorted (map smell_line (filter is_lf (smells (first_pass 0 lines smell_init))))
      \<and> (\<forall>s\<in>set (smells (first_pass 0 lines smell_init)).
            is_lf s \<longrightarrow> smell_line s \<le> function_start_line (first_pass 0 lines smell_init) + 1)"
    by (rule first_pass_lf) (simp_all add: smell_init_def)
  then show ?thesis by (simp add: finish_lf)
qed

lemma filter_via_not_lf:
  assumes "\<And>s. P s \<Longrightarrow> not_lf s"
  shows "filter P xs = filter P (filter not_lf xs)"
  using assms by (induction xs) auto

lemma filter_none: "(\<And>s. s \<in> set xs \<Longrightarrow> \<not> P s) \<Longrightarrow> filter P xs = []"
  by (induction xs) auto

lemma filter_all: "(\<And>s. s \<in> set xs \<Longrightarrow> P s) \<Longrightarrow> filter P xs = xs"
  by (induction xs) auto

lemma smells_per_line_group:
  "filter (\<lambda>s. smell_type s \<in> {long_line, global_variable, deep_nesting, magic_number})
     (finish_function (first_pass 0 lines smell_init) @ second_pass 0 lines) = per_lines 0 lines"
proof -
  let ?P = "\<lambda>s. smell_type s \<in> {long_line, global_variable, deep_nesting, magic_number}"
  have "filter ?P (finish_function (first_pass 0 lines smell_init))
          = filter ?P (filter not_lf (finish_function (first_pass 0 lines smell_init)))"
    by (rule filter_via_not_lf) auto
  also have "\<dots> = filter ?P (per_lines 0 lines)" by (simp only: first_part_not_lf)
  also have "\<dots> = per_lines 0 lines" by (rule filter_all) (rule per_lines_types)
  finally have 1: "filter ?P (finish_function (first_pass 0 lines smell_init)) = per_lines 0 lines" .
  have 2: "filter ?P (second_pass 0 lines) = []"
    by (rule filter_none) (auto dest: second_pass_props)
  show ?thesis using 1 2 by simp
qed

lemma smells_short_group:
  "filter (\<lambda>s. smell_type s = short_name)
     (finish_function (first_pass 0 lines smell_init) @ second_pass 0 lines) = second_pass 0 lines"
proof -
  let ?P = "\<lambda>s. smell_type s = short_name"
  have "filter ?P (finish_function (first_pass 0 lines smell_init))
          = filter ?P (filter not_lf (finish_function (first_pass 0 lines smell_init)))"
    by (rule filter_via_not_lf) auto
  also have "\<dots> = filter ?P (per_lines 0 lines)" by (simp only: first_part_not_lf)
  also have "\<dots> = []" by (rule filter_none) (auto dest: per_lines_types)
  finally have 1: "filter ?P (finish_function (first_pass 0 lines smell_init)) = []" .
  have 2: "filter ?P (second_pass 0 lines) = second_pass 0 lines"
    by (rule filter_all) (auto dest: second_pass_props)
  show ?thesis using 1 2 by simp
qed

lemma smells_lf_group:
  "filter is_lf (finish_function (first_pass 0 lines smell_init) @ second_pass 0 lines)
     = filter is_lf (finish_function (first_pass 0 lines smell_init))"
proof -
  have "filter is_lf (second_pass 0 lines) = []"
    by (rule filter_none) (auto dest: second_pass_props)
  then show ?thesis by simp
qed

lemma per_line_in_result:
  assumes "i < length (splitlines content)"
  shows "set (per_line (int i) (splitlines content ! i)) \<subseteq> set (detect_code_smells content)"
proof -
  let ?lines = "splitlines content"
  from assms have ne: "content \<noteq> []" by (auto simp: splitlines_def)
  have "set (per_line (int i) (?lines ! i)) \<subseteq> set (per_lines 0 ?lines)"
    using per_lines_nth[OF assms, of 0] by simp
  also have "\<dots> = set (filter not_lf (finish_function (first_pass 0 ?lines smell_init)))"
    by (simp only: first_part_not_lf)
  also have "\<dots> \<subseteq> set (detect_code_smells content)"
    using ne by (auto simp: detect_code_smells_def Let_def)
  finally show ?thesis .
qed

lemma short_name_in_result:
  assumes "i < length (splitlines content)"
  shows "set (short_name_smells (int i) (splitlines content ! i)) \<subseteq> set (detect_code_smells content)"
proof -
  from assms have ne: "content \<noteq> []" by (auto simp: splitlines_def)
  have "set (short_name_smells (int i) (splitlines content ! i))
          \<subseteq> set (second_pass 0 (splitlines content))"
    using second_pass_nth[OF assms, of 0] by simp
  also have "\<dots> \<subseteq> set (detect_code_smells content)"
    using ne by (auto simp: detect_code_smells_def Let_def)
  finally show ?thesis .
qed

text \<open>The \<open>long_function\<close> records are those of the long functions of the text.\<close>

lemma check_other_state:
  "current_function (check_long_line i line st) = current_function st"
  "current_function (check_global i line st) = current_function st"
  "current_function (check_nesting i line st) = current_function st"
  "current_function (check_magic i line st) = current_function st"
  "function_lines (check_long_line i line st) = function_lines st"
  "function_lines (check_global i line st) = function_lines st"
  "function_lines (check_nesting i line st) = function_lines st"
  "function_lines (check_magic i line st) = function_lines st"
  "in_function (check_long_line i line st) = in_function st"
  "in_function (check_global i line st) = in_function st"
  "in_function (check_nesting i line st) = in_function st"
  "in_function (check_magic i line st) = in_function st"
  by (simp_all add: check_long_line_def check_global_def check_nesting_def check_magic_def
      add_smell_def Let_def)

lemma long_function_smell_other:
  "long_function_smell (check_global i line (check_long_line i line st)) = long_function_smell st"
  by (simp add: long_function_smell_def check_other_state check_other_lf)

lemma step_skipped: "skipped line \<Longrightarrow> smell_step i line st = st"
  by (simp add: smell_step_def)

lemma step_def_line:
  assumes "\<not> skipped line" and "match_def line = Some name"
  shows "filter is_lf (smells (smell_step i line st))
           = filter is_lf (smells st)
             @ (if in_function st \<and> 50 < function_lines st then [long_function_smell st] else [])"
    and "current_function (smell_step i line st) = Some name"
    and "function_start_line (smell_step i line st) = i"
    and "function_lines (smell_step i line st) = 0"
    and "in_function (smell_step i line st)"
  using assms
  by (simp_all add: smell_step_def check_other_lf check_other_state check_function_def Let_def
      add_smell_def long_function_smell_other long_function_smell_def)

lemma step_body_line:
  assumes "\<not> skipped line" and "match_def line = None"
  shows "filter is_lf (smells (smell_step i line st)) = filter is_lf (smells st)"
    and "current_function (smell_step i line st) = current_function st"
    and "function_start_line (smell_step i line st) = function_start_line st"
    and "function_lines (smell_step i line st)
           = (if in_function st then function_lines st + 1 else function_lines st)"
    and "in_function (smell_step i line st) = in_function st"
  using assms
  by (simp_all add: smell_step_def check_other_lf check_other_state check_function_def)

lemma finish_pending:
  "filter is_lf (finish_function st) = filter is_lf (smells st) @ pending_function st []"
  by (simp add: finish_function_def pending_function_def long_function_smell_def)

lemma first_pass_long_functions:
  "filter is_lf (finish_function (first_pass i lines st))
     = filter is_lf (smells st) @ pending_function st lines @ long_functions i lines"
proof (induction lines arbitrary: i st)
  case Nil
  show ?case by (simp add: finish_pending)
next
  case (Cons line rest)
  have IH: "filter is_lf (finish_function (first_pass (i + 1) rest (smell_step i line st)))
     = filter is_lf (smells (smell_step i line st))
       @ pending_function (smell_step i line st) rest @ long_functions (i + 1) rest"
    by (rule Cons.IH)
  show ?case
  proof (cases "skipped line")
    case True
    with IH show ?thesis by (simp add: step_skipped pending_function_def)
  next
    case False
    show ?thesis
    proof (cases "match_def line")
      case None
      from IH show ?thesis
        by (simp add: step_body_line[OF False None] False None pending_function_def add.assoc)
    next
      case (Some name)
      from IH show ?thesis
        by (simp add: step_def_line[OF False Some] False Some pending_function_def
            long_function_smell_def)
    qed
  qed
qed

lemma first_part_long_functions:
  "filter is_lf (finish_function (first_pass 0 lines smell_init)) = long_functions 0 lines"
  by (simp add: first_pass_long_functions) (simp add: smell_init_def pending_function_def)

lemma long_functions_lower:
  "s \<in> set (long_functions i lines) \<Longrightarrow> smell_type s = long_function \<and> i + 1 \<le> smell_line s"
proof (induction lines arbitrary: i)
  case Nil
  then show ?case by simp
next
  case (Cons l ls)
  from Cons.prems Cons.IH[of "i + 1"] show ?case
    by (auto split: option.splits if_splits)
qed

lemma long_functions_nth:
  assumes "i < length lines" and "\<not> skipped (lines ! i)" and "match_def (lines ! i) = Some name"
    and "50 < count_body (drop (Suc i) lines)"
  shows "\<lparr>smell_type = long_function, smell_line = k + int i + 1,
          smell_message = LongFunctionMsg (Some name) (count_body (drop (Suc i) lines)),
          smell_severity = medium\<rparr> \<in> set (long_functions k lines)"
  using assms
proof (induction lines arbitrary: i k)
  case Nil
  then show ?case by simp
next
  case (Cons l ls)
  show ?case
  proof (cases i)
    case 0
    with Cons.prems show ?thesis by simp
  next
    case (Suc j)
    with Cons.prems have "j < length ls" "\<not> skipped (ls ! j)" "match_def (ls ! j) = Some name"
      "50 < count_body (drop (Suc j) ls)" by simp_all
    from Cons.IH[OF this, of "k + 1"] Suc show ?thesis by (simp add: add.assoc)
  qed
qed

text \<open>The first loop adds no \<open>short_name\<close> record, the second loop no other.\<close>

lemma first_part_types:
  assumes "s \<in> set (finish_function (first_pass 0 lines smell_init))"
  shows "smell_type s \<noteq> short_name"
proof (cases "is_lf s")
  case True
  then show ?thesis by simp
next
  case False
  with assms have "s \<in> set (filter not_lf (finish_function (first_pass 0 lines smell_init)))"
    by simp
  then have "s \<in> set (per_lines 0 lines)" by (simp only: first_part_not_lf)
  from per_lines_types[OF this] show ?thesis by auto
qed

lemma smells_short_last:
  "finish_function (first_pass 0 lines smell_init) @ second_pass 0 lines
     = filter (\<lambda>s. smell_type s \<noteq> short_name)
         (finish_function (first_pass 0 lines smell_init) @ second_pass 0 lines)
       @ filter (\<lambda>s. smell_type s = short_name)
           (finish_function (first_pass 0 lines smell_init) @ second_pass 0 lines)"
proof -
  let ?A = "finish_function (first_pass 0 lines smell_init)"
  let ?B = "second_pass 0 lines"
  have 1: "filter (\<lambda>s. smell_type s \<noteq> short_name) ?A = ?A"
    by (rule filter_all) (rule first_part_types)
  have 2: "filter (\<lambda>s. smell_type s \<noteq> short_name) ?B = []"
    by (rule filter_none) (auto dest: second_pass_props)
  have 3: "filter (\<lambda>s. smell_type s = short_name) ?A = []"
    by (rule filter_none) (auto dest: first_part_types)
  have 4: "filter (\<lambda>s. smell_type s = short_name) ?B = ?B"
    by (rule filter_all) (auto dest: second_pass_props)
  show ?thesis by (simp only: filter_append 1 2 3 4 append_Nil append_Nil2)
qed

text \<open>Each group of records is in line order.\<close>

lemma detect_code_smells_groups:
  "sorted (map smell_line (filter (\<lambda>s. smell_type s \<in> {long_line, global_variable, deep_nesting, magic_number})
             (detect_code_smells content)))
   \<and> sorted (map smell_line (filter (\<lambda>s. smell_type s = long_function) (detect_code_smells content)))
   \<and> sorted (map smell_line (filter (\<lambda>s. smell_type s = short_name) (detect_code_smells content)))"
proof (cases "content = []")
  case True
  then show ?thesis by (simp add: detect_code_smells_def)
next
  case False
  then have eq: "detect_code_smells content
      = finish_function (first_pass 0 (splitlines content) smell_init) @ second_pass 0 (splitlines content)"
    by (simp add: detect_code_smells_def Let_def)
  show ?thesis
    unfolding eq
    by (simp only: smells_per_line_group smells_short_group smells_lf_group per_lines_sorted
        second_pass_sorted first_part_lf simp_thms)
qed

text \<open>
  The list is the records of the first loop followed by the \<open>short_name\<close> records, and
  each group of records is exactly what its check gives for the lines of the text.
\<close>

lemma detect_code_smells_exact:
  "detect_code_smells content
     = filter (\<lambda>s. smell_type s \<noteq> short_name) (detect_code_smells content)
       @ filter (\<lambda>s. smell_type s = short_name) (detect_code_smells content)
   \<and> filter (\<lambda>s. smell_type s \<in> {long_line, global_variable, deep_nesting, magic_number})
         (detect_code_smells content) = per_lines 0 (splitlines content)
   \<and> filter (\<lambda>s. smell_type s = long_function) (detect_code_smells content)
         = long_functions 0 (splitlines content)
   \<and> filter (\<lambda>s. smell_type s = short_name) (detect_code_smells content)
         = second_pass 0 (splitlines content)"
proof (cases "content = []")
  case True
  then show ?thesis by (simp add: detect_code_smells_def splitlines_def)
next
  case False
  then have eq: "detect_code_smells content
      = finish_function (first_pass 0 (splitlines content) smell_init) @ second_pass 0 (splitlines content)"
    by (simp add: detect_code_smells_def Let_def)
  have lf: "filter is_lf (finish_function (first_pass 0 (splitlines content) smell_init)
              @ second_pass 0 (splitlines content)) = long_functions 0 (splitlines content)"
    by (simp only: smells_lf_group first_part_long_functions)
  show ?thesis
    unfolding eq
    using smells_short_last[of "splitlines content"] smells_per_line_group[of "splitlines content"]
      lf smells_short_group[of "splitlines content"]
    by (intro conjI)
qed

lemma long_function_in_result:
  assumes "i < length (splitlines content)" and "\<not> skipped (splitlines content ! i)"
    and "match_def (splitlines content ! i) = Some fname"
    and "50 < count_body (drop (Suc i) (splitlines content))"
  shows "\<lparr>smell_type = long_function, smell_line = int i + 1,
          smell_message = LongFunctionMsg (Some fname) (count_body (drop (Suc i) (splitlines content))),
          smell_severity = medium\<rparr> \<in> set (detect_code_smells content)"
proof -
  from long_functions_nth[OF assms, of 0]
  have "\<lparr>smell_type = long_function, smell_line = int i + 1,
          smell_message = LongFunctionMsg (Some fname) (count_body (drop (Suc i) (splitlines content))),
          smell_severity = medium\<rparr> \<in> set (long_functions 0 (splitlines content))"
    by simp
  also have "long_functions 0 (splitlines content)
      = filter (\<lambda>s. smell_type s = long_function) (detect_code_smells content)"
    using detect_code_smells_exact[of content] by simp
  finally show ?thesis by simp
qed

text \<open>
  C7, as stated: the list is sorted by line, and no record is suppressed. It is not
  sorted: the short names are found by a second loop, so the record for the name \<open>f\<close> at
  line 1 comes after the record for the number at line 2. And a record is suppressed: a
  comment line is skipped before any check, so a comment line of 101 characters has no
  \<open>long_line\<close> record.
\<close>

theorem detect_code_smells_not_sorted:
  "map smell_line (detect_code_smells ''def f(x):\<newline>    y = (12345)\<newline>'') = [2, 1]
   \<and> \<not> sorted (map smell_line (detect_code_smells ''def f(x):\<newline>    y = (12345)\<newline>''))
   \<and> 100 < length ''#aaaaaaaaaaaaaaaaaaaaaaaaaaaaaaaaaaaaaaaaaaaaaaaaaaaaaaaaaaaaaaaaaaaaaaaaaaaaaaaaaaaaaaaaaaaaaaaaaaaa''
   \<and> detect_code_smells ''#aaaaaaaaaaaaaaaaaaaaaaaaaaaaaaaaaaaaaaaaaaaaaaaaaaaaaaaaaaaaaaaaaaaaaaaaaaaaaaaaaaaaaaaaaaaaaaaaaaaa'' = []"
  by (simp add: detect_code_smells_def splitlines_def is_linebreak_def code_def
      smell_step_def skipped_def strip_def lstrip_def is_space_def startswith_def
      check_long_line_def check_global_def check_function_def check_nesting_def
      check_magic_def match_def_def many0_def many1_def lit_def is_word_def is_digit_def
      smell_init_def finish_function_def short_name_smells_def match_short_def_def
      match_short_class_def add_smell_def short_word_def)

text \<open>
  C7, amended. The list is the records of the first loop followed by the \<open>short_name\<close>
  records of the second. The records of the per-line checks (\<open>long_line\<close>,
  \<open>global_variable\<close>, \<open>deep_nesting\<close>, \<open>magic_number\<close>) are exactly those of the lines that are
  neither blank nor a comment, line after line; the \<open>long_function\<close> records are exactly
  those of the functions of more than 50 lines, one for each, in the order of the
  functions; the \<open>short_name\<close> records are exactly those of the lines with a short name,
  line after line. So each of the three groups is in line order on its own, and within a
  group nothing is dropped or merged: for every line that is neither blank nor a comment,
  each per-line check that fires has its record in the list and a function of more than
  50 lines that starts there has its record, and for every line each short name has its
  record.
\<close>

theorem detect_code_smells_order:
  "detect_code_smells content
     = filter (\<lambda>s. smell_type s \<noteq> short_name) (detect_code_smells content)
       @ filter (\<lambda>s. smell_type s = short_name) (detect_code_smells content)
   \<and> filter (\<lambda>s. smell_type s \<in> {long_line, global_variable, deep_nesting, magic_number})
         (detect_code_smells content) = per_lines 0 (splitlines content)
   \<and> filter (\<lambda>s. smell_type s = long_function) (detect_code_smells content)
         = long_functions 0 (splitlines content)
   \<and> filter (\<lambda>s. smell_type s = short_name) (detect_code_smells content)
         = second_pass 0 (splitlines content)
   \<and> sorted (map smell_line
      (filter (\<lambda>s. smell_type s \<in> {long_line, global_variable, deep_nesting, magic_number})
         (detect_code_smells content)))
   \<and> sorted (map smell_line (filter (\<lambda>s. smell_type s = long_function) (detect_code_smells content)))
   \<and> sorted (map smell_line (filter (\<lambda>s. smell_type s = short_name) (detect_code_smells content)))
   \<and> (i < length (splitlines content) \<and> \<not> skipped (splitlines content ! i) \<longrightarrow>
        (100 < length (splitlines content ! i) \<longrightarrow>
           \<lparr>smell_type = long_line, smell_line = int i + 1,
            smell_message = LongLineMsg (int (length (splitlines content ! i))),
            smell_severity = low\<rparr> \<in> set (detect_code_smells content))
      \<and> (search_word ''global'' False (splitlines content ! i) \<longrightarrow>
           \<lparr>smell_type = global_variable, smell_line = int i + 1,
            smell_message = GlobalVariableMsg, smell_severity = medium\<rparr>
             \<in> set (detect_code_smells content))
      \<and> (16 \<le> int (length (splitlines content ! i)) - int (length (lstrip (splitlines content ! i))) \<longrightarrow>
           \<lparr>smell_type = deep_nesting, smell_line = int i + 1,
            smell_message = DeepNestingMsg
              ((int (length (splitlines content ! i)) - int (length (lstrip (splitlines content ! i)))) div 4),
            smell_severity = medium\<rparr> \<in> set (detect_code_smells content))
      \<and> (search_magic (splitlines content ! i) \<longrightarrow>
           \<lparr>smell_type = magic_number, smell_line = int i + 1,
            smell_message = MagicNumberMsg, smell_severity = low\<rparr>
             \<in> set (detect_code_smells content)))
   \<and> (i < length (splitlines content) \<longrightarrow>
        (match_short_def (splitlines content ! i) = Some name \<longrightarrow>
           \<lparr>smell_type = short_name, smell_line = int i + 1,
            smell_message = ShortFunctionNameMsg name, smell_severity = low\<rparr>
             \<in> set (detect_code_smells content))
      \<and> (match_short_class (splitlines content ! i) = Some name \<longrightarrow>
           \<lparr>smell_type = short_name, smell_line = int i + 1,
            smell_message = ShortClassNameMsg name, smell_severity = low\<rparr>
             \<in> set (detect_code_smells content)))
   \<and> (i < length (splitlines content) \<and> \<not> skipped (splitlines content ! i) \<longrightarrow>
        (match_def (splitlines content ! i) = Some fname
           \<and> 50 < count_body (drop (Suc i) (splitlines content)) \<longrightarrow>
           \<lparr>smell_type = long_function, smell_line = int i + 1,
            smell_message = LongFunctionMsg (Some fname) (count_body (drop (Suc i) (splitlines content))),
            smell_severity = medium\<rparr> \<in> set (detect_code_smells content)))"
proof -
  have per: "i < length (splitlines content) \<and> \<not> skipped (splitlines content ! i) \<longrightarrow>
        (100 < length (splitlines content ! i) \<longrightarrow>
           \<lparr>smell_type = long_line, smell_line = int i + 1,
            smell_message = LongLineMsg (int (length (splitlines content ! i))),
            smell_severity = low\<rparr> \<in> set (detect_code_smells content))
      \<and> (search_word ''global'' False (splitlines content ! i) \<longrightarrow>
           \<lparr>smell_type = global_variable, smell_line = int i + 1,
            smell_message = GlobalVariableMsg, smell_severity = medium\<rparr>
             \<in> set (detect_code_smells content))
      \<and> (16 \<le> int (length (splitlines content ! i)) - int (length (lstrip (splitlines content ! i))) \<longrightarrow>
           \<lparr>smell_type = deep_nesting, smell_line = int i + 1,
            smell_message = DeepNestingMsg
              ((int (length (splitlines content ! i)) - int (length (lstrip (splitlines content ! i)))) div 4),
            smell_severity = medium\<rparr> \<in> set (detect_code_smells content))
      \<and> (search_magic (splitlines content ! i) \<longrightarrow>
           \<lparr>smell_type = magic_number, smell_line = int i + 1,
            smell_message = MagicNumberMsg, smell_severity = low\<rparr>
             \<in> set (detect_code_smells content))"
  proof (intro impI, elim conjE)
    assume i: "i < length (splitlines content)" and ns: "\<not> skipped (splitlines content ! i)"
    from per_line_in_result[OF i] ns show
       "(100 < length (splitlines content ! i) \<longrightarrow>
           \<lparr>smell_type = long_line, smell_line = int i + 1,
            smell_message = LongLineMsg (int (length (splitlines content ! i))),
            smell_severity = low\<rparr> \<in> set (detect_code_smells content))
      \<and> (search_word ''global'' False (splitlines content ! i) \<longrightarrow>
           \<lparr>smell_type = global_variable, smell_line = int i + 1,
            smell_message = GlobalVariableMsg, smell_severity = medium\<rparr>
             \<in> set (detect_code_smells content))
      \<and> (16 \<le> int (length (splitlines content ! i)) - int (length (lstrip (splitlines content ! i))) \<longrightarrow>
           \<lparr>smell_type = deep_nesting, smell_line = int i + 1,
            smell_message = DeepNestingMsg
              ((int (length (splitlines content ! i)) - int (length (lstrip (splitlines content ! i)))) div 4),
            smell_severity = medium\<rparr> \<in> set (detect_code_smells content))
      \<and> (search_magic (splitlines content ! i) \<longrightarrow>
           \<lparr>smell_type = magic_number, smell_line = int i + 1,
            smell_message = MagicNumberMsg, smell_severity = low\<rparr>
             \<in> set (detect_code_smells content))"
      by (auto simp: per_line_def)
  qed
  have short: "i < length (splitlines content) \<longrightarrow>
        (match_short_def (splitlines content ! i) = Some name \<longrightarrow>
           \<lparr>smell_type = short_name, smell_line = int i + 1,
            smell_message = ShortFunctionNameMsg name, smell_severity = low\<rparr>
             \<in> set (detect_code_smells content))
      \<and> (match_short_class (splitlines content ! i) = Some name \<longrightarrow>
           \<lparr>smell_type = short_name, smell_line = int i + 1,
            smell_message = ShortClassNameMsg name, smell_severity = low\<rparr>
             \<in> set (detect_code_smells content))"
  proof
    assume i: "i < length (splitlines content)"
    from short_name_in_result[OF i] show
       "(match_short_def (splitlines content ! i) = Some name \<longrightarrow>
           \<lparr>smell_type = short_name, smell_line = int i + 1,
            smell_message = ShortFunctionNameMsg name, smell_severity = low\<rparr>
             \<in> set (detect_code_smells content))
      \<and> (match_short_class (splitlines content ! i) = Some name \<longrightarrow>
           \<lparr>smell_type = short_name, smell_line = int i + 1,
            smell_message = ShortClassNameMsg name, smell_severity = low\<rparr>
             \<in> set (detect_code_smells content))"
      by (auto simp: short_name_smells_def)
  qed
  have lf: "i < length (splitlines content) \<and> \<not> skipped (splitlines content ! i) \<longrightarrow>
        (match_def (splitlines content ! i) = Some fname
           \<and> 50 < count_body (drop (Suc i) (splitlines content)) \<longrightarrow>
           \<lparr>smell_type = long_function, smell_line = int i + 1,
            smell_message = LongFunctionMsg (Some fname) (count_body (drop (Suc i) (splitlines content))),
            smell_severity = medium\<rparr> \<in> set (detect_code_smells content))"
    using long_function_in_result[of i content fname] by blast
  from detect_code_smells_exact[of content] detect_code_smells_groups[of content] per short lf
  show ?thesis by blast
qed

text \<open>
  At a function of 60 statements the only \<open>long_function\<close> record is the one of that
  function, at its \<open>def\<close> line.
\<close>

theorem detect_code_smells_order_witness:
  "\<lparr>smell_type = deep_nesting, smell_line = 2, smell_message = DeepNestingMsg 4,
     smell_severity = medium\<rparr>
     \<in> set (detect_code_smells ''def f(x):\<newline>                y = (12345)\<newline>'')
   \<and> \<lparr>smell_type = magic_number, smell_line = 2, smell_message = MagicNumberMsg,
       smell_severity = low\<rparr>
     \<in> set (detect_code_smells ''def f(x):\<newline>                y = (12345)\<newline>'')
   \<and> \<lparr>smell_type = short_name, smell_line = 1, smell_message = ShortFunctionNameMsg ''f'',
       smell_severity = low\<rparr>
     \<in> set (detect_code_smells ''def f(x):\<newline>                y = (12345)\<newline>'')
   \<and> filter (\<lambda>s. smell_type s = long_function)
        (detect_code_smells
           ''def work():\<newline>x = 1\<newline>x = 1\<newline>x = 1\<newline>x = 1\<newline>x = 1\<newline>x = 1\<newline>x = 1\<newline>x = 1\<newline>x = 1\<newline>x = 1\<newline>x = 1\<newline>x = 1\<newline>x = 1\<newline>x = 1\<newline>x = 1\<newline>x = 1\<newline>x = 1\<newline>x = 1\<newline>x = 1\<newline>x = 1\<newline>x = 1\<newline>x = 1\<newline>x = 1\<newline>x = 1\<newline>x = 1\<newline>x = 1\<newline>x = 1\<newline>x = 1\<newline>x = 1\<newline>x = 1\<newline>x = 1\<newline>x = 1\<newline>x = 1\<newline>x = 1\<newline>x = 1\<newline>x = 1\<newline>x = 1\<newline>x = 1\<newline>x = 1\<newline>x = 1\<newline>x = 1\<newline>x = 1\<newline>x = 1\<newline>x = 1\<newline>x = 1\<newline>x = 1\<newline>x = 1\<newline>x = 1\<newline>x = 1\<newline>x = 1\<newline>x = 1\<newline>x = 1\<newline>x = 1\<newline>x = 1\<newline>x = 1\<newline>x = 1\<newline>x = 1\<newline>x = 1\<newline>x = 1\<newline>x = 1\<newline>'')
       = [\<lparr>smell_type = long_function, smell_line = 1,
       smell_message = LongFunctionMsg (Some ''work'') 60, smell_severity = medium\<rparr>]
   \<and> \<lparr>smell_type = long_function, smell_line = 1,
       smell_message = LongFunctionMsg (Some ''work'') 60, smell_severity = medium\<rparr>
     \<in> set (detect_code_smells
           ''def work():\<newline>x = 1\<newline>x = 1\<newline>x = 1\<newline>x = 1\<newline>x = 1\<newline>x = 1\<newline>x = 1\<newline>x = 1\<newline>x = 1\<newline>x = 1\<newline>x = 1\<newline>x = 1\<newline>x = 1\<newline>x = 1\<newline>x = 1\<newline>x = 1\<newline>x = 1\<newline>x = 1\<newline>x = 1\<newline>x = 1\<newline>x = 1\<newline>x = 1\<newline>x = 1\<newline>x = 1\<newline>x = 1\<newline>x = 1\<newline>x = 1\<newline>x = 1\<newline>x = 1\<newline>x = 1\<newline>x = 1\<newline>x = 1\<newline>x = 1\<newline>x = 1\<newline>x = 1\<newline>x = 1\<newline>x = 1\<newline>x = 1\<newline>x = 1\<newline>x = 1\<newline>x = 1\<newline>x = 1\<newline>x = 1\<newline>x = 1\<newline>x = 1\<newline>x = 1\<newline>x = 1\<newline>x = 1\<newline>x = 1\<newline>x = 1\<newline>x = 1\<newline>x = 1\<newline>x = 1\<newline>x = 1\<newline>x = 1\<newline>x = 1\<newline>x = 1\<newline>x = 1\<newline>x = 1\<newline>x = 1\<newline>'')"
proof -
  let ?c = "''def f(x):\<newline>                y = (12345)\<newline>''"
  have lines: "splitlines ?c = [''def f(x):'', ''                y = (12345)'']"
    by (simp add: splitlines_def is_linebreak_def code_def)
  have h1: "1 < length (splitlines ?c) \<and> \<not> skipped (splitlines ?c ! 1)"
    by (simp add: lines skipped_def strip_def is_space_def code_def startswith_def)
  have h2: "16 \<le> int (length (splitlines ?c ! 1)) - int (length (lstrip (splitlines ?c ! 1)))"
    "(int (length (splitlines ?c ! 1)) - int (length (lstrip (splitlines ?c ! 1)))) div 4 = 4"
    by (simp_all add: lines lstrip_def is_space_def code_def)
  have h3: "search_magic (splitlines ?c ! 1)"
    by (simp add: lines is_word_def is_digit_def code_def)
  have h4: "0 < length (splitlines ?c)" "match_short_def (splitlines ?c ! 0) = Some ''f''"
    by (simp_all add: lines match_short_def_def many0_def many1_def lit_def short_word_def
        startswith_def is_space_def is_word_def code_def)
  from detect_code_smells_order[of ?c 1] h1 h2 h3
  have a: "\<lparr>smell_type = deep_nesting, smell_line = 2, smell_message = DeepNestingMsg 4,
     smell_severity = medium\<rparr> \<in> set (detect_code_smells ?c)"
    "\<lparr>smell_type = magic_number, smell_line = 2, smell_message = MagicNumberMsg,
       smell_severity = low\<rparr> \<in> set (detect_code_smells ?c)"
    by simp_all
  from detect_code_smells_order[of ?c 0 "''f''" fname] h4
  have b: "\<lparr>smell_type = short_name, smell_line = 1, smell_message = ShortFunctionNameMsg ''f'',
       smell_severity = low\<rparr> \<in> set (detect_code_smells ?c)"
    by simp
  let ?d = "''def work():\<newline>x = 1\<newline>x = 1\<newline>x = 1\<newline>x = 1\<newline>x = 1\<newline>x = 1\<newline>x = 1\<newline>x = 1\<newline>x = 1\<newline>x = 1\<newline>x = 1\<newline>x = 1\<newline>x = 1\<newline>x = 1\<newline>x = 1\<newline>x = 1\<newline>x = 1\<newline>x = 1\<newline>x = 1\<newline>x = 1\<newline>x = 1\<newline>x = 1\<newline>x = 1\<newline>x = 1\<newline>x = 1\<newline>x = 1\<newline>x = 1\<newline>x = 1\<newline>x = 1\<newline>x = 1\<newline>x = 1\<newline>x = 1\<newline>x = 1\<newline>x = 1\<newline>x = 1\<newline>x = 1\<newline>x = 1\<newline>x = 1\<newline>x = 1\<newline>x = 1\<newline>x = 1\<newline>x = 1\<newline>x = 1\<newline>x = 1\<newline>x = 1\<newline>x = 1\<newline>x = 1\<newline>x = 1\<newline>x = 1\<newline>x = 1\<newline>x = 1\<newline>x = 1\<newline>x = 1\<newline>x = 1\<newline>x = 1\<newline>x = 1\<newline>x = 1\<newline>x = 1\<newline>x = 1\<newline>x = 1\<newline>''"
  have sl: "splitlines ?d
      = [''def work():'', ''x = 1'', ''x = 1'', ''x = 1'', ''x = 1'', ''x = 1'', ''x = 1'',
        ''x = 1'', ''x = 1'', ''x = 1'', ''x = 1'', ''x = 1'', ''x = 1'', ''x = 1'', ''x = 1'',
        ''x = 1'', ''x = 1'', ''x = 1'', ''x = 1'', ''x = 1'', ''x = 1'', ''x = 1'', ''x = 1'',
        ''x = 1'', ''x = 1'', ''x = 1'', ''x = 1'', ''x = 1'', ''x = 1'', ''x = 1'', ''x = 1'',
        ''x = 1'', ''x = 1'', ''x = 1'', ''x = 1'', ''x = 1'', ''x = 1'', ''x = 1'', ''x = 1'',
        ''x = 1'', ''x = 1'', ''x = 1'', ''x = 1'', ''x = 1'', ''x = 1'', ''x = 1'', ''x = 1'',
        ''x = 1'', ''x = 1'', ''x = 1'', ''x = 1'', ''x = 1'', ''x = 1'', ''x = 1'', ''x = 1'',
        ''x = 1'', ''x = 1'', ''x = 1'', ''x = 1'', ''x = 1'', ''x = 1'']"
    by (simp add: splitlines_def is_linebreak_def code_def)
  have h5: "0 < length (splitlines ?d) \<and> \<not> skipped (splitlines ?d ! 0)"
    "match_def (splitlines ?d ! 0) = Some ''work''"
    "count_body (drop (Suc 0) (splitlines ?d)) = 60"
    "long_functions 0 (splitlines ?d) = [\<lparr>smell_type = long_function, smell_line = 1,
       smell_message = LongFunctionMsg (Some ''work'') 60, smell_severity = medium\<rparr>]"
    unfolding sl
    by (simp_all add: skipped_def strip_def is_space_def code_def startswith_def match_def_def
        many0_def many1_def lit_def is_word_def)
  from detect_code_smells_order[of ?d 0 name "''work''"] h5
  have c: "filter (\<lambda>s. smell_type s = long_function) (detect_code_smells ?d)
       = [\<lparr>smell_type = long_function, smell_line = 1,
       smell_message = LongFunctionMsg (Some ''work'') 60, smell_severity = medium\<rparr>]"
    "\<lparr>smell_type = long_function, smell_line = 1,
       smell_message = LongFunctionMsg (Some ''work'') 60, smell_severity = medium\<rparr> \<in> set (detect_code_smells ?d)"
    by simp_all
  from a b c show ?thesis by simp
qed

subsection \<open>Generating a diff and applying it\<close>

text \<open>
  C1. Applying the generated diff to the old text is meant to give the new text. For the
  two three-line texts of the specification the diff has one hunk with the lines
  \<open>-Line 2\<close> and \<open>+Line 2 modified\<close>, but \<open>apply_diff\<close> joins the lines it has rebuilt with
  line feeds and so returns the new text without its last line feed.
\<close>

theorem apply_diff_generate_diff_loses_newline:
  "generate_diff ''Line 1\<newline>Line 2\<newline>Line 3\<newline>'' ''Line 1\<newline>Line 2 modified\<newline>Line 3\<newline>''
     = ''--- previous\<newline>+++ current\<newline>@@ -1,3 +1,3 @@\<newline> Line 1\<newline>-Line 2\<newline>+Line 2 modified\<newline> Line 3''
   \<and> apply_diff ''Line 1\<newline>Line 2\<newline>Line 3\<newline>''
       (generate_diff ''Line 1\<newline>Line 2\<newline>Line 3\<newline>'' ''Line 1\<newline>Line 2 modified\<newline>Line 3\<newline>'')
     = Inr ''Line 1\<newline>Line 2 modified\<newline>Line 3''
   \<and> apply_diff ''Line 1\<newline>Line 2\<newline>Line 3\<newline>''
       (generate_diff ''Line 1\<newline>Line 2\<newline>Line 3\<newline>'' ''Line 1\<newline>Line 2 modified\<newline>Line 3\<newline>'')
     \<noteq> Inr ''Line 1\<newline>Line 2 modified\<newline>Line 3\<newline>''"
  by code_simp

text \<open>
  The lines themselves are not always rebuilt either: a diff that empties the text has a
  hunk that starts at line 0, the cursor becomes \<open>-1\<close>, and the last line is compared and
  removed first; the first line stays.
\<close>

lemma apply_diff_generate_diff_keeps_a_line:
  "generate_diff ''a\<newline>b'' '''' = ''--- previous\<newline>+++ current\<newline>@@ -1,2 +0,0 @@\<newline>-a\<newline>-b''
   \<and> apply_diff ''a\<newline>b'' (generate_diff ''a\<newline>b'' '''') = Inr ''a''"
  by code_simp

subsection \<open>A text compared with itself\<close>

text \<open>
  When both sequences are the same, the longest match found row by row always lies on the
  diagonal: off the diagonal a run is never longer than the diagonal run that ends at
  the same column, which was met before. The two extension loops then stretch it over
  the whole sequence, popular elements included.
\<close>

lemma match_row_append:
  "\<forall>j\<in>set xs. j < bhi \<Longrightarrow>
   match_row j2len i blo bhi (xs @ ys) new best
     = (case match_row j2len i blo bhi xs new best of
          (new', best') \<Rightarrow> match_row j2len i blo bhi ys new' best')"
proof (induction xs arbitrary: new best)
  case Nil
  then show ?case by simp
next
  case (Cons j js)
  obtain bi bj bs where best: "best = (bi, bj, bs)" by (cases best)
  from Cons.prems have "j < bhi" "\<forall>j\<in>set js. j < bhi" by simp_all
  then show ?case using Cons.IH by (simp add: best Let_def)
qed

lemma match_row_keep:
  "\<forall>j\<in>set js. j < bhi \<and> prev_len j2len j + 1 \<le> bs \<Longrightarrow>
   match_row j2len i 0 bhi js new (bi, bj, bs)
     = (\<lambda>j. if j \<in> set js then Some (prev_len j2len j + 1) else new j, (bi, bj, bs))"
proof (induction js arbitrary: new)
  case Nil
  then show ?case by simp
next
  case (Cons j js)
  from Cons.prems have j: "j < bhi" "prev_len j2len j + 1 \<le> bs"
    and rest: "\<forall>j\<in>set js. j < bhi \<and> prev_len j2len j + 1 \<le> bs" by simp_all
  have "match_row j2len i 0 bhi (j # js) new (bi, bj, bs)
      = match_row j2len i 0 bhi js (new(j \<mapsto> prev_len j2len j + 1)) (bi, bj, bs)"
    using j by (simp add: Let_def)
  also have "\<dots> = (\<lambda>j'. if j' \<in> set js then Some (prev_len j2len j' + 1)
                         else (new(j \<mapsto> prev_len j2len j + 1)) j', (bi, bj, bs))"
    by (rule Cons.IH[OF rest])
  also have "(\<lambda>j'. if j' \<in> set js then Some (prev_len j2len j' + 1)
                         else (new(j \<mapsto> prev_len j2len j + 1)) j')
      = (\<lambda>j'. if j' \<in> set (j # js) then Some (prev_len j2len j' + 1) else new j')"
    by (rule ext) simp
  finally show ?case .
qed


lemma nonpop_run_eq:
  "nonpop_run s i = (if popular s (s ! i) then 0 else run_before s i + 1)"
  by (cases i) (simp_all add: run_before_def)

lemma run_before_Suc: "run_before s (Suc i) = nonpop_run s i"
  by (simp add: run_before_def)

lemma prev_len_le:
  assumes "\<forall>j v. j2len j = Some v \<longrightarrow> v \<le> m \<and> v \<le> nonpop_run s j"
  shows "prev_len j2len j \<le> m \<and> prev_len j2len j \<le> run_before s j"
  using assms by (auto simp: prev_len_def run_before_def split: option.splits)

lemma indices_of_split:
  assumes "i < length s"
  shows "indices_of s (s ! i)
     = filter (\<lambda>j. s ! j = s ! i) [0..<i] @ i # filter (\<lambda>j. s ! j = s ! i) [Suc i..<length s]"
proof -
  have "[0..<i + (length s - i)] = [0..<i] @ [i..<i + (length s - i)]"
    by (rule upt_add_eq_append) simp
  moreover have "i + (length s - i) = length s" using assms by simp
  moreover have "[i..<length s] = i # [Suc i..<length s]"
    using assms by (simp add: upt_conv_Cons)
  ultimately have "[0..<length s] = [0..<i] @ i # [Suc i..<length s]" by simp
  then show ?thesis by (simp add: indices_of_def)
qed

lemma row_same:
  assumes i: "i < length s"
    and a: "\<forall>j v. j2len j = Some v \<longrightarrow> v \<le> run_before s i \<and> v \<le> nonpop_run s j"
    and b: "prev_len j2len i = run_before s i"
    and c: "\<forall>i'<i. nonpop_run s i' \<le> bs"
  shows "\<exists>new' d' bs'.
           match_row j2len i 0 (length s) (b2j s (s ! i)) Map.empty (d, d, bs) = (new', (d', d', bs'))
         \<and> (\<forall>j v. new' j = Some v \<longrightarrow> v \<le> run_before s (Suc i) \<and> v \<le> nonpop_run s j)
         \<and> prev_len new' (Suc i) = run_before s (Suc i)
         \<and> (\<forall>i'<Suc i. nonpop_run s i' \<le> bs')"
proof (cases "popular s (s ! i)")
  case True
  then have r0: "nonpop_run s i = 0" by (simp add: nonpop_run_eq)
  have "match_row j2len i 0 (length s) (b2j s (s ! i)) Map.empty (d, d, bs) = (Map.empty, (d, d, bs))"
    using True by (simp add: b2j_def)
  moreover have "\<forall>i'<Suc i. nonpop_run s i' \<le> bs"
    using c r0 by (auto simp: less_Suc_eq)
  moreover have "prev_len Map.empty (Suc i) = run_before s (Suc i)"
    by (simp add: prev_len_def run_before_Suc r0)
  ultimately show ?thesis by auto
next
  case False
  let ?P = "\<lambda>j. s ! j = s ! i"
  let ?js1 = "filter ?P [0..<i]"
  let ?js2 = "filter ?P [Suc i..<length s]"
  let ?K = "\<lambda>j. prev_len j2len j + 1"
  define r where "r = nonpop_run s i"
  have r: "r = run_before s i + 1" using False by (simp add: r_def nonpop_run_eq)
  have Ki: "?K i = r" using b r by simp
  have Kle: "?K j \<le> r \<and> ?K j \<le> nonpop_run s j" if "?P j" for j
  proof -
    from that False have "nonpop_run s j = run_before s j + 1" by (simp add: nonpop_run_eq)
    with prev_len_le[OF a, of j] r show ?thesis by simp
  qed
  have b2j: "b2j s (s ! i) = ?js1 @ i # ?js2"
    using False indices_of_split[OF i] by (simp add: b2j_def)
  have s1: "\<forall>j\<in>set ?js1. j < length s \<and> ?K j \<le> bs"
  proof
    fix j assume "j \<in> set ?js1"
    then have j: "j < i" "?P j" by simp_all
    with Kle[of j] c i show "j < length s \<and> ?K j \<le> bs" by force
  qed
  let ?new1 = "\<lambda>j. if j \<in> set ?js1 then Some (?K j) else None"
  have m1: "match_row j2len i 0 (length s) ?js1 Map.empty (d, d, bs) = (?new1, (d, d, bs))"
    using match_row_keep[OF s1, of i Map.empty d d] by simp
  let ?best2 = "if bs < r then (i + 1 - r, i + 1 - r, r) else (d, d, bs)"
  obtain d2 bs2 where best2: "?best2 = (d2, d2, bs2)" and bs2: "bs \<le> bs2" "r \<le> bs2"
    by (cases "bs < r") auto
  have s3: "\<forall>j\<in>set ?js2. j < length s \<and> ?K j \<le> bs2"
  proof
    fix j assume "j \<in> set ?js2"
    then have j: "j < length s" "?P j" by simp_all
    with Kle[of j] bs2 show "j < length s \<and> ?K j \<le> bs2" by force
  qed
  let ?new3 = "\<lambda>j. if j \<in> set ?js2 then Some (?K j) else (?new1(i \<mapsto> r)) j"
  have m3: "match_row j2len i 0 (length s) ?js2 (?new1(i \<mapsto> r)) (d2, d2, bs2) = (?new3, (d2, d2, bs2))"
    using match_row_keep[OF s3, of i "?new1(i \<mapsto> r)" d2 d2] by simp
  have m23: "match_row j2len i 0 (length s) (i # ?js2) ?new1 (d, d, bs) = (?new3, (d2, d2, bs2))"
    using i Ki best2 m3 by (simp add: Let_def)
  have "\<forall>j\<in>set ?js1. j < length s" using s1 by blast
  from match_row_append[OF this, of j2len i 0 "i # ?js2" Map.empty "(d, d, bs)"]
  have run: "match_row j2len i 0 (length s) (b2j s (s ! i)) Map.empty (d, d, bs) = (?new3, (d2, d2, bs2))"
    by (simp only: b2j m1 m23 prod.case)
  have A: "\<forall>j v. ?new3 j = Some v \<longrightarrow> v \<le> run_before s (Suc i) \<and> v \<le> nonpop_run s j"
  proof (intro allI impI)
    fix j v assume "?new3 j = Some v"
    then have "(?P j \<and> v = ?K j) \<or> (j = i \<and> v = r)"
      by (auto split: if_splits)
    then show "v \<le> run_before s (Suc i) \<and> v \<le> nonpop_run s j"
      using Kle[of j] by (auto simp: run_before_Suc r_def)
  qed
  have "i \<notin> set ?js2" by simp
  then have B: "prev_len ?new3 (Suc i) = run_before s (Suc i)"
    by (simp add: prev_len_def run_before_Suc r_def)
  have C: "\<forall>i'<Suc i. nonpop_run s i' \<le> bs2"
    using c bs2 by (auto simp: less_Suc_eq r_def)
  from run A B C show ?thesis by blast
qed

lemma rows_same:
  "i \<le> length s \<Longrightarrow>
   \<forall>j v. j2len j = Some v \<longrightarrow> v \<le> run_before s i \<and> v \<le> nonpop_run s j \<Longrightarrow>
   prev_len j2len i = run_before s i \<Longrightarrow>
   \<forall>i'<i. nonpop_run s i' \<le> bs \<Longrightarrow>
   \<exists>d' bs'. match_rows s s 0 (length s) [i..<length s] j2len (d, d, bs) = (d', d', bs')"
proof (induction "length s - i" arbitrary: i j2len d bs)
  case 0
  then show ?case by simp
next
  case (Suc n)
  then have lt: "i < length s" by simp
  then have upt: "[i..<length s] = i # [Suc i..<length s]" by (simp add: upt_conv_Cons)
  from row_same[OF lt Suc.prems(2,3,4), of d]
  obtain new' d' bs' where
    r: "match_row j2len i 0 (length s) (b2j s (s ! i)) Map.empty (d, d, bs) = (new', (d', d', bs'))"
    and h: "\<forall>j v. new' j = Some v \<longrightarrow> v \<le> run_before s (Suc i) \<and> v \<le> nonpop_run s j"
       "prev_len new' (Suc i) = run_before s (Suc i)"
       "\<forall>i'<Suc i. nonpop_run s i' \<le> bs'"
    by blast
  have n: "n = length s - Suc i" using Suc.hyps(2) by simp
  have le: "Suc i \<le> length s" using lt by simp
  from Suc.hyps(1)[OF n le h, of d']
  show ?case by (simp add: upt r)
qed


lemma extend_left_same: "extend_left s s 0 0 (d, d, bs) = (0, 0, bs + d)"
proof (induction d arbitrary: bs)
  case 0
  show ?case by (subst extend_left.simps) simp
next
  case (Suc d)
  have "extend_left s s 0 0 (Suc d, Suc d, bs) = extend_left s s 0 0 (d, d, bs + 1)"
    by (subst extend_left.simps) simp
  with Suc[of "bs + 1"] show ?case by simp
qed

lemma extend_right_same: "k \<le> length s \<Longrightarrow> extend_right s s (length s) (length s) (0, 0, k) = (0, 0, length s)"
proof (induction "length s - k" arbitrary: k)
  case 0
  then have "k = length s" by simp
  then show ?case by (subst extend_right.simps) simp
next
  case (Suc n)
  then have lt: "k < length s" by simp
  then have "extend_right s s (length s) (length s) (0, 0, k)
      = extend_right s s (length s) (length s) (0, 0, k + 1)"
    by (subst extend_right.simps) simp
  moreover have "n = length s - (k + 1)" "k + 1 \<le> length s" using Suc.hyps(2) lt by simp_all
  ultimately show ?case using Suc.hyps(1)[of "k + 1"] by simp
qed

lemma find_longest_match_same:
  "find_longest_match s s 0 (length s) 0 (length s) = (0, 0, length s)"
proof -
  let ?m = "match_rows s s 0 (length s) [0..<length s] Map.empty (0, 0, 0)"
  have "\<exists>d' bs'. ?m = (d', d', bs')"
    by (rule rows_same) (simp_all add: prev_len_def run_before_def)
  then obtain d' bs' where m: "?m = (d', d', bs')" by blast
  have "0 \<le> fst ?m \<and> fst ?m + snd (snd ?m) \<le> length s"
    by (rule match_rows_bounds) simp_all
  with m have le: "bs' + d' \<le> length s" by simp
  show ?thesis
    by (simp add: find_longest_match_def m extend_left_same extend_right_same[OF le])
qed

lemma get_matching_blocks_same:
  assumes "s \<noteq> []"
  shows "get_matching_blocks s s = [(0, 0, length s), (length s, length s, 0)]"
proof -
  have "mb_loop s s [(0, length s, 0, length s)] [] = mb_loop s s [] [(0, 0, length s)]"
    using assms by (subst mb_loop.simps) (simp add: find_longest_match_same)
  also have "\<dots> = [(0, 0, length s)]" by (simp add: mb_loop.simps)
  finally show ?thesis using assms by (simp add: get_matching_blocks_def)
qed

lemma ratio_same: "ratio s s = 1"
proof (cases "s = []")
  case True
  then show ?thesis by (simp add: ratio_def)
next
  case False
  then show ?thesis by (simp add: ratio_def get_matching_blocks_same)
qed


text \<open>
  C4. A text that is not empty is never a significant change of itself at the default
  threshold \<open>0.05\<close>, and a change from or to the empty text is always significant.
\<close>

theorem is_significant_change_boundary:
  "(s \<noteq> [] \<longrightarrow> \<not> is_significant_change s s (1 / 20))
   \<and> is_significant_change [] t threshold
   \<and> is_significant_change t [] threshold"
  by (simp add: is_significant_change_def ratio_same)

theorem is_significant_change_boundary_witness:
  "''abc'' \<noteq> [] \<and> \<not> is_significant_change ''abc'' ''abc'' (1 / 20)"
  using is_significant_change_boundary [of "''abc''"] by simp

subsection \<open>UTF-8: decoding what was encoded\<close>

lemma split64: "(c::nat) div 64 * 64 + c mod 64 = c"
  by simp

lemma scale64: "(x * 64 + y) * 64 = x * 4096 + y * (64::nat)"
  by (simp add: add_mult_distrib)

lemma scale4096: "(x * 4096 + y * 64 + z) * 64 = x * 262144 + y * 4096 + z * (64::nat)"
  by (simp add: add_mult_distrib)

lemma split4096: "(c::nat) div 4096 * 4096 + c div 64 mod 64 * 64 + c mod 64 = c"
proof -
  define d where "d = c div 64"
  have 1: "c div 4096 = d div 64" by (simp add: d_def div_mult2_eq)
  have "d * 64 = (d div 64 * 64 + d mod 64) * 64" by simp
  also have "\<dots> = d div 64 * 4096 + d mod 64 * 64" by (rule scale64)
  finally have 2: "d div 64 * 4096 + d mod 64 * 64 = d * 64" by simp
  have 3: "d * 64 + c mod 64 = c" by (simp add: d_def)
  from 1 2 3 show ?thesis unfolding d_def by simp
qed

lemma split262144:
  "(c::nat) div 262144 * 262144 + c div 4096 mod 64 * 4096 + c div 64 mod 64 * 64 + c mod 64 = c"
proof -
  define d where "d = c div 64"
  have 1: "c div 262144 = d div 4096" "c div 4096 = d div 64" by (simp_all add: d_def div_mult2_eq)
  have "d * 64 = (d div 4096 * 4096 + d div 64 mod 64 * 64 + d mod 64) * 64"
    by (simp only: split4096)
  also have "\<dots> = d div 4096 * 262144 + d div 64 mod 64 * 4096 + d mod 64 * 64" by (rule scale4096)
  finally have 2: "d div 4096 * 262144 + d div 64 mod 64 * 4096 + d mod 64 * 64 = d * 64" by simp
  have 3: "d * 64 + c mod 64 = c" by (simp add: d_def)
  from 1 2 3 show ?thesis unfolding d_def by simp
qed

lemma utf8_points_1:
  "c < 0x80 \<Longrightarrow>
   utf8_points ([c] @ rest) = (case utf8_points rest of None \<Rightarrow> None | Some cs \<Rightarrow> Some (c # cs))"
  by simp

lemma utf8_points_2:
  assumes "0x80 \<le> c" "c < 0x800"
  shows "utf8_points ([0xC0 + c div 64, 0x80 + c mod 64] @ rest)
       = (case utf8_points rest of None \<Rightarrow> None | Some cs \<Rightarrow> Some (c # cs))"
proof -
  have b: "c div 64 < 32" "c mod 64 < 64" using assms by simp_all
  have c: "c div 64 * 64 + c mod 64 = c" by simp
  have d: "\<not> 0xC0 + c div 64 < (0x80::nat)" "(0xC0::nat) \<le> 0xC0 + c div 64"
    "0xC0 + c div 64 < (0xE0::nat)" "0xC0 + c div 64 - 0xC0 = c div 64"
    "0x80 + c mod 64 - 0x80 = c mod 64" "is_cont (0x80 + c mod 64)"
    using b by (simp_all add: is_cont_def)
  show ?thesis using assms(1) by (simp add: d c Let_def del: div_mult_mod_eq)
qed

lemma utf8_points_3:
  assumes "0x800 \<le> c" "c < 0x10000" "\<not> is_surrogate c"
  shows "utf8_points ([0xE0 + c div 4096, 0x80 + c div 64 mod 64, 0x80 + c mod 64] @ rest)
       = (case utf8_points rest of None \<Rightarrow> None | Some cs \<Rightarrow> Some (c # cs))"
proof -
  have b: "c div 4096 < 16" using assms by simp
  have d: "\<not> 0xE0 + c div 4096 < (0x80::nat)"
    "\<not> ((0xC0::nat) \<le> 0xE0 + c div 4096 \<and> 0xE0 + c div 4096 < (0xE0::nat))"
    "(0xE0::nat) \<le> 0xE0 + c div 4096" "0xE0 + c div 4096 < (0xF0::nat)"
    "0xE0 + c div 4096 - 0xE0 = c div 4096"
    "0x80 + c div 64 mod 64 - 0x80 = c div 64 mod 64"
    "0x80 + c mod 64 - 0x80 = c mod 64"
    "is_cont (0x80 + c div 64 mod 64)" "is_cont (0x80 + c mod 64)"
    using b by (simp_all add: is_cont_def)
  show ?thesis using assms by (simp add: d split4096 Let_def cong: option.case_cong)
qed

lemma utf8_points_4:
  assumes "0x10000 \<le> c" "c < 0x110000"
  shows "utf8_points ([0xF0 + c div 262144, 0x80 + c div 4096 mod 64, 0x80 + c div 64 mod 64,
                        0x80 + c mod 64] @ rest)
       = (case utf8_points rest of None \<Rightarrow> None | Some cs \<Rightarrow> Some (c # cs))"
proof -
  have b: "c div 262144 < 5" using assms by simp
  have d: "\<not> 0xF0 + c div 262144 < (0x80::nat)"
    "\<not> ((0xC0::nat) \<le> 0xF0 + c div 262144 \<and> 0xF0 + c div 262144 < (0xE0::nat))"
    "\<not> ((0xE0::nat) \<le> 0xF0 + c div 262144 \<and> 0xF0 + c div 262144 < (0xF0::nat))"
    "(0xF0::nat) \<le> 0xF0 + c div 262144" "0xF0 + c div 262144 < (0xF8::nat)"
    "0xF0 + c div 262144 - 0xF0 = c div 262144"
    "0x80 + c div 4096 mod 64 - 0x80 = c div 4096 mod 64"
    "0x80 + c div 64 mod 64 - 0x80 = c div 64 mod 64"
    "0x80 + c mod 64 - 0x80 = c mod 64"
    "is_cont (0x80 + c div 4096 mod 64)" "is_cont (0x80 + c div 64 mod 64)"
    "is_cont (0x80 + c mod 64)"
    using b by (simp_all add: is_cont_def)
  show ?thesis using assms by (simp add: d split262144 Let_def is_surrogate_def cong: option.case_cong)
qed

lemma mod64_bounds:
  "(c::nat) mod 64 < 128" "(c::nat) div 64 mod 64 < 128" "(c::nat) div 4096 mod 64 < 128"
proof -
  have "c mod 64 < 64" "c div 64 mod 64 < 64" "c div 4096 mod 64 < 64" by simp_all
  then show "c mod 64 < 128" "c div 64 mod 64 < 128" "c div 4096 mod 64 < 128" by linarith+
qed

lemma utf8_char_roundtrip:
  assumes "is_scalar c"
  shows "\<exists>bs. utf8_char c = Some bs \<and> (\<forall>b\<in>set bs. b < 256)
           \<and> (\<forall>rest. utf8_points (bs @ rest)
                 = (case utf8_points rest of None \<Rightarrow> None | Some cs \<Rightarrow> Some (c # cs)))"
proof (cases "c < 0x80")
  case True
  show ?thesis
  proof (intro exI conjI allI)
    show "utf8_char c = Some [c]" using True by (simp add: utf8_char_def)
    show "\<forall>b\<in>set [c]. b < 256" using True by simp
    show "utf8_points ([c] @ rest)
        = (case utf8_points rest of None \<Rightarrow> None | Some cs \<Rightarrow> Some (c # cs))" for rest
      using True by (rule utf8_points_1)
  qed
next
  case n1: False
  show ?thesis
  proof (cases "c < 0x800")
    case True
    then have b: "c div 64 < 32" by simp
    show ?thesis
    proof (intro exI conjI allI)
      show "utf8_char c = Some [0xC0 + c div 64, 0x80 + c mod 64]"
        using n1 True by (simp add: utf8_char_def)
      show "\<forall>b\<in>set [0xC0 + c div 64, 0x80 + c mod 64]. b < 256" using b by (simp add: mod64_bounds)
      show "utf8_points ([0xC0 + c div 64, 0x80 + c mod 64] @ rest)
          = (case utf8_points rest of None \<Rightarrow> None | Some cs \<Rightarrow> Some (c # cs))" for rest
        using n1 True by (intro utf8_points_2) simp_all
    qed
  next
    case n2: False
    from assms have ns: "\<not> is_surrogate c" and lt: "c < 0x110000" by (simp_all add: is_scalar_def)
    show ?thesis
    proof (cases "c < 0x10000")
      case True
      then have b: "c div 4096 < 16" by simp
      show ?thesis
      proof (intro exI conjI allI)
        show "utf8_char c = Some [0xE0 + c div 4096, 0x80 + c div 64 mod 64, 0x80 + c mod 64]"
          using n1 n2 ns True by (simp add: utf8_char_def)
        show "\<forall>b\<in>set [0xE0 + c div 4096, 0x80 + c div 64 mod 64, 0x80 + c mod 64]. b < 256"
          using b by (simp add: mod64_bounds)
        show "utf8_points ([0xE0 + c div 4096, 0x80 + c div 64 mod 64, 0x80 + c mod 64] @ rest)
            = (case utf8_points rest of None \<Rightarrow> None | Some cs \<Rightarrow> Some (c # cs))" for rest
          using n2 True ns by (intro utf8_points_3) simp_all
      qed
    next
      case n3: False
      from lt have b: "c div 262144 < 5" by simp
      show ?thesis
      proof (intro exI conjI allI)
        show "utf8_char c = Some [0xF0 + c div 262144, 0x80 + c div 4096 mod 64,
                                  0x80 + c div 64 mod 64, 0x80 + c mod 64]"
          using n1 n2 n3 ns lt by (simp add: utf8_char_def)
        show "\<forall>b\<in>set [0xF0 + c div 262144, 0x80 + c div 4096 mod 64,
                         0x80 + c div 64 mod 64, 0x80 + c mod 64]. b < 256"
          using b by (simp add: mod64_bounds)
        show "utf8_points ([0xF0 + c div 262144, 0x80 + c div 4096 mod 64,
                            0x80 + c div 64 mod 64, 0x80 + c mod 64] @ rest)
            = (case utf8_points rest of None \<Rightarrow> None | Some cs \<Rightarrow> Some (c # cs))" for rest
          using n3 lt by (intro utf8_points_4) simp_all
      qed
    qed
  qed
qed

lemma utf8_bytes_roundtrip:
  "\<forall>c\<in>set s. is_scalar c \<Longrightarrow>
   \<exists>bs. utf8_bytes s = Some bs \<and> (\<forall>b\<in>set bs. b < 256) \<and> utf8_points bs = Some s"
proof (induction s)
  case Nil
  then show ?case by simp
next
  case (Cons c cs)
  then obtain rest where r: "utf8_bytes cs = Some rest" "\<forall>b\<in>set rest. b < 256"
    "utf8_points rest = Some cs" by auto
  from Cons.prems have "is_scalar c" by simp
  from utf8_char_roundtrip[OF this] obtain bs where b: "utf8_char c = Some bs"
    "\<forall>b\<in>set bs. b < 256"
    "\<forall>rest. utf8_points (bs @ rest)
        = (case utf8_points rest of None \<Rightarrow> None | Some cs \<Rightarrow> Some (c # cs))"
    by blast
  from b(3) r(3) have "utf8_points (bs @ rest) = Some (c # cs)" by simp
  with r b show ?case by auto
qed

lemma unat_byte: "b < 256 \<Longrightarrow> unat (of_nat b :: byte) = b"
  by (simp add: unat_of_nat)

lemma map_unat_bytes: "\<forall>b\<in>set bs. b < 256 \<Longrightarrow> map unat (map of_nat bs :: byte list) = bs"
  by (induction bs) (simp_all add: unat_byte)

lemma utf8_roundtrip:
  assumes "\<forall>c\<in>set s. is_scalar c"
  shows "\<exists>bs. utf8_encode s = Inr bs \<and> utf8_decode bs = Inr s"
proof -
  from utf8_bytes_roundtrip[OF assms] obtain bs where
    "utf8_bytes s = Some bs" "\<forall>b\<in>set bs. b < 256" "utf8_points bs = Some s" by blast
  moreover from this have "map unat (map of_nat bs :: byte list) = bs" by (intro map_unat_bytes)
  ultimately show ?thesis by (simp add: utf8_encode_def utf8_decode_def del: map_map)
qed


subsection \<open>Compressing and decompressing\<close>

text \<open>A surrogate anywhere in the string makes the encoder raise.\<close>

lemma utf8_char_surrogate: "is_surrogate c \<Longrightarrow> utf8_char c = None"
  by (simp add: utf8_char_def is_surrogate_def)

lemma utf8_bytes_surrogate: "\<exists>c\<in>set s. is_surrogate c \<Longrightarrow> utf8_bytes s = None"
proof (induction s)
  case Nil
  then show ?case by simp
next
  case (Cons a s)
  show ?case
  proof (cases "is_surrogate a")
    case True
    then show ?thesis by (simp add: utf8_char_surrogate)
  next
    case False
    with Cons.prems have "\<exists>c\<in>set s. is_surrogate c" by simp
    from Cons.IH[OF this] show ?thesis by (simp split: option.splits)
  qed
qed

lemma utf8_encode_surrogate:
  "\<exists>c\<in>set s. is_surrogate c \<Longrightarrow> utf8_encode s = Inl UnicodeEncodeError"
  by (simp add: utf8_encode_def utf8_bytes_surrogate)

text \<open>
  C2, as stated: the round trip holds for every string. A Python string may hold a lone
  surrogate, and then \<open>encode('utf-8')\<close> raises before anything is compressed.
\<close>

theorem compress_content_surrogate:
  "compress_content id [0xD800] = Inl UnicodeEncodeError"
  by (simp add: compress_content_def utf8_encode_def utf8_char_def is_surrogate_def)

text \<open>
  C2, amended. For every string without surrogate code points, the empty string and
  strings with characters of two, three or four bytes included, decompressing the
  compressed content gives the string back, given that zlib's \<open>decompress\<close> inverts its
  \<open>compress\<close>. For every string with a surrogate code point, wherever it stands,
  \<open>compress_content\<close> raises \<open>UnicodeEncodeError\<close>, whatever zlib does.
\<close>

theorem codec_round_trip:
  "((\<forall>bs. zd (zc bs) = Some bs) \<and> (\<forall>c\<in>set s. is_scalar c) \<longrightarrow>
      (\<exists>data. compress_content zc s = Inr data \<and> decompress_content zd data = Inr s))
   \<and> ((\<exists>c\<in>set s. is_surrogate c) \<longrightarrow> compress_content zc s = Inl UnicodeEncodeError)"
proof (intro conjI impI)
  assume a: "(\<forall>bs. zd (zc bs) = Some bs) \<and> (\<forall>c\<in>set s. is_scalar c)"
  then have "\<forall>c\<in>set s. is_scalar c" by simp
  from utf8_roundtrip[OF this] obtain bs where "utf8_encode s = Inr bs" "utf8_decode bs = Inr s"
    by blast
  with a show "\<exists>data. compress_content zc s = Inr data \<and> decompress_content zd data = Inr s"
    by (simp add: compress_content_def decompress_content_def)
next
  assume "\<exists>c\<in>set s. is_surrogate c"
  then show "compress_content zc s = Inl UnicodeEncodeError"
    by (simp add: compress_content_def utf8_encode_surrogate)
qed

theorem codec_round_trip_witness:
  "(\<exists>data. compress_content id [0x41, 0xE9, 0x20AC, 0x1F600] = Inr data
          \<and> decompress_content Some data = Inr [0x41, 0xE9, 0x20AC, 0x1F600])
   \<and> (\<exists>data. compress_content id [] = Inr data \<and> decompress_content Some data = Inr [])
   \<and> compress_content id [0x41, 0xDFFF, 0x42] = Inl UnicodeEncodeError"
  using codec_round_trip [of Some id "[0x41, 0xE9, 0x20AC, 0x1F600]"]
    codec_round_trip [of Some id "[]"]
    codec_round_trip [of Some id "[0x41, 0xDFFF, 0x42]"]
  by (simp add: is_scalar_def is_surrogate_def)

subsection \<open>The hash\<close>

lemma hex_digit_in: "hex_digit n \<in> set ''0123456789abcdef''"
proof -
  have "n mod 16 < length ''0123456789abcdef''" by simp
  then show ?thesis unfolding hex_digit_def by (rule nth_mem)
qed

lemma hex_shape: "length (hex bs) = 2 * length bs \<and> set (hex bs) \<subseteq> set ''0123456789abcdef''"
proof (induction bs)
  case Nil
  show ?case by (simp add: hex_def)
next
  case (Cons b bs)
  have "hex (b # bs) = [hex_digit (unat b div 16), hex_digit (unat b mod 16)] @ hex bs"
    by (simp add: hex_def)
  with Cons hex_digit_in[of "unat b div 16"] hex_digit_in[of "unat b mod 16"]
  show ?case by simp
qed

lemma md5_length: "length (md5 msg) = 16"
  by (simp add: md5_def word_bytes_def split: prod.splits)

text \<open>
  Three digests computed step by step from the definitions, to compare with the values
  that \<open>hashlib.md5\<close> gives: the test vectors \<open>abc\<close> and \<open>1234567890\<close> eight times (two
  blocks) of RFC 1321, and the letter \<open>U+00E9\<close>, whose UTF-8 encoding has two bytes. Each
  lemma evaluates 16 of the 64 steps of a block.
\<close>

lemma replicate_unfold: "replicate (numeral k) x = x # replicate (pred_numeral k) x"
  by (simp add: numeral_eq_Suc)

lemma upt_64_split: "[0..<64] = [0..<16] @ [16..<32] @ [32..<48] @ [48..<64]"
  by (simp add: upt_rec)

lemma md5_abc_pad:
  "md5_pad
     [0x61, 0x62, 0x63]
   = [0x61, 0x62, 0x63, 0x80, 0x00, 0x00, 0x00, 0x00, 0x00, 0x00, 0x00, 0x00, 0x00, 0x00, 0x00,
      0x00, 0x00, 0x00, 0x00, 0x00, 0x00, 0x00, 0x00, 0x00, 0x00, 0x00, 0x00, 0x00, 0x00, 0x00,
      0x00, 0x00, 0x00, 0x00, 0x00, 0x00, 0x00, 0x00, 0x00, 0x00, 0x00, 0x00, 0x00, 0x00, 0x00,
      0x00, 0x00, 0x00, 0x00, 0x00, 0x00, 0x00, 0x00, 0x00, 0x00, 0x00, 0x18, 0x00, 0x00, 0x00,
      0x00, 0x00, 0x00, 0x00]"
  by (simp add: md5_pad_def le_bytes_def upt_rec replicate_unfold)

lemma md5_abc_chunks:
  "chunks 64
     [0x61, 0x62, 0x63, 0x80, 0x00, 0x00, 0x00, 0x00, 0x00, 0x00, 0x00, 0x00, 0x00, 0x00, 0x00,
      0x00, 0x00, 0x00, 0x00, 0x00, 0x00, 0x00, 0x00, 0x00, 0x00, 0x00, 0x00, 0x00, 0x00, 0x00,
      0x00, 0x00, 0x00, 0x00, 0x00, 0x00, 0x00, 0x00, 0x00, 0x00, 0x00, 0x00, 0x00, 0x00, 0x00,
      0x00, 0x00, 0x00, 0x00, 0x00, 0x00, 0x00, 0x00, 0x00, 0x00, 0x00, 0x18, 0x00, 0x00, 0x00,
      0x00, 0x00, 0x00, 0x00]
   = [[0x61, 0x62, 0x63, 0x80, 0x00, 0x00, 0x00, 0x00, 0x00, 0x00, 0x00, 0x00, 0x00, 0x00, 0x00,
       0x00, 0x00, 0x00, 0x00, 0x00, 0x00, 0x00, 0x00, 0x00, 0x00, 0x00, 0x00, 0x00, 0x00, 0x00,
       0x00, 0x00, 0x00, 0x00, 0x00, 0x00, 0x00, 0x00, 0x00, 0x00, 0x00, 0x00, 0x00, 0x00, 0x00,
       0x00, 0x00, 0x00, 0x00, 0x00, 0x00, 0x00, 0x00, 0x00, 0x00, 0x00, 0x18, 0x00, 0x00, 0x00,
       0x00, 0x00, 0x00, 0x00]]"
  by simp

lemma md5_abc_words_0:
  "map le_word (chunks 4
     [0x61, 0x62, 0x63, 0x80, 0x00, 0x00, 0x00, 0x00, 0x00, 0x00, 0x00, 0x00, 0x00, 0x00, 0x00,
       0x00, 0x00, 0x00, 0x00, 0x00, 0x00, 0x00, 0x00, 0x00, 0x00, 0x00, 0x00, 0x00, 0x00, 0x00,
       0x00, 0x00, 0x00, 0x00, 0x00, 0x00, 0x00, 0x00, 0x00, 0x00, 0x00, 0x00, 0x00, 0x00, 0x00,
       0x00, 0x00, 0x00, 0x00, 0x00, 0x00, 0x00, 0x00, 0x00, 0x00, 0x00, 0x18, 0x00, 0x00, 0x00,
       0x00, 0x00, 0x00, 0x00])
   = [0x80636261, 0x00000000, 0x00000000, 0x00000000, 0x00000000, 0x00000000, 0x00000000,
       0x00000000, 0x00000000, 0x00000000, 0x00000000, 0x00000000, 0x00000000, 0x00000000,
       0x00000018, 0x00000000]"
  by (simp add: le_word_def)

lemma md5_abc_steps_0_0:
  "foldl (md5_step
      [0x80636261, 0x00000000, 0x00000000, 0x00000000, 0x00000000, 0x00000000, 0x00000000,
       0x00000000, 0x00000000, 0x00000000, 0x00000000, 0x00000000, 0x00000000, 0x00000000,
       0x00000018, 0x00000000])
     (0x67452301, 0xefcdab89, 0x98badcfe, 0x10325476) [0..<16]
   = (0xdda9b9a6, 0x72aff2e0, 0xe396856b, 0xa1051895)"
  by (simp add: md5_step_def md5_K_def md5_shift_def rotate_left_def upt_rec)

lemma md5_abc_steps_0_16:
  "foldl (md5_step
      [0x80636261, 0x00000000, 0x00000000, 0x00000000, 0x00000000, 0x00000000, 0x00000000,
       0x00000000, 0x00000000, 0x00000000, 0x00000000, 0x00000000, 0x00000000, 0x00000000,
       0x00000018, 0x00000000])
     (0xdda9b9a6, 0x72aff2e0, 0xe396856b, 0xa1051895) [16..<32]
   = (0x790a77fb, 0x726342d3, 0xa62884aa, 0x9f47e4f8)"
  by (simp add: md5_step_def md5_K_def md5_shift_def rotate_left_def upt_rec)

lemma md5_abc_steps_0_32:
  "foldl (md5_step
      [0x80636261, 0x00000000, 0x00000000, 0x00000000, 0x00000000, 0x00000000, 0x00000000,
       0x00000000, 0x00000000, 0x00000000, 0x00000000, 0x00000000, 0x00000000, 0x00000000,
       0x00000018, 0x00000000])
     (0x790a77fb, 0x726342d3, 0xa62884aa, 0x9f47e4f8) [32..<48]
   = (0x7f2e507b, 0x7beb9700, 0x8fae6399, 0x99d9679d)"
  by (simp add: md5_step_def md5_K_def md5_shift_def rotate_left_def upt_rec)

lemma md5_abc_steps_0_48:
  "foldl (md5_step
      [0x80636261, 0x00000000, 0x00000000, 0x00000000, 0x00000000, 0x00000000, 0x00000000,
       0x00000000, 0x00000000, 0x00000000, 0x00000000, 0x00000000, 0x00000000, 0x00000000,
       0x00000018, 0x00000000])
     (0x7f2e507b, 0x7beb9700, 0x8fae6399, 0x99d9679d) [48..<64]
   = (0x310ade8f, 0xc08226b3, 0xe484b9d8, 0x624d8cb2)"
  by (simp add: md5_step_def md5_K_def md5_shift_def rotate_left_def upt_rec)

lemma md5_abc_rounds_0:
  "foldl (md5_step
      [0x80636261, 0x00000000, 0x00000000, 0x00000000, 0x00000000, 0x00000000, 0x00000000,
       0x00000000, 0x00000000, 0x00000000, 0x00000000, 0x00000000, 0x00000000, 0x00000000,
       0x00000018, 0x00000000])
     (0x67452301, 0xefcdab89, 0x98badcfe, 0x10325476) [0..<64]
   = (0x310ade8f, 0xc08226b3, 0xe484b9d8, 0x624d8cb2)"
  by (simp only: upt_64_split foldl_append md5_abc_steps_0_0 md5_abc_steps_0_16 md5_abc_steps_0_32 md5_abc_steps_0_48)

lemma md5_abc_block_0:
  "md5_block (0x67452301, 0xefcdab89, 0x98badcfe, 0x10325476)
     [0x61, 0x62, 0x63, 0x80, 0x00, 0x00, 0x00, 0x00, 0x00, 0x00, 0x00, 0x00, 0x00, 0x00, 0x00,
       0x00, 0x00, 0x00, 0x00, 0x00, 0x00, 0x00, 0x00, 0x00, 0x00, 0x00, 0x00, 0x00, 0x00, 0x00,
       0x00, 0x00, 0x00, 0x00, 0x00, 0x00, 0x00, 0x00, 0x00, 0x00, 0x00, 0x00, 0x00, 0x00, 0x00,
       0x00, 0x00, 0x00, 0x00, 0x00, 0x00, 0x00, 0x00, 0x00, 0x00, 0x00, 0x18, 0x00, 0x00, 0x00,
       0x00, 0x00, 0x00, 0x00]
   = (0x98500190, 0xb04fd23c, 0x7d3f96d6, 0x727fe128)"
  unfolding md5_block_def md5_abc_words_0 md5_abc_rounds_0 by simp

lemma md5_abc_digest:
  "md5
     [0x61, 0x62, 0x63]
   = [0x90, 0x01, 0x50, 0x98, 0x3c, 0xd2, 0x4f, 0xb0, 0xd6, 0x96, 0x3f, 0x7d, 0x28, 0xe1, 0x7f,
      0x72]"
  unfolding md5_def md5_abc_pad md5_abc_chunks foldl.simps md5_abc_block_0
  by (simp add: word_bytes_def)

lemma md5_abc_hex:
  "hex [0x90, 0x01, 0x50, 0x98, 0x3c, 0xd2, 0x4f, 0xb0, 0xd6, 0x96, 0x3f, 0x7d, 0x28, 0xe1, 0x7f,
      0x72]
   = ''900150983cd24fb0d6963f7d28e17f72''"
  by (simp add: hex_def hex_digit_def)

lemma utf8_encode_abc:
  "utf8_encode
     [0x61, 0x62, 0x63]
   = Inr [0x61, 0x62, 0x63]"
  by (simp add: utf8_encode_def utf8_char_def is_surrogate_def)

lemma compute_file_hash_abc:
  "compute_file_hash
     [0x61, 0x62, 0x63]
   = Inr ''900150983cd24fb0d6963f7d28e17f72''"
  by (simp only: compute_file_hash_def utf8_encode_abc md5_abc_digest md5_abc_hex sum.case)

lemma md5_eacute_pad:
  "md5_pad
     [0xc3, 0xa9]
   = [0xc3, 0xa9, 0x80, 0x00, 0x00, 0x00, 0x00, 0x00, 0x00, 0x00, 0x00, 0x00, 0x00, 0x00, 0x00,
      0x00, 0x00, 0x00, 0x00, 0x00, 0x00, 0x00, 0x00, 0x00, 0x00, 0x00, 0x00, 0x00, 0x00, 0x00,
      0x00, 0x00, 0x00, 0x00, 0x00, 0x00, 0x00, 0x00, 0x00, 0x00, 0x00, 0x00, 0x00, 0x00, 0x00,
      0x00, 0x00, 0x00, 0x00, 0x00, 0x00, 0x00, 0x00, 0x00, 0x00, 0x00, 0x10, 0x00, 0x00, 0x00,
      0x00, 0x00, 0x00, 0x00]"
  by (simp add: md5_pad_def le_bytes_def upt_rec replicate_unfold)

lemma md5_eacute_chunks:
  "chunks 64
     [0xc3, 0xa9, 0x80, 0x00, 0x00, 0x00, 0x00, 0x00, 0x00, 0x00, 0x00, 0x00, 0x00, 0x00, 0x00,
      0x00, 0x00, 0x00, 0x00, 0x00, 0x00, 0x00, 0x00, 0x00, 0x00, 0x00, 0x00, 0x00, 0x00, 0x00,
      0x00, 0x00, 0x00, 0x00, 0x00, 0x00, 0x00, 0x00, 0x00, 0x00, 0x00, 0x00, 0x00, 0x00, 0x00,
      0x00, 0x00, 0x00, 0x00, 0x00, 0x00, 0x00, 0x00, 0x00, 0x00, 0x00, 0x10, 0x00, 0x00, 0x00,
      0x00, 0x00, 0x00, 0x00]
   = [[0xc3, 0xa9, 0x80, 0x00, 0x00, 0x00, 0x00, 0x00, 0x00, 0x00, 0x00, 0x00, 0x00, 0x00, 0x00,
       0x00, 0x00, 0x00, 0x00, 0x00, 0x00, 0x00, 0x00, 0x00, 0x00, 0x00, 0x00, 0x00, 0x00, 0x00,
       0x00, 0x00, 0x00, 0x00, 0x00, 0x00, 0x00, 0x00, 0x00, 0x00, 0x00, 0x00, 0x00, 0x00, 0x00,
       0x00, 0x00, 0x00, 0x00, 0x00, 0x00, 0x00, 0x00, 0x00, 0x00, 0x00, 0x10, 0x00, 0x00, 0x00,
       0x00, 0x00, 0x00, 0x00]]"
  by simp

lemma md5_eacute_words_0:
  "map le_word (chunks 4
     [0xc3, 0xa9, 0x80, 0x00, 0x00, 0x00, 0x00, 0x00, 0x00, 0x00, 0x00, 0x00, 0x00, 0x00, 0x00,
       0x00, 0x00, 0x00, 0x00, 0x00, 0x00, 0x00, 0x00, 0x00, 0x00, 0x00, 0x00, 0x00, 0x00, 0x00,
       0x00, 0x00, 0x00, 0x00, 0x00, 0x00, 0x00, 0x00, 0x00, 0x00, 0x00, 0x00, 0x00, 0x00, 0x00,
       0x00, 0x00, 0x00, 0x00, 0x00, 0x00, 0x00, 0x00, 0x00, 0x00, 0x00, 0x10, 0x00, 0x00, 0x00,
       0x00, 0x00, 0x00, 0x00])
   = [0x0080a9c3, 0x00000000, 0x00000000, 0x00000000, 0x00000000, 0x00000000, 0x00000000,
       0x00000000, 0x00000000, 0x00000000, 0x00000000, 0x00000000, 0x00000000, 0x00000000,
       0x00000010, 0x00000000]"
  by (simp add: le_word_def)

lemma md5_eacute_steps_0_0:
  "foldl (md5_step
      [0x0080a9c3, 0x00000000, 0x00000000, 0x00000000, 0x00000000, 0x00000000, 0x00000000,
       0x00000000, 0x00000000, 0x00000000, 0x00000000, 0x00000000, 0x00000000, 0x00000000,
       0x00000010, 0x00000000])
     (0x67452301, 0xefcdab89, 0x98badcfe, 0x10325476) [0..<16]
   = (0x1247b5c0, 0xc6f00535, 0x33152a65, 0x69f0bce1)"
  by (simp add: md5_step_def md5_K_def md5_shift_def rotate_left_def upt_rec)

lemma md5_eacute_steps_0_16:
  "foldl (md5_step
      [0x0080a9c3, 0x00000000, 0x00000000, 0x00000000, 0x00000000, 0x00000000, 0x00000000,
       0x00000000, 0x00000000, 0x00000000, 0x00000000, 0x00000000, 0x00000000, 0x00000000,
       0x00000010, 0x00000000])
     (0x1247b5c0, 0xc6f00535, 0x33152a65, 0x69f0bce1) [16..<32]
   = (0x183b07b7, 0x7e85006d, 0x1ca90476, 0x47cd51be)"
  by (simp add: md5_step_def md5_K_def md5_shift_def rotate_left_def upt_rec)

lemma md5_eacute_steps_0_32:
  "foldl (md5_step
      [0x0080a9c3, 0x00000000, 0x00000000, 0x00000000, 0x00000000, 0x00000000, 0x00000000,
       0x00000000, 0x00000000, 0x00000000, 0x00000000, 0x00000000, 0x00000000, 0x00000000,
       0x00000010, 0x00000000])
     (0x183b07b7, 0x7e85006d, 0x1ca90476, 0x47cd51be) [32..<48]
   = (0x92e7f4f8, 0xf3d41fd6, 0x01687897, 0x65b2ec14)"
  by (simp add: md5_step_def md5_K_def md5_shift_def rotate_left_def upt_rec)

lemma md5_eacute_steps_0_48:
  "foldl (md5_step
      [0x0080a9c3, 0x00000000, 0x00000000, 0x00000000, 0x00000000, 0x00000000, 0x00000000,
       0x00000000, 0x00000000, 0x00000000, 0x00000000, 0x00000000, 0x00000000, 0x00000000,
       0x00000010, 0x00000000])
     (0x92e7f4f8, 0xf3d41fd6, 0x01687897, 0x65b2ec14) [48..<64]
   = (0x3088ba65, 0xc2de3346, 0x00d01ef8, 0x5f94f725)"
  by (simp add: md5_step_def md5_K_def md5_shift_def rotate_left_def upt_rec)

lemma md5_eacute_rounds_0:
  "foldl (md5_step
      [0x0080a9c3, 0x00000000, 0x00000000, 0x00000000, 0x00000000, 0x00000000, 0x00000000,
       0x00000000, 0x00000000, 0x00000000, 0x00000000, 0x00000000, 0x00000000, 0x00000000,
       0x00000010, 0x00000000])
     (0x67452301, 0xefcdab89, 0x98badcfe, 0x10325476) [0..<64]
   = (0x3088ba65, 0xc2de3346, 0x00d01ef8, 0x5f94f725)"
  by (simp only: upt_64_split foldl_append md5_eacute_steps_0_0 md5_eacute_steps_0_16 md5_eacute_steps_0_32 md5_eacute_steps_0_48)

lemma md5_eacute_block_0:
  "md5_block (0x67452301, 0xefcdab89, 0x98badcfe, 0x10325476)
     [0xc3, 0xa9, 0x80, 0x00, 0x00, 0x00, 0x00, 0x00, 0x00, 0x00, 0x00, 0x00, 0x00, 0x00, 0x00,
       0x00, 0x00, 0x00, 0x00, 0x00, 0x00, 0x00, 0x00, 0x00, 0x00, 0x00, 0x00, 0x00, 0x00, 0x00,
       0x00, 0x00, 0x00, 0x00, 0x00, 0x00, 0x00, 0x00, 0x00, 0x00, 0x00, 0x00, 0x00, 0x00, 0x00,
       0x00, 0x00, 0x00, 0x00, 0x00, 0x00, 0x00, 0x00, 0x00, 0x00, 0x00, 0x10, 0x00, 0x00, 0x00,
       0x00, 0x00, 0x00, 0x00]
   = (0x97cddd66, 0xb2abdecf, 0x998afbf6, 0x6fc74b9b)"
  unfolding md5_block_def md5_eacute_words_0 md5_eacute_rounds_0 by simp

lemma md5_eacute_digest:
  "md5
     [0xc3, 0xa9]
   = [0x66, 0xdd, 0xcd, 0x97, 0xcf, 0xde, 0xab, 0xb2, 0xf6, 0xfb, 0x8a, 0x99, 0x9b, 0x4b, 0xc7,
      0x6f]"
  unfolding md5_def md5_eacute_pad md5_eacute_chunks foldl.simps md5_eacute_block_0
  by (simp add: word_bytes_def)

lemma md5_eacute_hex:
  "hex [0x66, 0xdd, 0xcd, 0x97, 0xcf, 0xde, 0xab, 0xb2, 0xf6, 0xfb, 0x8a, 0x99, 0x9b, 0x4b, 0xc7,
      0x6f]
   = ''66ddcd97cfdeabb2f6fb8a999b4bc76f''"
  by (simp add: hex_def hex_digit_def)

lemma utf8_encode_eacute:
  "utf8_encode
     [0xE9]
   = Inr [0xc3, 0xa9]"
  by (simp add: utf8_encode_def utf8_char_def is_surrogate_def)

lemma compute_file_hash_eacute:
  "compute_file_hash
     [0xE9]
   = Inr ''66ddcd97cfdeabb2f6fb8a999b4bc76f''"
  by (simp only: compute_file_hash_def utf8_encode_eacute md5_eacute_digest md5_eacute_hex sum.case)

lemma md5_digits_pad:
  "md5_pad
     [0x31, 0x32, 0x33, 0x34, 0x35, 0x36, 0x37, 0x38, 0x39, 0x30, 0x31, 0x32, 0x33, 0x34, 0x35,
      0x36, 0x37, 0x38, 0x39, 0x30, 0x31, 0x32, 0x33, 0x34, 0x35, 0x36, 0x37, 0x38, 0x39, 0x30,
      0x31, 0x32, 0x33, 0x34, 0x35, 0x36, 0x37, 0x38, 0x39, 0x30, 0x31, 0x32, 0x33, 0x34, 0x35,
      0x36, 0x37, 0x38, 0x39, 0x30, 0x31, 0x32, 0x33, 0x34, 0x35, 0x36, 0x37, 0x38, 0x39, 0x30,
      0x31, 0x32, 0x33, 0x34, 0x35, 0x36, 0x37, 0x38, 0x39, 0x30, 0x31, 0x32, 0x33, 0x34, 0x35,
      0x36, 0x37, 0x38, 0x39, 0x30]
   = [0x31, 0x32, 0x33, 0x34, 0x35, 0x36, 0x37, 0x38, 0x39, 0x30, 0x31, 0x32, 0x33, 0x34, 0x35,
      0x36, 0x37, 0x38, 0x39, 0x30, 0x31, 0x32, 0x33, 0x34, 0x35, 0x36, 0x37, 0x38, 0x39, 0x30,
      0x31, 0x32, 0x33, 0x34, 0x35, 0x36, 0x37, 0x38, 0x39, 0x30, 0x31, 0x32, 0x33, 0x34, 0x35,
      0x36, 0x37, 0x38, 0x39, 0x30, 0x31, 0x32, 0x33, 0x34, 0x35, 0x36, 0x37, 0x38, 0x39, 0x30,
      0x31, 0x32, 0x33, 0x34, 0x35, 0x36, 0x37, 0x38, 0x39, 0x30, 0x31, 0x32, 0x33, 0x34, 0x35,
      0x36, 0x37, 0x38, 0x39, 0x30, 0x80, 0x00, 0x00, 0x00, 0x00, 0x00, 0x00, 0x00, 0x00, 0x00,
      0x00, 0x00, 0x00, 0x00, 0x00, 0x00, 0x00, 0x00, 0x00, 0x00, 0x00, 0x00, 0x00, 0x00, 0x00,
      0x00, 0x00, 0x00, 0x00, 0x00, 0x00, 0x00, 0x00, 0x00, 0x00, 0x00, 0x00, 0x00, 0x00, 0x00,
      0x80, 0x02, 0x00, 0x00, 0x00, 0x00, 0x00, 0x00]"
  by (simp add: md5_pad_def le_bytes_def upt_rec replicate_unfold)

lemma md5_digits_chunks:
  "chunks 64
     [0x31, 0x32, 0x33, 0x34, 0x35, 0x36, 0x37, 0x38, 0x39, 0x30, 0x31, 0x32, 0x33, 0x34, 0x35,
      0x36, 0x37, 0x38, 0x39, 0x30, 0x31, 0x32, 0x33, 0x34, 0x35, 0x36, 0x37, 0x38, 0x39, 0x30,
      0x31, 0x32, 0x33, 0x34, 0x35, 0x36, 0x37, 0x38, 0x39, 0x30, 0x31, 0x32, 0x33, 0x34, 0x35,
      0x36, 0x37, 0x38, 0x39, 0x30, 0x31, 0x32, 0x33, 0x34, 0x35, 0x36, 0x37, 0x38, 0x39, 0x30,
      0x31, 0x32, 0x33, 0x34, 0x35, 0x36, 0x37, 0x38, 0x39, 0x30, 0x31, 0x32, 0x33, 0x34, 0x35,
      0x36, 0x37, 0x38, 0x39, 0x30, 0x80, 0x00, 0x00, 0x00, 0x00, 0x00, 0x00, 0x00, 0x00, 0x00,
      0x00, 0x00, 0x00, 0x00, 0x00, 0x00, 0x00, 0x00, 0x00, 0x00, 0x00, 0x00, 0x00, 0x00, 0x00,
      0x00, 0x00, 0x00, 0x00, 0x00, 0x00, 0x00, 0x00, 0x00, 0x00, 0x00, 0x00, 0x00, 0x00, 0x00,
      0x80, 0x02, 0x00, 0x00, 0x00, 0x00, 0x00, 0x00]
   = [[0x31, 0x32, 0x33, 0x34, 0x35, 0x36, 0x37, 0x38, 0x39, 0x30, 0x31, 0x32, 0x33, 0x34, 0x35,
       0x36, 0x37, 0x38, 0x39, 0x30, 0x31, 0x32, 0x33, 0x34, 0x35, 0x36, 0x37, 0x38, 0x39, 0x30,
       0x31, 0x32, 0x33, 0x34, 0x35, 0x36, 0x37, 0x38, 0x39, 0x30, 0x31, 0x32, 0x33, 0x34, 0x35,
       0x36, 0x37, 0x38, 0x39, 0x30, 0x31, 0x32, 0x33, 0x34, 0x35, 0x36, 0x37, 0x38, 0x39, 0x30,
       0x31, 0x32, 0x33, 0x34],
      [0x35, 0x36, 0x37, 0x38, 0x39, 0x30, 0x31, 0x32, 0x33, 0x34, 0x35, 0x36, 0x37, 0x38, 0x39,
       0x30, 0x80, 0x00, 0x00, 0x00, 0x00, 0x00, 0x00, 0x00, 0x00, 0x00, 0x00, 0x00, 0x00, 0x00,
       0x00, 0x00, 0x00, 0x00, 0x00, 0x00, 0x00, 0x00, 0x00, 0x00, 0x00, 0x00, 0x00, 0x00, 0x00,
       0x00, 0x00, 0x00, 0x00, 0x00, 0x00, 0x00, 0x00, 0x00, 0x00, 0x00, 0x80, 0x02, 0x00, 0x00,
       0x00, 0x00, 0x00, 0x00]]"
  by simp

lemma md5_digits_words_0:
  "map le_word (chunks 4
     [0x31, 0x32, 0x33, 0x34, 0x35, 0x36, 0x37, 0x38, 0x39, 0x30, 0x31, 0x32, 0x33, 0x34, 0x35,
       0x36, 0x37, 0x38, 0x39, 0x30, 0x31, 0x32, 0x33, 0x34, 0x35, 0x36, 0x37, 0x38, 0x39, 0x30,
       0x31, 0x32, 0x33, 0x34, 0x35, 0x36, 0x37, 0x38, 0x39, 0x30, 0x31, 0x32, 0x33, 0x34, 0x35,
       0x36, 0x37, 0x38, 0x39, 0x30, 0x31, 0x32, 0x33, 0x34, 0x35, 0x36, 0x37, 0x38, 0x39, 0x30,
       0x31, 0x32, 0x33, 0x34])
   = [0x34333231, 0x38373635, 0x32313039, 0x36353433, 0x30393837, 0x34333231, 0x38373635,
       0x32313039, 0x36353433, 0x30393837, 0x34333231, 0x38373635, 0x32313039, 0x36353433,
       0x30393837, 0x34333231]"
  by (simp add: le_word_def)

lemma md5_digits_steps_0_0:
  "foldl (md5_step
      [0x34333231, 0x38373635, 0x32313039, 0x36353433, 0x30393837, 0x34333231, 0x38373635,
       0x32313039, 0x36353433, 0x30393837, 0x34333231, 0x38373635, 0x32313039, 0x36353433,
       0x30393837, 0x34333231])
     (0x67452301, 0xefcdab89, 0x98badcfe, 0x10325476) [0..<16]
   = (0x5157e49e, 0xaf506a03, 0x27e983a0, 0xffac907e)"
  by (simp add: md5_step_def md5_K_def md5_shift_def rotate_left_def upt_rec)

lemma md5_digits_steps_0_16:
  "foldl (md5_step
      [0x34333231, 0x38373635, 0x32313039, 0x36353433, 0x30393837, 0x34333231, 0x38373635,
       0x32313039, 0x36353433, 0x30393837, 0x34333231, 0x38373635, 0x32313039, 0x36353433,
       0x30393837, 0x34333231])
     (0x5157e49e, 0xaf506a03, 0x27e983a0, 0xffac907e) [16..<32]
   = (0xf8bcfbb0, 0x1bf25662, 0x99a0f1b8, 0xd760ed39)"
  by (simp add: md5_step_def md5_K_def md5_shift_def rotate_left_def upt_rec)

lemma md5_digits_steps_0_32:
  "foldl (md5_step
      [0x34333231, 0x38373635, 0x32313039, 0x36353433, 0x30393837, 0x34333231, 0x38373635,
       0x32313039, 0x36353433, 0x30393837, 0x34333231, 0x38373635, 0x32313039, 0x36353433,
       0x30393837, 0x34333231])
     (0xf8bcfbb0, 0x1bf25662, 0x99a0f1b8, 0xd760ed39) [32..<48]
   = (0x697032ec, 0xdb4197da, 0xefc2c171, 0xfa597bfc)"
  by (simp add: md5_step_def md5_K_def md5_shift_def rotate_left_def upt_rec)

lemma md5_digits_steps_0_48:
  "foldl (md5_step
      [0x34333231, 0x38373635, 0x32313039, 0x36353433, 0x30393837, 0x34333231, 0x38373635,
       0x32313039, 0x36353433, 0x30393837, 0x34333231, 0x38373635, 0x32313039, 0x36353433,
       0x30393837, 0x34333231])
     (0x697032ec, 0xdb4197da, 0xefc2c171, 0xfa597bfc) [48..<64]
   = (0x614868eb, 0xb4d33102, 0x5133129b, 0xa09f38a7)"
  by (simp add: md5_step_def md5_K_def md5_shift_def rotate_left_def upt_rec)

lemma md5_digits_rounds_0:
  "foldl (md5_step
      [0x34333231, 0x38373635, 0x32313039, 0x36353433, 0x30393837, 0x34333231, 0x38373635,
       0x32313039, 0x36353433, 0x30393837, 0x34333231, 0x38373635, 0x32313039, 0x36353433,
       0x30393837, 0x34333231])
     (0x67452301, 0xefcdab89, 0x98badcfe, 0x10325476) [0..<64]
   = (0x614868eb, 0xb4d33102, 0x5133129b, 0xa09f38a7)"
  by (simp only: upt_64_split foldl_append md5_digits_steps_0_0 md5_digits_steps_0_16 md5_digits_steps_0_32 md5_digits_steps_0_48)

lemma md5_digits_block_0:
  "md5_block (0x67452301, 0xefcdab89, 0x98badcfe, 0x10325476)
     [0x31, 0x32, 0x33, 0x34, 0x35, 0x36, 0x37, 0x38, 0x39, 0x30, 0x31, 0x32, 0x33, 0x34, 0x35,
       0x36, 0x37, 0x38, 0x39, 0x30, 0x31, 0x32, 0x33, 0x34, 0x35, 0x36, 0x37, 0x38, 0x39, 0x30,
       0x31, 0x32, 0x33, 0x34, 0x35, 0x36, 0x37, 0x38, 0x39, 0x30, 0x31, 0x32, 0x33, 0x34, 0x35,
       0x36, 0x37, 0x38, 0x39, 0x30, 0x31, 0x32, 0x33, 0x34, 0x35, 0x36, 0x37, 0x38, 0x39, 0x30,
       0x31, 0x32, 0x33, 0x34]
   = (0xc88d8bec, 0xa4a0dc8b, 0xe9edef99, 0xb0d18d1d)"
  unfolding md5_block_def md5_digits_words_0 md5_digits_rounds_0 by simp

lemma md5_digits_words_1:
  "map le_word (chunks 4
     [0x35, 0x36, 0x37, 0x38, 0x39, 0x30, 0x31, 0x32, 0x33, 0x34, 0x35, 0x36, 0x37, 0x38, 0x39,
       0x30, 0x80, 0x00, 0x00, 0x00, 0x00, 0x00, 0x00, 0x00, 0x00, 0x00, 0x00, 0x00, 0x00, 0x00,
       0x00, 0x00, 0x00, 0x00, 0x00, 0x00, 0x00, 0x00, 0x00, 0x00, 0x00, 0x00, 0x00, 0x00, 0x00,
       0x00, 0x00, 0x00, 0x00, 0x00, 0x00, 0x00, 0x00, 0x00, 0x00, 0x00, 0x80, 0x02, 0x00, 0x00,
       0x00, 0x00, 0x00, 0x00])
   = [0x38373635, 0x32313039, 0x36353433, 0x30393837, 0x00000080, 0x00000000, 0x00000000,
       0x00000000, 0x00000000, 0x00000000, 0x00000000, 0x00000000, 0x00000000, 0x00000000,
       0x00000280, 0x00000000]"
  by (simp add: le_word_def)

lemma md5_digits_steps_1_0:
  "foldl (md5_step
      [0x38373635, 0x32313039, 0x36353433, 0x30393837, 0x00000080, 0x00000000, 0x00000000,
       0x00000000, 0x00000000, 0x00000000, 0x00000000, 0x00000000, 0x00000000, 0x00000000,
       0x00000280, 0x00000000])
     (0xc88d8bec, 0xa4a0dc8b, 0xe9edef99, 0xb0d18d1d) [0..<16]
   = (0xdb4ff71c, 0x58b12eab, 0x04396a39, 0x9b6b4960)"
  by (simp add: md5_step_def md5_K_def md5_shift_def rotate_left_def upt_rec)

lemma md5_digits_steps_1_16:
  "foldl (md5_step
      [0x38373635, 0x32313039, 0x36353433, 0x30393837, 0x00000080, 0x00000000, 0x00000000,
       0x00000000, 0x00000000, 0x00000000, 0x00000000, 0x00000000, 0x00000000, 0x00000000,
       0x00000280, 0x00000000])
     (0xdb4ff71c, 0x58b12eab, 0x04396a39, 0x9b6b4960) [16..<32]
   = (0x8761f38e, 0x67092c33, 0x061bc867, 0x7a516116)"
  by (simp add: md5_step_def md5_K_def md5_shift_def rotate_left_def upt_rec)

lemma md5_digits_steps_1_32:
  "foldl (md5_step
      [0x38373635, 0x32313039, 0x36353433, 0x30393837, 0x00000080, 0x00000000, 0x00000000,
       0x00000000, 0x00000000, 0x00000000, 0x00000000, 0x00000000, 0x00000000, 0x00000000,
       0x00000280, 0x00000000])
     (0x8761f38e, 0x67092c33, 0x061bc867, 0x7a516116) [32..<48]
   = (0x71123afa, 0x1df7010a, 0xe6a8a386, 0xdc9c8ddb)"
  by (simp add: md5_step_def md5_K_def md5_shift_def rotate_left_def upt_rec)

lemma md5_digits_steps_1_48:
  "foldl (md5_step
      [0x38373635, 0x32313039, 0x36353433, 0x30393837, 0x00000080, 0x00000000, 0x00000000,
       0x00000000, 0x00000000, 0x00000000, 0x00000000, 0x00000000, 0x00000000, 0x00000000,
       0x00000280, 0x00000000])
     (0x71123afa, 0x1df7010a, 0xe6a8a386, 0xdc9c8ddb) [48..<64]
   = (0xda67616b, 0xb12906a0, 0x44ec5a13, 0xc9e47a04)"
  by (simp add: md5_step_def md5_K_def md5_shift_def rotate_left_def upt_rec)

lemma md5_digits_rounds_1:
  "foldl (md5_step
      [0x38373635, 0x32313039, 0x36353433, 0x30393837, 0x00000080, 0x00000000, 0x00000000,
       0x00000000, 0x00000000, 0x00000000, 0x00000000, 0x00000000, 0x00000000, 0x00000000,
       0x00000280, 0x00000000])
     (0xc88d8bec, 0xa4a0dc8b, 0xe9edef99, 0xb0d18d1d) [0..<64]
   = (0xda67616b, 0xb12906a0, 0x44ec5a13, 0xc9e47a04)"
  by (simp only: upt_64_split foldl_append md5_digits_steps_1_0 md5_digits_steps_1_16 md5_digits_steps_1_32 md5_digits_steps_1_48)

lemma md5_digits_block_1:
  "md5_block (0xc88d8bec, 0xa4a0dc8b, 0xe9edef99, 0xb0d18d1d)
     [0x35, 0x36, 0x37, 0x38, 0x39, 0x30, 0x31, 0x32, 0x33, 0x34, 0x35, 0x36, 0x37, 0x38, 0x39,
       0x30, 0x80, 0x00, 0x00, 0x00, 0x00, 0x00, 0x00, 0x00, 0x00, 0x00, 0x00, 0x00, 0x00, 0x00,
       0x00, 0x00, 0x00, 0x00, 0x00, 0x00, 0x00, 0x00, 0x00, 0x00, 0x00, 0x00, 0x00, 0x00, 0x00,
       0x00, 0x00, 0x00, 0x00, 0x00, 0x00, 0x00, 0x00, 0x00, 0x00, 0x00, 0x80, 0x02, 0x00, 0x00,
       0x00, 0x00, 0x00, 0x00]
   = (0xa2f4ed57, 0x55c9e32b, 0x2eda49ac, 0x7ab60721)"
  unfolding md5_block_def md5_digits_words_1 md5_digits_rounds_1 by simp

lemma md5_digits_digest:
  "md5
     [0x31, 0x32, 0x33, 0x34, 0x35, 0x36, 0x37, 0x38, 0x39, 0x30, 0x31, 0x32, 0x33, 0x34, 0x35,
      0x36, 0x37, 0x38, 0x39, 0x30, 0x31, 0x32, 0x33, 0x34, 0x35, 0x36, 0x37, 0x38, 0x39, 0x30,
      0x31, 0x32, 0x33, 0x34, 0x35, 0x36, 0x37, 0x38, 0x39, 0x30, 0x31, 0x32, 0x33, 0x34, 0x35,
      0x36, 0x37, 0x38, 0x39, 0x30, 0x31, 0x32, 0x33, 0x34, 0x35, 0x36, 0x37, 0x38, 0x39, 0x30,
      0x31, 0x32, 0x33, 0x34, 0x35, 0x36, 0x37, 0x38, 0x39, 0x30, 0x31, 0x32, 0x33, 0x34, 0x35,
      0x36, 0x37, 0x38, 0x39, 0x30]
   = [0x57, 0xed, 0xf4, 0xa2, 0x2b, 0xe3, 0xc9, 0x55, 0xac, 0x49, 0xda, 0x2e, 0x21, 0x07, 0xb6,
      0x7a]"
  unfolding md5_def md5_digits_pad md5_digits_chunks foldl.simps md5_digits_block_0 md5_digits_block_1
  by (simp add: word_bytes_def)

lemma md5_digits_hex:
  "hex [0x57, 0xed, 0xf4, 0xa2, 0x2b, 0xe3, 0xc9, 0x55, 0xac, 0x49, 0xda, 0x2e, 0x21, 0x07, 0xb6,
      0x7a]
   = ''57edf4a22be3c955ac49da2e2107b67a''"
  by (simp add: hex_def hex_digit_def)

lemma utf8_encode_digits:
  "utf8_encode
     [0x31, 0x32, 0x33, 0x34, 0x35, 0x36, 0x37, 0x38, 0x39, 0x30, 0x31, 0x32, 0x33, 0x34, 0x35,
      0x36, 0x37, 0x38, 0x39, 0x30, 0x31, 0x32, 0x33, 0x34, 0x35, 0x36, 0x37, 0x38, 0x39, 0x30,
      0x31, 0x32, 0x33, 0x34, 0x35, 0x36, 0x37, 0x38, 0x39, 0x30, 0x31, 0x32, 0x33, 0x34, 0x35,
      0x36, 0x37, 0x38, 0x39, 0x30, 0x31, 0x32, 0x33, 0x34, 0x35, 0x36, 0x37, 0x38, 0x39, 0x30,
      0x31, 0x32, 0x33, 0x34, 0x35, 0x36, 0x37, 0x38, 0x39, 0x30, 0x31, 0x32, 0x33, 0x34, 0x35,
      0x36, 0x37, 0x38, 0x39, 0x30]
   = Inr [0x31, 0x32, 0x33, 0x34, 0x35, 0x36, 0x37, 0x38, 0x39, 0x30, 0x31, 0x32, 0x33, 0x34, 0x35,
      0x36, 0x37, 0x38, 0x39, 0x30, 0x31, 0x32, 0x33, 0x34, 0x35, 0x36, 0x37, 0x38, 0x39, 0x30,
      0x31, 0x32, 0x33, 0x34, 0x35, 0x36, 0x37, 0x38, 0x39, 0x30, 0x31, 0x32, 0x33, 0x34, 0x35,
      0x36, 0x37, 0x38, 0x39, 0x30, 0x31, 0x32, 0x33, 0x34, 0x35, 0x36, 0x37, 0x38, 0x39, 0x30,
      0x31, 0x32, 0x33, 0x34, 0x35, 0x36, 0x37, 0x38, 0x39, 0x30, 0x31, 0x32, 0x33, 0x34, 0x35,
      0x36, 0x37, 0x38, 0x39, 0x30]"
  by (simp add: utf8_encode_def utf8_char_def is_surrogate_def)

lemma compute_file_hash_digits:
  "compute_file_hash
     [0x31, 0x32, 0x33, 0x34, 0x35, 0x36, 0x37, 0x38, 0x39, 0x30, 0x31, 0x32, 0x33, 0x34, 0x35,
      0x36, 0x37, 0x38, 0x39, 0x30, 0x31, 0x32, 0x33, 0x34, 0x35, 0x36, 0x37, 0x38, 0x39, 0x30,
      0x31, 0x32, 0x33, 0x34, 0x35, 0x36, 0x37, 0x38, 0x39, 0x30, 0x31, 0x32, 0x33, 0x34, 0x35,
      0x36, 0x37, 0x38, 0x39, 0x30, 0x31, 0x32, 0x33, 0x34, 0x35, 0x36, 0x37, 0x38, 0x39, 0x30,
      0x31, 0x32, 0x33, 0x34, 0x35, 0x36, 0x37, 0x38, 0x39, 0x30, 0x31, 0x32, 0x33, 0x34, 0x35,
      0x36, 0x37, 0x38, 0x39, 0x30]
   = Inr ''57edf4a22be3c955ac49da2e2107b67a''"
  by (simp only: compute_file_hash_def utf8_encode_digits md5_digits_digest md5_digits_hex sum.case)


text \<open>
  C10, as stated: every string has a digest. A string with a lone surrogate has none:
  \<open>encode('utf-8')\<close> raises.
\<close>

theorem compute_file_hash_surrogate:
  "compute_file_hash [0xD800] = Inl UnicodeEncodeError"
  by (simp add: compute_file_hash_def utf8_encode_def utf8_char_def is_surrogate_def)

text \<open>
  C10, amended. For every string without surrogate code points \<open>compute_file_hash\<close>
  returns the MD5 digest of the UTF-8 encoding of the string (bytes that decode back to
  the string) in hexadecimal: 32 characters, each a lowercase hexadecimal digit. The
  digest is this function of the string and of nothing else, so equal strings have equal
  digests. For every string with a surrogate code point \<open>compute_file_hash\<close> raises
  \<open>UnicodeEncodeError\<close>.
\<close>

theorem compute_file_hash_shape:
  "((\<forall>c\<in>set s. is_scalar c) \<longrightarrow>
      (\<exists>bs. utf8_encode s = Inr bs \<and> utf8_decode bs = Inr s
          \<and> compute_file_hash s = Inr (hex (md5 bs))
          \<and> length (hex (md5 bs)) = 32
          \<and> set (hex (md5 bs)) \<subseteq> set ''0123456789abcdef''))
   \<and> ((\<exists>c\<in>set s. is_surrogate c) \<longrightarrow> compute_file_hash s = Inl UnicodeEncodeError)"
proof (intro conjI impI)
  assume "\<forall>c\<in>set s. is_scalar c"
  from utf8_roundtrip[OF this] obtain bs where bs: "utf8_encode s = Inr bs" "utf8_decode bs = Inr s"
    by blast
  then have "compute_file_hash s = Inr (hex (md5 bs))" by (simp add: compute_file_hash_def)
  with bs hex_shape[of "md5 bs"] md5_length[of bs]
  show "\<exists>bs. utf8_encode s = Inr bs \<and> utf8_decode bs = Inr s
          \<and> compute_file_hash s = Inr (hex (md5 bs))
          \<and> length (hex (md5 bs)) = 32
          \<and> set (hex (md5 bs)) \<subseteq> set ''0123456789abcdef''"
    by simp
next
  assume "\<exists>c\<in>set s. is_surrogate c"
  then show "compute_file_hash s = Inl UnicodeEncodeError"
    by (simp add: compute_file_hash_def utf8_encode_surrogate)
qed

text \<open>
  At the string \<open>abc\<close> the digest is the one of RFC 1321, and at \<open>a\<close> followed by a
  surrogate there is none.
\<close>

theorem compute_file_hash_shape_witness:
  "compute_file_hash [0x61, 0x62, 0x63] = Inr ''900150983cd24fb0d6963f7d28e17f72''
   \<and> length ''900150983cd24fb0d6963f7d28e17f72'' = 32
   \<and> set ''900150983cd24fb0d6963f7d28e17f72'' \<subseteq> set ''0123456789abcdef''
   \<and> compute_file_hash [0x61, 0xD800] = Inl UnicodeEncodeError"
proof -
  have "\<forall>c\<in>set [0x61, 0x62, 0x63::nat]. is_scalar c"
    by (simp add: is_scalar_def is_surrogate_def)
  with compute_file_hash_shape [of "[0x61, 0x62, 0x63]"] obtain bs where
    bs: "utf8_encode [0x61, 0x62, 0x63] = Inr bs"
      "compute_file_hash [0x61, 0x62, 0x63] = Inr (hex (md5 bs))"
      "length (hex (md5 bs)) = 32" "set (hex (md5 bs)) \<subseteq> set ''0123456789abcdef''"
    by blast
  from bs(1) have "bs = [0x61, 0x62, 0x63]" by (simp add: utf8_encode_abc)
  then have h: "hex (md5 bs) = ''900150983cd24fb0d6963f7d28e17f72''"
    by (simp only: md5_abc_digest md5_abc_hex)
  have "\<exists>c\<in>set [0x61, 0xD800::nat]. is_surrogate c" by (simp add: is_surrogate_def)
  with compute_file_hash_shape [of "[0x61, 0xD800]"]
  have "compute_file_hash [0x61, 0xD800] = Inl UnicodeEncodeError" by blast
  with bs(2-4) h show ?thesis by (simp only: simp_thms)
qed

subsection \<open>Snapshots of files in an unknown language\<close>

lemma codepoints_scalar: "\<forall>c\<in>set (codepoints s). is_scalar c"
proof
  fix c assume "c \<in> set (codepoints s)"
  then obtain ch :: char where "c = of_char ch" by (auto simp: codepoints_def)
  moreover have lt: "(of_char ch :: nat) < 256" by simp
  moreover from lt have "(of_char ch :: nat) < 1114112" "\<not> 55296 \<le> (of_char ch :: nat)"
    by linarith+
  ultimately show "is_scalar c" by (simp add: is_scalar_def is_surrogate_def)
qed

lemma compute_file_hash_codepoints: "\<exists>h. compute_file_hash (codepoints s) = Inr h"
proof -
  from utf8_roundtrip[OF codepoints_scalar] obtain bs where "utf8_encode (codepoints s) = Inr bs"
    by blast
  then show ?thesis by (simp add: compute_file_hash_def)
qed

lemma compress_content_codepoints: "\<exists>d. compress_content zc (codepoints s) = Inr d"
proof -
  from utf8_roundtrip[OF codepoints_scalar] obtain bs where "utf8_encode (codepoints s) = Inr bs"
    by blast
  then show ?thesis by (simp add: compress_content_def)
qed

lemma count_code_metrics_returns: "\<exists>m. count_code_metrics content = Inr m"
proof (cases "content = []")
  case True
  then show ?thesis by (simp add: count_code_metrics_def)
next
  case False
  have "\<exists>st'. scan_lines scan_init (splitlines content) = Inr st' \<and> 0 \<le> st_blank st'
          \<and> 0 \<le> st_comment st' \<and> 0 \<le> st_docstring st'
          \<and> st_blank st' + st_comment st' + st_docstring st' \<le> 0 + int (length (splitlines content))"
    by (rule scan_lines_inv) (simp_all add: scan_init_def)
  then obtain st' where "scan_lines scan_init (splitlines content) = Inr st'" by blast
  with False show ?thesis by (simp add: count_code_metrics_def Let_def)
qed

lemma language_map_values: "(ext, language) \<in> set language_map \<Longrightarrow> language \<noteq> []"
  by (auto simp: language_map_def)

lemma identify_code_language_true: "identify_code_language filename \<noteq> []"
proof (cases "map_of language_map (lower (snd (splitext filename)))")
  case None
  then show ?thesis by (simp add: identify_code_language_def)
next
  case (Some language)
  then have "(lower (snd (splitext filename)), language) \<in> set language_map"
    by (rule map_of_SomeD)
  then have "language \<noteq> []" by (rule language_map_values)
  with Some show ?thesis by (simp add: identify_code_language_def)
qed

lemma create_snapshot_always_metrics:
  "\<exists>snap m. create_snapshot env zc file_path (Some content) = Some snap
       \<and> count_code_metrics content = Inr m
       \<and> snap_language snap = identify_code_language file_path
       \<and> snap_metrics snap = metrics_dict m"
proof -
  obtain h where h: "compute_file_hash (codepoints content) = Inr h"
    using compute_file_hash_codepoints by blast
  obtain d where d: "compress_content zc (codepoints content) = Inr d"
    using compress_content_codepoints by blast
  obtain m where m: "count_code_metrics content = Inr m"
    using count_code_metrics_returns by blast
  show ?thesis
    by (simp add: create_snapshot_def h d m identify_code_language_true Let_def)
qed

lemma identify_notes: "identify_code_language ''notes.txt'' = ''Unknown''"
  by (simp add: identify_code_language_def splitext_def basename_def lower_def lower_char_def
      code_def language_map_def Let_def)

lemma metrics_notes:
  "\<exists>m. count_code_metrics ''x = 1\<newline>'' = Inr m \<and> total_lines m = 1 \<and> code_lines m = 1"
  by (simp add: count_code_metrics_def splitlines_def is_linebreak_def code_def scan_init_def
      scan_line_def strip_def is_space_def startswith_def match_def_def match_class_def
      match_import_def match_import_plain_def match_import_from_def many0_def many1_def lit_def
      Let_def)

text \<open>
  C8. The metrics of a snapshot are meant to be empty when the extension of the path is
  not in the table. For such a path \<open>identify_code_language\<close> returns the string
  \<open>Unknown\<close>, which is a true value, so the test \<open>if language\<close> never fails and the metrics
  are computed all the same: the snapshot of \<open>notes.txt\<close> with one line of text has
  \<open>total_lines = 1\<close>.
\<close>

theorem create_snapshot_unknown_language_metrics:
  "\<exists>snap. create_snapshot env zc ''notes.txt'' (Some ''x = 1\<newline>'') = Some snap
       \<and> snap_language snap = ''Unknown''
       \<and> snap_metrics snap ''total_lines'' = Some 1
       \<and> snap_metrics snap ''code_lines'' = Some 1
       \<and> snap_metrics snap \<noteq> Map.empty"
proof -
  from create_snapshot_always_metrics[of env zc "''notes.txt''" "''x = 1\<newline>''"]
  obtain snap m where s: "create_snapshot env zc ''notes.txt'' (Some ''x = 1\<newline>'') = Some snap"
    "count_code_metrics ''x = 1\<newline>'' = Inr m"
    "snap_language snap = identify_code_language ''notes.txt''"
    "snap_metrics snap = metrics_dict m" by blast
  from metrics_notes s(2) have m: "total_lines m = 1" "code_lines m = 1" by auto
  have t: "snap_metrics snap ''total_lines'' = Some 1" "snap_metrics snap ''code_lines'' = Some 1"
    by (simp_all add: s(4) metrics_dict_def m)
  then have "snap_metrics snap \<noteq> Map.empty" by auto
  with s(1,3) t identify_notes show ?thesis by simp
qed

subsection \<open>The metric changes of a comparison\<close>

text \<open>
  C5, as stated: every metric key of either snapshot has an entry in \<open>metrics_changes\<close>.
  The loop makes an entry only when the two values differ: two snapshots with the same
  \<open>total_lines\<close> give a report without that key.
\<close>

theorem compare_snapshots_omits_unchanged:
  "compare_snapshots
     (Some \<lparr>snap_file_path = ''a.py'', snap_file_name = ''a.py'', snap_timestamp = ''t1'',
            snap_file_modified = None, snap_hash = ''3253b41059cac6e987c5a5e9233ea5d0'',
            snap_language = ''Python'', snap_size = 6,
            snap_metrics = [''total_lines'' \<mapsto> 1, ''code_lines'' \<mapsto> 1],
            snap_content = ''x = 1\<newline>'', snap_compressed_content = None\<rparr>)
     (Some \<lparr>snap_file_path = ''a.py'', snap_file_name = ''a.py'', snap_timestamp = ''t2'',
            snap_file_modified = None, snap_hash = ''6b0ffc2a745f347f0e552f94b114298f'',
            snap_language = ''Python'', snap_size = 6,
            snap_metrics = [''total_lines'' \<mapsto> 1, ''code_lines'' \<mapsto> 1],
            snap_content = ''y = 2\<newline>'', snap_compressed_content = None\<rparr>)
     \<noteq> None
   \<and> rep_metrics_changes (the (compare_snapshots
     (Some \<lparr>snap_file_path = ''a.py'', snap_file_name = ''a.py'', snap_timestamp = ''t1'',
            snap_file_modified = None, snap_hash = ''3253b41059cac6e987c5a5e9233ea5d0'',
            snap_language = ''Python'', snap_size = 6,
            snap_metrics = [''total_lines'' \<mapsto> 1, ''code_lines'' \<mapsto> 1],
            snap_content = ''x = 1\<newline>'', snap_compressed_content = None\<rparr>)
     (Some \<lparr>snap_file_path = ''a.py'', snap_file_name = ''a.py'', snap_timestamp = ''t2'',
            snap_file_modified = None, snap_hash = ''6b0ffc2a745f347f0e552f94b114298f'',
            snap_language = ''Python'', snap_size = 6,
            snap_metrics = [''total_lines'' \<mapsto> 1, ''code_lines'' \<mapsto> 1],
            snap_content = ''y = 2\<newline>'', snap_compressed_content = None\<rparr>)))
       ''total_lines'' = None"
  by (simp add: compare_snapshots_def metrics_changes_def get_or_zero_def)

text \<open>
  C5, amended. Comparing two snapshots gives a report in which a metric key has an entry
  exactly when its two values differ, a key absent on one side counting as 0; the entry
  holds the old value, the new value and \<open>change = new - old\<close>; and \<open>size_change\<close> is the
  size of the new snapshot minus the size of the old one.
\<close>

theorem compare_snapshots_metrics_delta:
  "\<exists>r. compare_snapshots (Some old) (Some new) = Some r
      \<and> rep_metrics_changes r key
          = (if get_or_zero (snap_metrics old) key \<noteq> get_or_zero (snap_metrics new) key
             then Some \<lparr>change_old = get_or_zero (snap_metrics old) key,
                        change_new = get_or_zero (snap_metrics new) key,
                        change = get_or_zero (snap_metrics new) key
                                   - get_or_zero (snap_metrics old) key\<rparr>
             else None)
      \<and> rep_size_change r = snap_size new - snap_size old"
proof -
  have "metrics_changes (snap_metrics old) (snap_metrics new) key
      = (if get_or_zero (snap_metrics old) key \<noteq> get_or_zero (snap_metrics new) key
         then Some \<lparr>change_old = get_or_zero (snap_metrics old) key,
                    change_new = get_or_zero (snap_metrics new) key,
                    change = get_or_zero (snap_metrics new) key
                               - get_or_zero (snap_metrics old) key\<rparr>
         else None)"
  proof (cases "key \<in> dom (snap_metrics old) \<union> dom (snap_metrics new)")
    case True
    then show ?thesis by (simp add: metrics_changes_def Let_def)
  next
    case False
    then have "snap_metrics old key = None" "snap_metrics new key = None" by auto
    then have "get_or_zero (snap_metrics old) key = 0" "get_or_zero (snap_metrics new) key = 0"
      by (simp_all add: get_or_zero_def)
    with False show ?thesis by (simp add: metrics_changes_def)
  qed
  then show ?thesis by (simp add: compare_snapshots_def)
qed

end
